(* ===== verification/Prelude.thy ===== *)
theory Prelude
  imports Complex_Main "HOL-Library.Multiset" "HOL-Library.Sublist"
begin

text \<open>
  Shared vocabulary of the development: the collections of rewrite rules, the relational
  reading of a table as a list of rows (\<open>SELECT\<close>, \<open>UPDATE ... WHERE\<close>,
  \<open>DELETE ... WHERE\<close>), database transactions with a committed and a working copy,
  Python datetimes and dates, and the part of Python's string library the program uses.
  Nothing here is specific to one component of the program.
\<close>

named_theorems table_simps \<open>rewriting of the relational operations on lists of rows\<close>
named_theorems tx_simps \<open>rewriting of transactions\<close>
named_theorems time_simps \<open>unfolding of datetimes, dates and intervals\<close>
named_theorems str_simps \<open>unfolding of Python's string operations\<close>

section \<open>Tables as lists of rows\<close>

text \<open>
  A table is the list of its rows in insertion order. A \<open>SELECT\<close> with a condition is
  \<^const>\<open>filter\<close>, \<open>scalar(select ...)\<close> is \<^const>\<open>List.find\<close>; the two
  writing statements are below, and the number of rows a statement touches is the
  \<open>rowcount\<close> the driver reports.
\<close>

definition update_where :: "('r \<Rightarrow> bool) \<Rightarrow> ('r \<Rightarrow> 'r) \<Rightarrow> 'r list \<Rightarrow> 'r list" where
  "update_where p f rows = map (\<lambda>r. if p r then f r else r) rows"

definition delete_where :: "('r \<Rightarrow> bool) \<Rightarrow> 'r list \<Rightarrow> 'r list" where
  "delete_where p rows = filter (\<lambda>r. \<not> p r) rows"

definition rowcount :: "('r \<Rightarrow> bool) \<Rightarrow> 'r list \<Rightarrow> nat" where
  "rowcount p rows = length (filter p rows)"

text \<open>A unique constraint on a key of the rows.\<close>

definition unique_on :: "('r \<Rightarrow> 'k) \<Rightarrow> 'r list \<Rightarrow> bool" where
  "unique_on key rows \<longleftrightarrow> distinct (map key rows)"

lemma update_where_Nil [simp]: "update_where p f [] = []"
  by (simp add: update_where_def)

lemma update_where_Cons [simp]:
  "update_where p f (r # rows) = (if p r then f r else r) # update_where p f rows"
  by (simp add: update_where_def)

lemma update_where_append [simp]:
  "update_where p f (xs @ ys) = update_where p f xs @ update_where p f ys"
  by (simp add: update_where_def)

lemma length_update_where [simp]: "length (update_where p f rows) = length rows"
  by (simp add: update_where_def)

lemma set_update_where [table_simps]:
  "set (update_where p f rows) = f ` {r \<in> set rows. p r} \<union> {r \<in> set rows. \<not> p r}"
  by (auto simp: update_where_def)

lemma in_update_whereE:
  assumes "r \<in> set (update_where p f rows)"
  obtains s where "s \<in> set rows" "r = (if p s then f s else s)"
  using assms by (auto simp: update_where_def)

lemma map_update_where:
  assumes "\<And>r. r \<in> set rows \<Longrightarrow> p r \<Longrightarrow> k (f r) = k r"
  shows "map k (update_where p f rows) = map k rows"
  using assms by (simp add: update_where_def)

lemma update_where_id:
  assumes "\<And>r. r \<in> set rows \<Longrightarrow> \<not> p r"
  shows "update_where p f rows = rows"
  using assms by (simp add: update_where_def map_idI)

lemma update_where_idem:
  assumes "\<And>r. p r \<Longrightarrow> p (f r) \<Longrightarrow> f (f r) = f r"
  shows "update_where p f (update_where p f rows) = update_where p f rows"
  using assms by (simp add: update_where_def)

lemma filter_update_where_frame:
  assumes "\<And>r. p r \<Longrightarrow> \<not> q r" and "\<And>r. p r \<Longrightarrow> \<not> q (f r)"
  shows "filter q (update_where p f rows) = filter q rows"
  using assms by (induction rows) auto

lemma filter_update_where_eq:
  assumes "\<And>r. q (f r) = q r"
  shows "filter q (update_where p f rows) = update_where p f (filter q rows)"
  using assms by (induction rows) auto

lemma set_delete_where [table_simps]: "set (delete_where p rows) = {r \<in> set rows. \<not> p r}"
  by (auto simp: delete_where_def)

lemma delete_where_Nil [simp]: "delete_where p [] = []"
  by (simp add: delete_where_def)

lemma delete_where_idem [simp]: "delete_where p (delete_where p rows) = delete_where p rows"
  by (simp add: delete_where_def)

lemma rowcount_delete_where [simp]: "rowcount p (delete_where p rows) = 0"
  by (simp add: rowcount_def delete_where_def filter_empty_conv)

lemma length_delete_where: "length (delete_where p rows) + rowcount p rows = length rows"
  using sum_length_filter_compl [of p rows] by (simp add: delete_where_def rowcount_def)

lemma delete_where_frame:
  assumes "\<And>r. q r \<Longrightarrow> \<not> p r"
  shows "filter q (delete_where p rows) = filter q rows"
  using assms by (auto simp: delete_where_def filter_filter intro!: filter_cong)

lemma unique_on_Nil [simp]: "unique_on key []"
  by (simp add: unique_on_def)

lemma unique_on_Cons:
  "unique_on key (r # rows) \<longleftrightarrow> key r \<notin> key ` set rows \<and> unique_on key rows"
  by (simp add: unique_on_def)

lemma unique_on_snoc:
  "unique_on key (rows @ [r]) \<longleftrightarrow> key r \<notin> key ` set rows \<and> unique_on key rows"
  by (auto simp: unique_on_def)

lemma unique_on_eq:
  assumes "unique_on key rows" "r \<in> set rows" "s \<in> set rows" "key r = key s"
  shows "r = s"
  using assms by (auto simp: unique_on_def distinct_map inj_on_def)

lemma unique_on_update_where:
  assumes "\<And>r. r \<in> set rows \<Longrightarrow> p r \<Longrightarrow> key (f r) = key r"
  shows "unique_on key (update_where p f rows) = unique_on key rows"
  unfolding unique_on_def by (simp add: map_update_where assms)

lemma unique_on_delete_where: "unique_on key rows \<Longrightarrow> unique_on key (delete_where p rows)"
  unfolding unique_on_def delete_where_def by (rule distinct_map_filter)

lemma filter_key_tail_Nil:
  assumes "unique_on key (r # rows)" "key r = k"
  shows "filter (\<lambda>x. key x = k) rows = []"
proof -
  have "k \<notin> key ` set rows" using assms by (auto simp: unique_on_Cons)
  then show ?thesis by (auto simp: filter_empty_conv)
qed

lemma find_SomeD: "List.find p rows = Some r \<Longrightarrow> r \<in> set rows \<and> p r"
  by (auto simp: find_Some_iff)

lemma find_None_conv: "List.find p rows = None \<longleftrightarrow> (\<forall>r \<in> set rows. \<not> p r)"
  by (auto simp: find_None_iff)

lemma find_unique:
  assumes "unique_on key rows" "r \<in> set rows" "\<And>s. p s \<longleftrightarrow> key s = key r"
  shows "List.find p rows = Some r"
proof -
  have "List.find p rows \<noteq> None" using assms by (auto simp: find_None_conv)
  then obtain s where s: "List.find p rows = Some s" by auto
  then have "s = r" using assms find_SomeD [OF s] unique_on_eq [of key rows s r] by auto
  then show ?thesis using s by simp
qed

lemma find_append_None: "List.find p xs = None \<Longrightarrow> List.find p (xs @ ys) = List.find p ys"
  by (induction xs) (auto split: if_splits)

lemma find_append_Some: "List.find p xs = Some r \<Longrightarrow> List.find p (xs @ ys) = Some r"
  by (induction xs) (auto split: if_splits)

lemma find_update_where_same:
  assumes "\<And>r. p r \<Longrightarrow> q (f r) = q r"
  shows "List.find q (update_where p f rows)
    = map_option (\<lambda>r. if p r then f r else r) (List.find q rows)"
  using assms by (induction rows) auto

section \<open>Tables with a primary key\<close>

text \<open>
  The interface every table with a sequence-generated primary key gives its repository: reading a row
  by key, writing the row of a key, appending a row under the next key. The lemmas are the laws the
  services rely on: what a read returns after a write, and that keys stay unique and fresh.
\<close>

locale table =
  fixes rows :: "'d \<Rightarrow> 'r list"
    and upd :: "('r list \<Rightarrow> 'r list) \<Rightarrow> 'd \<Rightarrow> 'd"
    and pk :: "'r \<Rightarrow> int"
  assumes rows_upd [simp]: "rows (upd f d) = f (rows d)"
begin

definition get_row :: "int \<Rightarrow> 'd \<Rightarrow> 'r option" where
  "get_row k d = List.find (\<lambda>r. pk r = k) (rows d)"

definition put_row :: "int \<Rightarrow> ('r \<Rightarrow> 'r) \<Rightarrow> 'd \<Rightarrow> 'd" where
  "put_row k f d = upd (update_where (\<lambda>r. pk r = k) f) d"

lemma get_row_SomeD: "get_row k d = Some r \<Longrightarrow> r \<in> set (rows d) \<and> pk r = k"
  by (auto simp: get_row_def dest: find_SomeD)

lemma get_row_eq: "unique_on pk (rows d) \<Longrightarrow> r \<in> set (rows d) \<Longrightarrow> get_row (pk r) d = Some r"
  unfolding get_row_def by (rule find_unique [of pk]) auto

lemma rows_put_row: "rows (put_row k f d) = update_where (\<lambda>r. pk r = k) f (rows d)"
  by (simp add: put_row_def)

lemma get_put_row:
  assumes "\<And>r. pk (f r) = pk r"
  shows "get_row j (put_row k f d) = map_option (\<lambda>r. if pk r = k then f r else r) (get_row j d)"
  unfolding get_row_def rows_put_row using assms by (simp add: find_update_where_same)

lemma get_put_same:
  assumes "\<And>r. pk (f r) = pk r" and "get_row k d = Some r"
  shows "get_row k (put_row k f d) = Some (f r)"
  using assms get_row_SomeD by (simp add: get_put_row)

lemma get_put_other:
  assumes "\<And>r. pk (f r) = pk r" and "j \<noteq> k"
  shows "get_row j (put_row k f d) = get_row j d"
proof (cases "get_row j d")
  case (Some r)
  then have "pk r = j" by (simp add: get_row_SomeD)
  with Some assms show ?thesis by (simp add: get_put_row)
qed (simp add: get_put_row assms)

lemma unique_put_row:
  assumes "\<And>r. pk (f r) = pk r"
  shows "unique_on pk (rows (put_row k f d)) = unique_on pk (rows d)"
  using assms by (simp add: rows_put_row unique_on_update_where)

end

locale seq_table = table +
  fixes sequence :: "'a \<Rightarrow> int" and ins :: "'b \<Rightarrow> 'a \<Rightarrow> 'a"
  assumes sequence_upd [simp]: "sequence (upd f d) = sequence d"
    and rows_ins [simp]: "rows (ins r d) = rows d @ [r]"
    and sequence_ins [simp]: "sequence (ins r d) = sequence d + 1"
begin

definition keys_ok :: "'a \<Rightarrow> bool" where
  "keys_ok d \<longleftrightarrow> unique_on pk (rows d) \<and> (\<forall>r \<in> set (rows d). pk r < sequence d)"

lemma keys_ok_unique: "keys_ok d \<Longrightarrow> unique_on pk (rows d)"
  by (simp add: keys_ok_def)

lemma keys_ok_put_row:
  assumes "\<And>r. pk (f r) = pk r" and "keys_ok d"
  shows "keys_ok (put_row k f d)"
  using assms unfolding keys_ok_def
  by (auto simp: rows_put_row put_row_def unique_on_update_where elim!: in_update_whereE)

lemma keys_ok_ins:
  assumes "keys_ok d" and "pk r = sequence d"
  shows "keys_ok (ins r d)"
  using assms unfolding keys_ok_def by (fastforce simp: unique_on_snoc)

lemma get_row_next_None: "keys_ok d \<Longrightarrow> get_row (sequence d) d = None"
  by (auto simp: get_row_def find_None_conv keys_ok_def)

lemma get_row_ins_new:
  "keys_ok d \<Longrightarrow> pk r = sequence d \<Longrightarrow> get_row (pk r) (ins r d) = Some r"
  using get_row_next_None [of d] by (simp add: get_row_def find_append_None)

lemma get_row_ins_old: "get_row k d = Some s \<Longrightarrow> get_row k (ins r d) = Some s"
  by (simp add: get_row_def find_append_Some)

lemma keys_ok_delete:
  assumes "keys_ok d"
  shows "keys_ok (upd (delete_where p) d)"
  using assms unfolding keys_ok_def
  by (auto simp: unique_on_delete_where table_simps)

end

section \<open>Transactions\<close>

text \<open>
  A request works on one database session: reads and flushed writes see the working copy,
  \<open>commit\<close> makes it durable and \<open>rollback\<close> (also what closing an uncommitted session
  does) returns to the last committed copy.
\<close>

record 'd tx =
  committed :: 'd
  working :: 'd

definition tx_begin :: "'d \<Rightarrow> 'd tx" where
  "tx_begin d = \<lparr>committed = d, working = d\<rparr>"

definition tx_modify :: "('d \<Rightarrow> 'd) \<Rightarrow> 'd tx \<Rightarrow> 'd tx" where
  "tx_modify f t = t\<lparr>working := f (working t)\<rparr>"

definition tx_commit :: "'d tx \<Rightarrow> 'd tx" where
  "tx_commit t = t\<lparr>committed := working t\<rparr>"

definition tx_rollback :: "'d tx \<Rightarrow> 'd tx" where
  "tx_rollback t = t\<lparr>working := committed t\<rparr>"

lemma tx_begin_sel [simp, tx_simps]:
  "committed (tx_begin d) = d" "working (tx_begin d) = d"
  by (simp_all add: tx_begin_def)

lemma tx_modify_sel [simp, tx_simps]:
  "committed (tx_modify f t) = committed t" "working (tx_modify f t) = f (working t)"
  by (simp_all add: tx_modify_def)

lemma tx_commit_sel [simp, tx_simps]:
  "committed (tx_commit t) = working t" "working (tx_commit t) = working t"
  by (simp_all add: tx_commit_def)

lemma tx_rollback_sel [simp, tx_simps]:
  "committed (tx_rollback t) = committed t" "working (tx_rollback t) = committed t"
  by (simp_all add: tx_rollback_def)

section \<open>Datetimes\<close>

text \<open>
  A Python \<open>datetime\<close> is its wall-clock reading in microseconds since the epoch together
  with the UTC offset of its \<open>tzinfo\<close>, if it has one. Comparison and subtraction of
  aware datetimes go through the instant they denote; \<open>date()\<close> reads the wall clock. A
  date is its day number since the epoch.
\<close>

type_synonym date = int
type_synonym instant = int

record datetime =
  wall :: int
  tzinfo :: "int option"

abbreviation us_per_second :: int where "us_per_second \<equiv> 1000000"
abbreviation us_per_minute :: int where "us_per_minute \<equiv> 60000000"
abbreviation us_per_hour :: int where "us_per_hour \<equiv> 3600000000"
abbreviation us_per_day :: int where "us_per_day \<equiv> 86400000000"

definition instant :: "datetime \<Rightarrow> instant" where
  "instant dt = wall dt - (case tzinfo dt of None \<Rightarrow> 0 | Some off \<Rightarrow> off)"

definition is_aware :: "datetime \<Rightarrow> bool" where
  "is_aware dt \<longleftrightarrow> tzinfo dt \<noteq> None"

definition utc :: "instant \<Rightarrow> datetime" where
  "utc i = \<lparr>wall = i, tzinfo = Some 0\<rparr>"

definition astimezone_utc :: "datetime \<Rightarrow> datetime" where
  "astimezone_utc dt = utc (instant dt)"

definition date_of :: "datetime \<Rightarrow> date" where
  "date_of dt = wall dt div us_per_day"

text \<open>1970-01-01, day 0, was a Thursday; Monday is weekday 0.\<close>

definition weekday :: "date \<Rightarrow> int" where
  "weekday d = (d + 3) mod 7"

lemma instant_utc [simp]: "instant (utc i) = i"
  by (simp add: instant_def utc_def)

lemma is_aware_utc [simp]: "is_aware (utc i)"
  by (simp add: is_aware_def utc_def)

lemma date_of_utc [time_simps]: "date_of (utc i) = i div us_per_day"
  by (simp add: date_of_def utc_def)

lemma instant_astimezone_utc [simp]: "instant (astimezone_utc dt) = instant dt"
  by (simp add: astimezone_utc_def)

lemma weekday_range: "0 \<le> weekday d" "weekday d < 7"
  by (simp_all add: weekday_def)

end
