(* ===== verification/PyStr.thy ===== *)
theory PyStr
  imports Prelude
begin

text \<open>
  The part of Python's \<open>str\<close> library the program relies on: \<open>strip\<close>, \<open>lower\<close>,
  \<open>split\<close>, \<open>join\<close>, slicing, substring tests and the regular expression
  \<open>[a-z0-9']+\<close>. A \<open>str\<close> is a HOL \<^typ>\<open>string\<close> whose characters are the code
  points below 256 (Latin-1), so whitespace and case mapping are Python's on that range.
\<close>

section \<open>Characters\<close>

definition py_isspace :: "char \<Rightarrow> bool" where
  "py_isspace c \<longleftrightarrow> (let n = of_char c :: nat in
     (9 \<le> n \<and> n \<le> 13) \<or> (28 \<le> n \<and> n \<le> 32) \<or> n = 133 \<or> n = 160)"

definition lower_char :: "char \<Rightarrow> char" where
  "lower_char c = (let n = of_char c :: nat in
     if (65 \<le> n \<and> n \<le> 90) \<or> (192 \<le> n \<and> n \<le> 222 \<and> n \<noteq> 215)
     then char_of (n + 32) else c)"

definition is_ascii_digit :: "char \<Rightarrow> bool" where
  "is_ascii_digit c \<longleftrightarrow> (let n = of_char c :: nat in 48 \<le> n \<and> n \<le> 57)"

definition is_ascii_lower :: "char \<Rightarrow> bool" where
  "is_ascii_lower c \<longleftrightarrow> (let n = of_char c :: nat in 97 \<le> n \<and> n \<le> 122)"

lemma of_char_lower_char:
  "(of_char (lower_char c) :: nat) =
     (let n = of_char c in
      if (65 \<le> n \<and> n \<le> 90) \<or> (192 \<le> n \<and> n \<le> 222 \<and> n \<noteq> 215) then n + 32 else n)"
  by (auto simp: lower_char_def Let_def)

lemma lower_char_idem [simp]: "lower_char (lower_char c) = lower_char c"
proof -
  have "(of_char (lower_char (lower_char c)) :: nat) = of_char (lower_char c)"
    by (auto simp: of_char_lower_char Let_def)
  then show ?thesis using of_char_eq_iff by blast
qed

lemma py_isspace_lower_char [simp]: "py_isspace (lower_char c) = py_isspace c"
  by (auto simp: py_isspace_def of_char_lower_char Let_def)

section \<open>strip, lower, slicing\<close>

definition py_lstrip :: "string \<Rightarrow> string" where
  "py_lstrip s = dropWhile py_isspace s"

definition py_rstrip :: "string \<Rightarrow> string" where
  "py_rstrip s = rev (dropWhile py_isspace (rev s))"

definition py_strip :: "string \<Rightarrow> string" where
  "py_strip s = py_rstrip (py_lstrip s)"

definition py_lower :: "string \<Rightarrow> string" where
  "py_lower s = map lower_char s"

text \<open>\<open>s[-n:]\<close> for \<open>n > 0\<close>.\<close>

definition last_n :: "nat \<Rightarrow> 'a list \<Rightarrow> 'a list" where
  "last_n n xs = drop (length xs - n) xs"

lemma length_last_n [simp]: "length (last_n n xs) = min n (length xs)"
  by (simp add: last_n_def)

lemma suffix_last_n: "suffix (last_n n xs) xs"
  by (simp add: last_n_def suffix_drop)

lemma last_n_all: "length xs \<le> n \<Longrightarrow> last_n n xs = xs"
  by (simp add: last_n_def)

lemma last_n_Nil [simp]: "last_n n [] = []"
  by (simp add: last_n_def)

lemma py_lower_idem [simp]: "py_lower (py_lower s) = py_lower s"
  by (simp add: py_lower_def)

lemma py_lower_Nil [simp]: "py_lower [] = []"
  by (simp add: py_lower_def)

lemma length_py_lower [simp]: "length (py_lower s) = length s"
  by (simp add: py_lower_def)

lemma py_strip_Nil [simp]: "py_strip [] = []"
  by (simp add: py_strip_def py_lstrip_def py_rstrip_def)

lemma py_lstrip_Cons: "py_lstrip s = c # cs \<Longrightarrow> \<not> py_isspace c"
  by (metis hd_dropWhile list.distinct(1) list.sel(1) py_lstrip_def)

lemma py_lstrip_id: "s = [] \<or> \<not> py_isspace (hd s) \<Longrightarrow> py_lstrip s = s"
  by (cases s) (auto simp: py_lstrip_def)

lemma py_rstrip_id: "s = [] \<or> \<not> py_isspace (last s) \<Longrightarrow> py_rstrip s = s"
  by (cases s rule: rev_cases) (auto simp: py_rstrip_def)

lemma last_py_rstrip: "py_rstrip s \<noteq> [] \<Longrightarrow> \<not> py_isspace (last (py_rstrip s))"
  by (metis hd_dropWhile last_rev py_rstrip_def rev_is_Nil_conv)

lemma hd_py_rstrip: "py_rstrip s \<noteq> [] \<Longrightarrow> hd (py_rstrip s) = hd s"
proof -
  assume ne: "py_rstrip s \<noteq> []"
  have "s = py_rstrip s @ rev (takeWhile py_isspace (rev s))"
    by (metis py_rstrip_def rev_append rev_rev_ident takeWhile_dropWhile_id)
  then show ?thesis using ne by (metis hd_append2)
qed

lemma py_strip_idem [simp]: "py_strip (py_strip s) = py_strip s"
proof -
  let ?t = "py_strip s"
  have "?t = [] \<or> \<not> py_isspace (hd ?t)"
    by (metis hd_dropWhile hd_py_rstrip py_lstrip_def py_rstrip_def py_strip_def
        dropWhile.simps(1) rev.simps(1))
  moreover have "?t = [] \<or> \<not> py_isspace (last ?t)"
    by (metis last_py_rstrip py_strip_def)
  ultimately show ?thesis
    by (metis py_lstrip_id py_rstrip_id py_strip_def)
qed

lemma py_strip_py_lower: "py_strip (py_lower s) = py_lower (py_strip s)"
proof -
  have l: "py_lstrip (py_lower t) = py_lower (py_lstrip t)" for t
    by (simp add: py_lstrip_def py_lower_def dropWhile_map comp_def)
  have r: "py_rstrip (py_lower t) = py_lower (py_rstrip t)" for t
    by (simp add: py_rstrip_def py_lower_def rev_map dropWhile_map comp_def)
  show ?thesis by (simp add: py_strip_def l r)
qed

section \<open>split and join\<close>

text \<open>\<open>s.split()\<close>: the maximal runs of non-whitespace characters.\<close>

function py_split :: "string \<Rightarrow> string list" where
  "py_split s = (case py_lstrip s of [] \<Rightarrow> []
     | c # cs \<Rightarrow> takeWhile (\<lambda>x. \<not> py_isspace x) (c # cs)
         # py_split (dropWhile (\<lambda>x. \<not> py_isspace x) (c # cs)))"
  by pat_completeness auto
termination
proof (relation "measure length")
  show "wf (measure (length :: string \<Rightarrow> nat))" by simp
next
  fix s c cs
  assume a: "py_lstrip s = c # cs"
  have "length (dropWhile (\<lambda>x. \<not> py_isspace x) (c # cs)) \<le> length cs"
    using py_lstrip_Cons [OF a] length_dropWhile_le by simp
  also have "length cs < length s"
    using a length_dropWhile_le [of py_isspace s] by (simp add: py_lstrip_def)
  finally show "(dropWhile (\<lambda>x. \<not> py_isspace x) (c # cs), s) \<in> measure length" by simp
qed

declare py_split.simps [simp del]

text \<open>\<open>sep.join(xs)\<close>.\<close>

fun py_join :: "string \<Rightarrow> string list \<Rightarrow> string" where
  "py_join sep [] = []"
| "py_join sep [x] = x"
| "py_join sep (x # y # ys) = x @ sep @ py_join sep (y # ys)"

text \<open>\<open>s.split(c)\<close> for a one-character separator: always at least one part.\<close>

fun split_char :: "char \<Rightarrow> string \<Rightarrow> string list" where
  "split_char c [] = [[]]"
| "split_char c (x # xs) =
     (if x = c then [] # split_char c xs
      else (case split_char c xs of p # ps \<Rightarrow> (x # p) # ps | [] \<Rightarrow> [[x]]))"

lemma split_char_not_Nil [simp]: "split_char c s \<noteq> []"
  by (cases s) (auto split: list.splits)

text \<open>\<open>x in y\<close> for strings.\<close>

definition py_in :: "string \<Rightarrow> string \<Rightarrow> bool" where
  "py_in x y \<longleftrightarrow> sublist x y"

text \<open>The decimal rendering of a number, as \<open>str\<close> and f-strings give it.\<close>

fun show_nat :: "nat \<Rightarrow> string" where
  "show_nat n = (if n < 10 then [char_of (n + 48)] else show_nat (n div 10) @ [char_of (n mod 10 + 48)])"

declare show_nat.simps [simp del]

definition py_str_int :: "int \<Rightarrow> string" where
  "py_str_int i = (if i < 0 then CHR ''-'' # show_nat (nat (- i)) else show_nat (nat i))"

lemma show_nat_not_Nil [simp]: "show_nat n \<noteq> []" "[] \<noteq> show_nat n"
  by (subst show_nat.simps, simp)+

lemma char_of_digit_eq:
  "m < 10 \<Longrightarrow> n < 10 \<Longrightarrow> (char_of (m + 48) :: char) = char_of (n + 48) \<longleftrightarrow> m = (n :: nat)"
  by (auto simp: char_of_eq_iff take_bit_eq_mod)

lemma show_nat_inject: "show_nat m = show_nat n \<Longrightarrow> m = n"
proof (induction m arbitrary: n rule: show_nat.induct)
  case (1 m)
  show ?case
  proof (cases "m < 10")
    case True
    with 1(2) show ?thesis
      using show_nat.simps [of m] show_nat.simps [of n]
      by (cases "n < 10") (auto simp: char_of_digit_eq)
  next
    case False
    then have n: "\<not> n < 10"
      using 1(2) show_nat.simps [of m] show_nat.simps [of n] by auto
    have eq: "show_nat (m div 10) @ [char_of (m mod 10 + 48)]
        = show_nat (n div 10) @ [char_of (n mod 10 + 48)]"
      using 1(2) False n show_nat.simps [of m] show_nat.simps [of n] by simp
    then have "m div 10 = n div 10" "m mod 10 = n mod 10"
      using 1(1) [OF False, of "n div 10"] char_of_digit_eq [of "m mod 10" "n mod 10"] by auto
    then show ?thesis by (metis div_mult_mod_eq)
  qed
qed

text \<open>\<open>int(s)\<close>: surrounding whitespace, a sign, decimal digits with single underscores between
  them; anything else is a \<open>ValueError\<close>, here None.\<close>

fun parse_digits :: "bool \<Rightarrow> nat \<Rightarrow> string \<Rightarrow> nat option" where
  "parse_digits after_digit acc [] = (if after_digit then Some acc else None)"
| "parse_digits after_digit acc (c # cs) =
     (if is_ascii_digit c then parse_digits True (acc * 10 + (of_char c - 48)) cs
      else if c = CHR ''_'' \<and> after_digit then parse_digits False acc cs
      else None)"

definition py_int_of_str :: "string \<Rightarrow> int option" where
  "py_int_of_str s = (case py_strip s of [] \<Rightarrow> None
     | c # cs \<Rightarrow> if c = CHR ''-'' then map_option (\<lambda>n. - int n) (parse_digits False 0 cs)
         else if c = CHR ''+'' then map_option int (parse_digits False 0 cs)
         else map_option int (parse_digits False 0 (c # cs)))"

lemma of_char_digit: "n < 10 \<Longrightarrow> (of_char (char_of (n + 48) :: char) :: nat) = n + 48"
  by simp

lemma is_ascii_digit_char_of: "n < 10 \<Longrightarrow> is_ascii_digit (char_of (n + 48 :: nat))"
  by (simp add: is_ascii_digit_def Let_def of_char_digit)

lemma show_nat_digits: "c \<in> set (show_nat n) \<Longrightarrow> is_ascii_digit c"
proof (induction n rule: show_nat.induct)
  case (1 n)
  show ?case
  proof (cases "n < 10")
    case True
    then show ?thesis using 1(2) by (simp add: show_nat.simps [of n] is_ascii_digit_char_of)
  next
    case False
    then show ?thesis using 1 by (auto simp: show_nat.simps [of n] is_ascii_digit_char_of)
  qed
qed

lemma parse_digits_snoc:
  assumes "\<forall>c \<in> set s. is_ascii_digit c" "m < 10" "parse_digits b acc s = Some n"
  shows "parse_digits b acc (s @ [char_of (m + 48)]) = Some (n * 10 + m)"
  using assms
proof (induction s arbitrary: b acc)
  case Nil
  then show ?case by (simp add: is_ascii_digit_char_of of_char_digit split: if_splits)
next
  case (Cons c s)
  then show ?case using Cons.IH [of True "acc * 10 + (of_char c - 48)"] by simp
qed

lemma parse_show_nat: "parse_digits False 0 (show_nat n) = Some n"
proof (induction n rule: show_nat.induct)
  case (1 n)
  show ?case
  proof (cases "n < 10")
    case True
    then show ?thesis by (simp add: show_nat.simps [of n] is_ascii_digit_char_of of_char_digit)
  next
    case False
    have "parse_digits False 0 (show_nat (n div 10) @ [char_of (n mod 10 + 48)])
        = Some (n div 10 * 10 + n mod 10)"
      using 1 [OF False] by (intro parse_digits_snoc) (auto simp: show_nat_digits)
    then show ?thesis using False by (simp add: show_nat.simps [of n])
  qed
qed

lemma digit_not_space: "is_ascii_digit c \<Longrightarrow> \<not> py_isspace c"
  by (auto simp: is_ascii_digit_def py_isspace_def Let_def)

lemma py_strip_no_space: "\<forall>c \<in> set s. \<not> py_isspace c \<Longrightarrow> py_strip s = s"
proof -
  assume a: "\<forall>c \<in> set s. \<not> py_isspace c"
  then have "s = [] \<or> \<not> py_isspace (hd s)" "s = [] \<or> \<not> py_isspace (last s)" by auto
  then show ?thesis by (simp add: py_strip_def py_lstrip_id py_rstrip_id)
qed

lemma py_int_of_str_round_trip [simp]: "py_int_of_str (py_str_int i) = Some i"
proof -
  have sp: "\<not> py_isspace (CHR ''-'')" by (simp add: py_isspace_def)
  have strip: "py_strip (py_str_int i) = py_str_int i"
    by (rule py_strip_no_space) (auto simp: py_str_int_def sp dest!: show_nat_digits digit_not_space split: if_splits)
  show ?thesis
  proof (cases "i < 0")
    case True
    then show ?thesis using strip parse_show_nat [of "nat (- i)"]
      by (simp add: py_int_of_str_def py_str_int_def)
  next
    case False
    obtain c cs where cc: "show_nat (nat i) = c # cs" by (cases "show_nat (nat i)") auto
    then have "is_ascii_digit c" using show_nat_digits [of c "nat i"] by simp
    then have "c \<noteq> CHR ''-'' \<and> c \<noteq> CHR ''+''" by (auto simp: is_ascii_digit_def)
    then show ?thesis using strip False parse_show_nat [of "nat i"] cc
      by (simp add: py_int_of_str_def py_str_int_def)
  qed
qed

section \<open>The word pattern\<close>

text \<open>
  \<open>re.compile(r"[a-z0-9']+")\<close>: \<open>findall\<close> gives the maximal runs of such characters,
  and joining them keeps exactly those characters.
\<close>

definition word_char :: "char \<Rightarrow> bool" where
  "word_char c \<longleftrightarrow> is_ascii_lower c \<or> is_ascii_digit c \<or> c = CHR 0x27"

function word_findall :: "string \<Rightarrow> string list" where
  "word_findall s = (case dropWhile (\<lambda>c. \<not> word_char c) s of [] \<Rightarrow> []
     | c # cs \<Rightarrow> takeWhile word_char (c # cs) # word_findall (dropWhile word_char (c # cs)))"
  by pat_completeness auto
termination
proof (relation "measure length")
  show "wf (measure (length :: string \<Rightarrow> nat))" by simp
next
  fix s c cs
  assume a: "dropWhile (\<lambda>c. \<not> word_char c) s = c # cs"
  then have "word_char c" by (metis dropWhile_eq_Cons_conv)
  then have "length (dropWhile word_char (c # cs)) \<le> length cs"
    using length_dropWhile_le by simp
  also have "length cs < length s"
    using a length_dropWhile_le [of "\<lambda>c. \<not> word_char c" s] by simp
  finally show "(dropWhile word_char (c # cs), s) \<in> measure length" by simp
qed

declare word_findall.simps [simp del]

lemma word_findall_concat: "concat (word_findall s) = filter word_char s"
proof (induction s rule: word_findall.induct)
  case (1 s)
  show ?case
  proof (cases "dropWhile (\<lambda>c. \<not> word_char c) s")
    case Nil
    then have "filter word_char s = []"
      by (auto simp: dropWhile_eq_Nil_conv filter_empty_conv)
    then show ?thesis by (subst word_findall.simps) (simp add: Nil)
  next
    case (Cons c cs)
    have "filter word_char s = filter word_char (c # cs)"
      by (metis Cons filter_False append_Nil filter_append set_takeWhileD takeWhile_dropWhile_id)
    also have "\<dots> = takeWhile word_char (c # cs) @ filter word_char (dropWhile word_char (c # cs))"
      by (metis filter_True filter_append set_takeWhileD takeWhile_dropWhile_id)
    finally show ?thesis
      using 1 [OF Cons] Cons by (simp add: word_findall.simps [of s])
  qed
qed

end
