(* ===== verification/Errors.thy ===== *)
theory Errors
  imports PyStr
begin

text \<open>
  The domain exceptions (\<^verbatim>\<open>app/domain/exceptions.py\<close>) and their central mapping to HTTP
  responses (\<^verbatim>\<open>app/api/errors.py\<close>). Every service of the development reports a failure as a
  value of type \<open>error\<close>; the class hierarchy is the relation \<open>base_class\<close> and the
  dispatch of a handler walks the method resolution order, as the source's own comment on the
  registration describes.
\<close>

section \<open>The exception classes\<close>

datatype exc_class =
    DomainError
  | NotFoundError
  | ConflictError
  | EmailAlreadyExistsError
  | InvalidCredentialsError
  | AuthenticationError
  | AuthorizationError
  | QuotaExhaustedError
  | ActiveSessionExistsError
  | InvalidRefreshTokenError
  | RateLimitedError
  | ValidationError
  | PayloadTooLargeError
  | DebriefAnalysisError
  | LlmProviderError
  | MissionCompileError

text \<open>The class each class inherits from; \<open>None\<close> is Python's own \<open>Exception\<close>.\<close>

fun base_class :: "exc_class \<Rightarrow> exc_class option" where
  "base_class DomainError = None"
| "base_class EmailAlreadyExistsError = Some ConflictError"
| "base_class ActiveSessionExistsError = Some ConflictError"
| "base_class InvalidRefreshTokenError = Some AuthenticationError"
| "base_class MissionCompileError = Some LlmProviderError"
| "base_class c = Some DomainError"

text \<open>The distance to \<open>DomainError\<close>: the hierarchy has no cycle.\<close>

fun class_depth :: "exc_class \<Rightarrow> nat" where
  "class_depth DomainError = 0"
| "class_depth EmailAlreadyExistsError = 2"
| "class_depth ActiveSessionExistsError = 2"
| "class_depth InvalidRefreshTokenError = 2"
| "class_depth MissionCompileError = 2"
| "class_depth c = 1"

function mro :: "exc_class \<Rightarrow> exc_class list" where
  "mro c = c # (case base_class c of None \<Rightarrow> [] | Some b \<Rightarrow> mro b)"
  by pat_completeness auto
termination
proof (relation "measure class_depth")
  show "wf (measure class_depth)" by simp
next
  fix c b
  assume "base_class c = Some b"
  then show "(b, c) \<in> measure class_depth" by (cases c) auto
qed

declare mro.simps [simp del]

lemma mro_eqs [simp]:
  "mro DomainError = [DomainError]"
  "mro NotFoundError = [NotFoundError, DomainError]"
  "mro ConflictError = [ConflictError, DomainError]"
  "mro EmailAlreadyExistsError = [EmailAlreadyExistsError, ConflictError, DomainError]"
  "mro InvalidCredentialsError = [InvalidCredentialsError, DomainError]"
  "mro AuthenticationError = [AuthenticationError, DomainError]"
  "mro AuthorizationError = [AuthorizationError, DomainError]"
  "mro QuotaExhaustedError = [QuotaExhaustedError, DomainError]"
  "mro ActiveSessionExistsError = [ActiveSessionExistsError, ConflictError, DomainError]"
  "mro InvalidRefreshTokenError = [InvalidRefreshTokenError, AuthenticationError, DomainError]"
  "mro RateLimitedError = [RateLimitedError, DomainError]"
  "mro ValidationError = [ValidationError, DomainError]"
  "mro PayloadTooLargeError = [PayloadTooLargeError, DomainError]"
  "mro DebriefAnalysisError = [DebriefAnalysisError, DomainError]"
  "mro LlmProviderError = [LlmProviderError, DomainError]"
  "mro MissionCompileError = [MissionCompileError, LlmProviderError, DomainError]"
  by (simp_all add: mro.simps)

definition isinstance :: "exc_class \<Rightarrow> exc_class \<Rightarrow> bool" where
  "isinstance c d \<longleftrightarrow> d \<in> set (mro c)"

text \<open>
  A raised exception: a domain error with its class and message; SQLAlchemy's \<open>DataError\<close> and
  \<open>IntegrityError\<close> (with the driver's text); an \<open>HTTPException\<close> with its status,
  detail and headers; a request validation error with its failing fields; or any other exception (a
  lost connection, a \<open>ValueError\<close>, a provider's own error), named by its class.
\<close>

datatype error =
    DomainErr exc_class string
  | DataErr string
  | IntegrityErr string
  | HttpErr nat string "(string \<times> string) list"
  | RequestValidationErr "(string list \<times> string) list"
  | OtherErr string

section \<open>The mapping to HTTP responses\<close>

definition STATUS_BY_EXCEPTION :: "(exc_class \<times> nat) list" where
  "STATUS_BY_EXCEPTION =
    [(AuthenticationError, 401), (InvalidCredentialsError, 401), (AuthorizationError, 403),
     (NotFoundError, 404), (QuotaExhaustedError, 402), (RateLimitedError, 429),
     (ValidationError, 422), (PayloadTooLargeError, 413), (ConflictError, 409),
     (DebriefAnalysisError, 502), (LlmProviderError, 502), (DomainError, 400)]"

record response =
  status_code :: nat
  err_code :: string
  err_message :: string
  headers :: "(string \<times> string) list"
  server_logged :: bool

definition error_response :: "nat \<Rightarrow> string \<Rightarrow> string \<Rightarrow> (string \<times> string) list \<Rightarrow> response" where
  "error_response st code msg hs =
     \<lparr>status_code = st, err_code = code, err_message = msg, headers = hs, server_logged = False\<rparr>"

text \<open>\<open>exc.__class__.__name__\<close>.\<close>

fun class_name :: "exc_class \<Rightarrow> string" where
  "class_name DomainError = ''DomainError''"
| "class_name NotFoundError = ''NotFoundError''"
| "class_name ConflictError = ''ConflictError''"
| "class_name EmailAlreadyExistsError = ''EmailAlreadyExistsError''"
| "class_name InvalidCredentialsError = ''InvalidCredentialsError''"
| "class_name AuthenticationError = ''AuthenticationError''"
| "class_name AuthorizationError = ''AuthorizationError''"
| "class_name QuotaExhaustedError = ''QuotaExhaustedError''"
| "class_name ActiveSessionExistsError = ''ActiveSessionExistsError''"
| "class_name InvalidRefreshTokenError = ''InvalidRefreshTokenError''"
| "class_name RateLimitedError = ''RateLimitedError''"
| "class_name ValidationError = ''ValidationError''"
| "class_name PayloadTooLargeError = ''PayloadTooLargeError''"
| "class_name DebriefAnalysisError = ''DebriefAnalysisError''"
| "class_name LlmProviderError = ''LlmProviderError''"
| "class_name MissionCompileError = ''MissionCompileError''"

definition make_handler :: "nat \<Rightarrow> exc_class \<Rightarrow> string \<Rightarrow> response" where
  "make_handler http_status c msg =
     (let hs = (if http_status = 401 then [(''WWW-Authenticate'', ''Bearer'')]
                else if http_status = 429 then [(''Retry-After'', ''60'')] else [])
      in (error_response http_status (class_name c) msg hs)\<lparr>server_logged := http_status \<ge> 500\<rparr>)"

definition unhandled_exception_handler :: "string \<Rightarrow> response" where
  "unhandled_exception_handler request_id =
     (error_response 500 ''InternalServerError'' ''Internal server error''
        [(''X-Request-ID'', request_id)])\<lparr>server_logged := True\<rparr>"

definition data_error_handler :: response where
  "data_error_handler =
     (error_response 422 ''DataError'' ''Invalid input'' [])\<lparr>server_logged := True\<rparr>"

definition integrity_error_handler :: response where
  "integrity_error_handler =
     (error_response 409 ''IntegrityError'' ''Conflicting data'' [])\<lparr>server_logged := True\<rparr>"

text \<open>The phrases of Python's \<open>http.HTTPStatus\<close>, spaces removed; a number outside the
  enumeration raises the \<open>ValueError\<close> the handler catches.\<close>

definition HTTP_PHRASES :: "(nat \<times> string) list" where
  "HTTP_PHRASES =
    [(100, ''Continue''), (101, ''SwitchingProtocols''), (102, ''Processing''),
     (103, ''EarlyHints''), (200, ''OK''), (201, ''Created''), (202, ''Accepted''),
     (203, ''Non-AuthoritativeInformation''), (204, ''NoContent''), (205, ''ResetContent''),
     (206, ''PartialContent''), (207, ''Multi-Status''), (208, ''AlreadyReported''),
     (226, ''IMUsed''), (300, ''MultipleChoices''), (301, ''MovedPermanently''), (302, ''Found''),
     (303, ''SeeOther''), (304, ''NotModified''), (305, ''UseProxy''), (307, ''TemporaryRedirect''),
     (308, ''PermanentRedirect''), (400, ''BadRequest''), (401, ''Unauthorized''),
     (402, ''PaymentRequired''), (403, ''Forbidden''), (404, ''NotFound''),
     (405, ''MethodNotAllowed''), (406, ''NotAcceptable''),
     (407, ''ProxyAuthenticationRequired''), (408, ''RequestTimeout''), (409, ''Conflict''),
     (410, ''Gone''), (411, ''LengthRequired''), (412, ''PreconditionFailed''),
     (413, ''RequestEntityTooLarge''), (414, ''Request-URITooLong''),
     (415, ''UnsupportedMediaType''), (416, ''RequestedRangeNotSatisfiable''),
     (417, ''ExpectationFailed''), (418, ''I'maTeapot''), (421, ''MisdirectedRequest''),
     (422, ''UnprocessableEntity''), (423, ''Locked''), (424, ''FailedDependency''),
     (425, ''TooEarly''), (426, ''UpgradeRequired''), (428, ''PreconditionRequired''),
     (429, ''TooManyRequests''), (431, ''RequestHeaderFieldsTooLarge''),
     (451, ''UnavailableForLegalReasons''), (500, ''InternalServerError''),
     (501, ''NotImplemented''), (502, ''BadGateway''), (503, ''ServiceUnavailable''),
     (504, ''GatewayTimeout''), (505, ''HTTPVersionNotSupported''),
     (506, ''VariantAlsoNegotiates''), (507, ''InsufficientStorage''), (508, ''LoopDetected''),
     (510, ''NotExtended''), (511, ''NetworkAuthenticationRequired'')]"

definition http_exception_handler :: "nat \<Rightarrow> string \<Rightarrow> (string \<times> string) list \<Rightarrow> response" where
  "http_exception_handler st detail hs =
     (let code = (case map_of HTTP_PHRASES st of Some ph \<Rightarrow> ph | None \<Rightarrow> ''HTTPException'')
      in error_response st code detail hs)"

definition validation_field_message :: "string list \<Rightarrow> string \<Rightarrow> string" where
  "validation_field_message loc msg =
     (let location = py_join ''.'' (filter (\<lambda>part. part \<noteq> ''body'') loc)
      in if location \<noteq> [] then location @ '': '' @ msg else msg)"

definition validation_error_handler :: "(string list \<times> string) list \<Rightarrow> response" where
  "validation_error_handler errs =
     error_response 422 ''ValidationError''
       (py_join ''; '' (map (\<lambda>(loc, msg). validation_field_message loc msg) errs)) []"

text \<open>The handler registered for the first class of the exception's resolution order.\<close>

definition handler_status :: "exc_class \<Rightarrow> nat option" where
  "handler_status c =
     (case List.find (\<lambda>d. map_of STATUS_BY_EXCEPTION d \<noteq> None) (mro c) of
        None \<Rightarrow> None | Some d \<Rightarrow> map_of STATUS_BY_EXCEPTION d)"

definition respond :: "string \<Rightarrow> error \<Rightarrow> response" where
  "respond request_id e = (case e of
      DomainErr c msg \<Rightarrow>
        (case handler_status c of Some st \<Rightarrow> make_handler st c msg
         | None \<Rightarrow> unhandled_exception_handler request_id)
    | DataErr _ \<Rightarrow> data_error_handler
    | IntegrityErr _ \<Rightarrow> integrity_error_handler
    | HttpErr st detail hs \<Rightarrow> http_exception_handler st detail hs
    | RequestValidationErr errs \<Rightarrow> validation_error_handler errs
    | OtherErr _ \<Rightarrow> unhandled_exception_handler request_id)"

text \<open>The reading the comment of the table suggests: the first entry, top to bottom, that the
  exception is an instance of.\<close>

definition first_entry_status :: "exc_class \<Rightarrow> nat option" where
  "first_entry_status c =
     map_option snd (List.find (\<lambda>(d, _). isinstance c d) STATUS_BY_EXCEPTION)"

section \<open>Every domain error has its own response\<close>

lemmas status_defs = handler_status_def first_entry_status_def STATUS_BY_EXCEPTION_def isinstance_def

lemma handler_status_total: "\<exists>st. handler_status c = Some st"
  by (cases c) (simp_all add: status_defs)

text \<open>The handler that Starlette picks for a domain exception by walking the exception's method
  resolution order is the first entry of the ordered table that the exception is an instance of: the
  order of the table ("most specific first") and the dispatch agree for every class, so no base class
  entry shadows a more specific one.\<close>

theorem mro_dispatch_is_first_entry: "handler_status c = first_entry_status c"
  by (cases c) (simp_all add: status_defs)

text \<open>No domain exception ever reaches the client as an unhandled 500: it is answered with its own
  class name and message, with a status of the table, the challenge header \<open>WWW-Authenticate\<close>
  exactly on a 401, \<open>Retry-After\<close> exactly on a 429, and it is logged on the server exactly when
  the status is a 5xx.\<close>

theorem domain_error_response:
  "\<exists>st. st \<in> snd ` set STATUS_BY_EXCEPTION \<and>
     (let r = respond rid (DomainErr c msg) in
       status_code r = st \<and> err_code r = class_name c \<and> err_message r = msg
     \<and> ((''WWW-Authenticate'', ''Bearer'') \<in> set (headers r) \<longleftrightarrow> st = 401)
     \<and> ((''Retry-After'', ''60'') \<in> set (headers r) \<longleftrightarrow> st = 429)
     \<and> (server_logged r \<longleftrightarrow> 500 \<le> st) \<and> st \<noteq> 500)"
  by (cases c)
    (simp_all add: respond_def make_handler_def error_response_def status_defs Let_def)

text \<open>Subclasses answer like their parents where the client is concerned.\<close>

lemma conflict_status:
  "isinstance c ConflictError \<Longrightarrow> status_code (respond rid (DomainErr c msg)) = 409"
  by (cases c)
    (simp_all add: respond_def make_handler_def error_response_def status_defs)

text \<open>The driver's text, which may quote a learner's data, never reaches the client.\<close>

lemma db_error_hides_detail:
  "respond rid (DataErr k) = respond rid (DataErr k')"
  "respond rid (IntegrityErr k) = respond rid (IntegrityErr k')"
  "respond rid (OtherErr k) = respond rid (OtherErr k')"
  by (simp_all add: respond_def)

lemma unexpected_error_is_500: "status_code (respond rid (OtherErr k)) = 500"
  by (simp add: respond_def unhandled_exception_handler_def error_response_def)

end
