(* ===== verification/Store.thy ===== *)
theory Store
  imports Errors
begin

text \<open>
  The persistent data of the backend: one record per SQLAlchemy model and the database as the
  record of its tables. A table is the list of its rows in insertion order next to the sequence
  that hands out its primary keys, which never reuses a value. Columns no code of the backend reads
  (\<open>created_at\<close> of users, tokens, transcripts, debriefs, missions and vocabulary, and the
  \<open>updated_at\<close> stamps) are left out. Timestamp columns hold the instant in microseconds, and a
  full datetime where the code looks at the value's \<open>tzinfo\<close>.
\<close>

section \<open>Accounts\<close>

abbreviation TIER_FREE :: string where "TIER_FREE \<equiv> ''free''"
abbreviation TIER_PREMIUM :: string where "TIER_PREMIUM \<equiv> ''premium''"

definition DEFAULT_WEEKLY_GOAL_MINUTES :: int where
  "DEFAULT_WEEKLY_GOAL_MINUTES = 30"

record user =
  u_id :: int
  u_email :: string
  u_hashed_password :: string
  u_native_language :: string
  u_cefr_level :: string
  u_tier :: string
  u_is_admin :: bool
  u_is_active :: bool
  u_quota_date :: "date option"
  u_minutes_used_today :: real
  u_current_streak :: int
  u_longest_streak :: int
  u_last_active_date :: "date option"
  u_weekly_goal_minutes :: int
  u_reset_token_hash :: "string option"
  u_reset_token_expires_at :: "instant option"

text \<open>A \<open>User(email=, hashed_password=, native_language=)\<close> with the column defaults.\<close>

definition new_user :: "int \<Rightarrow> string \<Rightarrow> string \<Rightarrow> string \<Rightarrow> user" where
  "new_user uid email hashed lang =
     \<lparr>u_id = uid, u_email = email, u_hashed_password = hashed, u_native_language = lang,
      u_cefr_level = ''A1'', u_tier = TIER_FREE, u_is_admin = False, u_is_active = True,
      u_quota_date = None, u_minutes_used_today = 0, u_current_streak = 0, u_longest_streak = 0,
      u_last_active_date = None, u_weekly_goal_minutes = DEFAULT_WEEKLY_GOAL_MINUTES,
      u_reset_token_hash = None, u_reset_token_expires_at = None\<rparr>"

record refresh_token =
  rt_id :: int
  rt_user_id :: int
  rt_token_hash :: string
  rt_expires_at :: datetime
  rt_revoked_at :: "datetime option"

section \<open>Sessions, transcripts, debriefs\<close>

record conv_session =
  cs_id :: int
  cs_user_id :: int
  cs_mode :: string
  cs_scenario_id :: "string option"
  cs_mission_id :: "int option"
  cs_voice_engine :: string
  cs_started_at :: instant
  cs_last_activity_at :: datetime
  cs_ended_at :: "instant option"
  cs_duration_minutes :: "real option"

abbreviation ROLE_USER :: string where "ROLE_USER \<equiv> ''user''"
abbreviation ROLE_ASSISTANT :: string where "ROLE_ASSISTANT \<equiv> ''assistant''"

record message =
  m_role :: string
  m_content :: string

record transcript =
  tr_session_id :: int
  tr_turns :: "message list"

record debrief_error =
  de_original :: string
  de_correction :: string
  de_rule :: string
  de_error_type :: string
  de_explanation :: string
  de_examples :: "string list"
  de_alternatives :: "string list"

record debrief_row =
  db_session_id :: int
  db_cefr_estimate :: string
  db_summary :: string
  db_errors :: "debrief_error list"

section \<open>Learning state\<close>

abbreviation STATUS_REVIEW :: string where "STATUS_REVIEW \<equiv> ''review''"
abbreviation STATUS_KNOWN :: string where "STATUS_KNOWN \<equiv> ''known''"
abbreviation STATUS_DUE :: string where "STATUS_DUE \<equiv> ''due''"
abbreviation STATUS_MASTERED :: string where "STATUS_MASTERED \<equiv> ''mastered''"

record vocabulary_entry =
  v_id :: int
  v_user_id :: int
  v_session_id :: "int option"
  v_word :: string
  v_phonetic :: string
  v_translation :: string
  v_example :: string
  v_status :: string

record review_item =
  ri_id :: int
  ri_user_id :: int
  ri_error_type :: string
  ri_latest_correction :: string
  ri_stage :: int
  ri_clean_streak :: int
  ri_status :: string
  ri_next_review_at :: "instant option"

record mission =
  ms_id :: int
  ms_user_id :: int
  ms_source_type :: string
  ms_persona :: string
  ms_goal :: string
  ms_likely_questions :: "string list"
  ms_system_prompt :: string

text \<open>The interests are a JSON column: \<open>None\<close> is a stored JSON \<open>null\<close>, which the column's
  \<open>NOT NULL\<close> lets pass.\<close>

record learner_profile =
  lp_user_id :: int
  lp_interests :: "string list option"
  lp_goal :: "string option"
  lp_memory_summary :: string
  lp_correction_intensity :: string
  lp_accent :: string

record voice_consent =
  vc_user_id :: int
  vc_transcription :: bool
  vc_scoring :: bool
  vc_b2b_share :: bool
  vc_model_training :: bool

section \<open>Bookkeeping\<close>

record idempotency_key =
  ik_user_id :: int
  ik_key :: string
  ik_response :: "string option"
  ik_created_at :: instant

text \<open>The structured properties of the emitted events.\<close>

datatype event_props =
    NoProps
  | CompletionProps int string nat
  | SkillProps string

record analytics_event =
  ae_name :: string
  ae_user_id :: int
  ae_properties :: event_props
  ae_created_at :: instant

section \<open>The database\<close>

record db =
  users :: "user list"
  seq_users :: int
  refresh_tokens :: "refresh_token list"
  seq_tokens :: int
  sessions :: "conv_session list"
  seq_sessions :: int
  transcripts :: "transcript list"
  debriefs :: "debrief_row list"
  vocabulary :: "vocabulary_entry list"
  seq_vocabulary :: int
  review_items :: "review_item list"
  seq_review :: int
  missions :: "mission list"
  seq_missions :: int
  profiles :: "learner_profile list"
  consents :: "voice_consent list"
  idempotency :: "idempotency_key list"
  analytics :: "analytics_event list"

type_synonym dbtx = "db tx"

definition empty_db :: db where
  "empty_db = \<lparr>users = [], seq_users = 1, refresh_tokens = [], seq_tokens = 1,
     sessions = [], seq_sessions = 1, transcripts = [], debriefs = [],
     vocabulary = [], seq_vocabulary = 1, review_items = [], seq_review = 1,
     missions = [], seq_missions = 1, profiles = [], consents = [],
     idempotency = [], analytics = []\<rparr>"

section \<open>User rows\<close>

text \<open>\<open>session.get(User, user_id)\<close> and the locking read \<open>UserRepository.lock\<close>: the row with
  this primary key.\<close>

definition get_user :: "int \<Rightarrow> db \<Rightarrow> user option" where
  "get_user uid d = List.find (\<lambda>u. u_id u = uid) (users d)"

text \<open>A write to the loaded row: the ORM object of the identity map is flushed to its row.\<close>

definition put_user :: "int \<Rightarrow> (user \<Rightarrow> user) \<Rightarrow> db \<Rightarrow> db" where
  "put_user uid f d = users_update (update_where (\<lambda>u. u_id u = uid) f) d"

definition users_wf :: "db \<Rightarrow> bool" where
  "users_wf d \<longleftrightarrow> unique_on u_id (users d) \<and> (\<forall>u \<in> set (users d). u_id u < seq_users d)"

lemma get_user_SomeD: "get_user uid d = Some u \<Longrightarrow> u \<in> set (users d) \<and> u_id u = uid"
  by (auto simp: get_user_def dest: find_SomeD)

lemma get_user_eq:
  "users_wf d \<Longrightarrow> u \<in> set (users d) \<Longrightarrow> get_user (u_id u) d = Some u"
  unfolding get_user_def users_wf_def by (rule find_unique [of u_id]) auto

lemma get_user_put_user:
  assumes "\<And>u. u_id (f u) = u_id u"
  shows "get_user v (put_user uid f d)
    = map_option (\<lambda>u. if u_id u = uid then f u else u) (get_user v d)"
  unfolding get_user_def put_user_def using assms by (simp add: find_update_where_same)

lemma get_user_put_user_same:
  assumes "\<And>u. u_id (f u) = u_id u" and "get_user uid d = Some u"
  shows "get_user uid (put_user uid f d) = Some (f u)"
  using assms get_user_SomeD by (simp add: get_user_put_user)

lemma get_user_put_user_other:
  assumes "\<And>u. u_id (f u) = u_id u" and "v \<noteq> uid"
  shows "get_user v (put_user uid f d) = get_user v d"
proof (cases "get_user v d")
  case (Some u)
  then have "u_id u = v" by (simp add: get_user_SomeD)
  with Some assms show ?thesis by (simp add: get_user_put_user)
qed (simp add: get_user_put_user assms)

lemma put_user_frame [simp]:
  "refresh_tokens (put_user uid f d) = refresh_tokens d"
  "sessions (put_user uid f d) = sessions d"
  "seq_users (put_user uid f d) = seq_users d"
  "seq_sessions (put_user uid f d) = seq_sessions d"
  "seq_tokens (put_user uid f d) = seq_tokens d"
  "transcripts (put_user uid f d) = transcripts d"
  "missions (put_user uid f d) = missions d"
  "debriefs (put_user uid f d) = debriefs d"
  "profiles (put_user uid f d) = profiles d"
  by (simp_all add: put_user_def)

lemma users_put_user:
  "users (put_user uid f d) = update_where (\<lambda>u. u_id u = uid) f (users d)"
  by (simp add: put_user_def)

lemma users_wf_put_user:
  assumes "\<And>u. u_id (f u) = u_id u" and "users_wf d"
  shows "users_wf (put_user uid f d)"
  using assms unfolding users_wf_def
  by (auto simp: users_put_user unique_on_update_where elim!: in_update_whereE)

end
