(* ===== verification/Streaks.thy ===== *)
theory Streaks
  imports Store
begin

text \<open>
  Habit tracking (\<^verbatim>\<open>app/features/streaks\<close>): the pure streak transition and its display rule, the
  application of the transition to a user row (\<open>_apply_active_day\<close> of the session service), the
  weekly goal and the snapshot read by the API. The specification is in terms of the set of days the
  learner practised: the current streak is the maximal run of consecutive days that ends at the last
  one, the longest streak the longest run in the set.
\<close>

section \<open>The streak transition\<close>

record streak_state =
  st_current :: int
  st_longest :: int
  st_last_active :: "date option"

definition initial_streak :: streak_state where
  "initial_streak = \<lparr>st_current = 0, st_longest = 0, st_last_active = None\<rparr>"

definition register_active_day :: "streak_state \<Rightarrow> date \<Rightarrow> streak_state" where
  "register_active_day st today =
     (let la = st_last_active st in
      if la = Some today then st
      else let current = (if la \<noteq> None \<and> la = Some (today - 1) then st_current st + 1 else 1)
           in \<lparr>st_current = current, st_longest = max (st_longest st) current,
               st_last_active = Some today\<rparr>)"

definition current_streak_for :: "streak_state \<Rightarrow> date \<Rightarrow> int" where
  "current_streak_for st today =
     (case st_last_active st of None \<Rightarrow> 0
      | Some la \<Rightarrow> if la = today \<or> la = today - 1 then st_current st else 0)"

text \<open>The stored columns are never null, so \<open>user.current_streak or 0\<close> is the column itself.\<close>

definition apply_active_day :: "date \<Rightarrow> user \<Rightarrow> user" where
  "apply_active_day today u =
     (let up = register_active_day
                 \<lparr>st_current = u_current_streak u, st_longest = u_longest_streak u,
                  st_last_active = u_last_active_date u\<rparr> today
      in u\<lparr>u_current_streak := st_current up, u_longest_streak := st_longest up,
           u_last_active_date := st_last_active up\<rparr>)"

section \<open>Weekly goal and snapshot\<close>

definition MIN_WEEKLY_GOAL_MINUTES :: int where "MIN_WEEKLY_GOAL_MINUTES = 5"
definition MAX_WEEKLY_GOAL_MINUTES :: int where "MAX_WEEKLY_GOAL_MINUTES = 1000"

text \<open>The request schema refuses a goal outside the bounds with a 422.\<close>

definition weekly_goal_update_valid :: "int \<Rightarrow> bool" where
  "weekly_goal_update_valid m \<longleftrightarrow> MIN_WEEKLY_GOAL_MINUTES \<le> m \<and> m \<le> MAX_WEEKLY_GOAL_MINUTES"

definition week_start :: "date \<Rightarrow> date" where
  "week_start today = today - weekday today"

definition get_streak_fields :: "int \<Rightarrow> db \<Rightarrow> (int \<times> int \<times> date option \<times> int) option" where
  "get_streak_fields uid d = map_option
     (\<lambda>u. (u_current_streak u, u_longest_streak u, u_last_active_date u, u_weekly_goal_minutes u))
     (get_user uid d)"

text \<open>SQL's \<open>SUM\<close> skips nulls; an empty sum is coalesced to zero.\<close>

definition minutes_since :: "int \<Rightarrow> date \<Rightarrow> db \<Rightarrow> real" where
  "minutes_since uid since d =
     (let since_dt = since * us_per_day
      in sum_list (map (\<lambda>s. case cs_duration_minutes s of None \<Rightarrow> 0 | Some m \<Rightarrow> m)
           (filter (\<lambda>s. cs_user_id s = uid \<and> since_dt \<le> cs_started_at s) (sessions d))))"

text \<open>Python's \<open>int\<close> truncates towards zero.\<close>

definition py_int :: "real \<Rightarrow> int" where
  "py_int x = (if 0 \<le> x then \<lfloor>x\<rfloor> else \<lceil>x\<rceil>)"

record streak_snapshot =
  sn_current :: int
  sn_longest :: int
  sn_weekly_goal :: int
  sn_minutes_this_week :: int

definition streak_snapshot_of :: "int \<Rightarrow> date \<Rightarrow> db \<Rightarrow> streak_snapshot option" where
  "streak_snapshot_of uid today d = (case get_streak_fields uid d of None \<Rightarrow> None
     | Some (current, longest, last_active, goal) \<Rightarrow>
         Some \<lparr>sn_current = current_streak_for
                 \<lparr>st_current = current, st_longest = longest, st_last_active = last_active\<rparr> today,
               sn_longest = longest, sn_weekly_goal = goal,
               sn_minutes_this_week = py_int (minutes_since uid (week_start today) d)\<rparr>)"

text \<open>The repository's write: an \<open>UPDATE\<close> of the row that exists, committed at once.\<close>

definition store_weekly_goal :: "int \<Rightarrow> int \<Rightarrow> dbtx \<Rightarrow> dbtx" where
  "store_weekly_goal uid minutes t = (case get_user uid (working t) of None \<Rightarrow> t
     | Some _ \<Rightarrow> tx_commit (tx_modify
         (put_user uid (\<lambda>u. u\<lparr>u_weekly_goal_minutes := minutes\<rparr>)) t))"

definition set_weekly_goal :: "int \<Rightarrow> int \<Rightarrow> dbtx \<Rightarrow> int \<times> dbtx" where
  "set_weekly_goal uid minutes t =
     (let clamped = max MIN_WEEKLY_GOAL_MINUTES (min MAX_WEEKLY_GOAL_MINUTES minutes)
      in (clamped, store_weekly_goal uid clamped t))"

definition get_streak_route :: "int \<Rightarrow> date \<Rightarrow> db \<Rightarrow> error + streak_snapshot" where
  "get_streak_route uid today d = (case streak_snapshot_of uid today d of
     None \<Rightarrow> Inl (DomainErr NotFoundError ''No streak for this user'') | Some s \<Rightarrow> Inr s)"

definition update_weekly_goal_route ::
  "int \<Rightarrow> date \<Rightarrow> int \<Rightarrow> dbtx \<Rightarrow> (error + streak_snapshot) \<times> dbtx" where
  "update_weekly_goal_route uid today m t =
     (if \<not> weekly_goal_update_valid m then (Inl (RequestValidationErr []), t)
      else let t' = snd (set_weekly_goal uid m t) in
        (case streak_snapshot_of uid today (working t') of
           None \<Rightarrow> (Inl (OtherErr ''AssertionError''), t') | Some s \<Rightarrow> (Inr s, t')))"

section \<open>Runs of consecutive days\<close>

text \<open>\<open>c\<close> days in a row, ending at \<open>d\<close>, all in \<open>S\<close>; and that this run cannot be extended.\<close>

definition run_of :: "date set \<Rightarrow> date \<Rightarrow> int \<Rightarrow> bool" where
  "run_of S d c \<longleftrightarrow> 0 \<le> c \<and> {d - c + 1..d} \<subseteq> S"

definition maximal_run :: "date set \<Rightarrow> date \<Rightarrow> int \<Rightarrow> bool" where
  "maximal_run S d c \<longleftrightarrow> 0 < c \<and> run_of S d c \<and> d - c \<notin> S"

definition streak_spec :: "date set \<Rightarrow> streak_state \<Rightarrow> bool" where
  "streak_spec S st \<longleftrightarrow>
     (case st_last_active st of
        None \<Rightarrow> S = {} \<and> st_current st = 0 \<and> st_longest st = 0
      | Some d \<Rightarrow> d \<in> S \<and> (\<forall>e \<in> S. e \<le> d) \<and> maximal_run S d (st_current st)
          \<and> (\<exists>e \<in> S. run_of S e (st_longest st))
          \<and> (\<forall>e c. run_of S e c \<longrightarrow> c \<le> st_longest st))"

lemma run_of_insert_old:
  assumes "\<forall>e \<in> S. e < today" "e \<noteq> today"
  shows "run_of (insert today S) e c \<longleftrightarrow> run_of S e c"
proof (cases "today \<in> {e - c + 1..e}")
  case True
  then have mem: "e \<in> {e - c + 1..e}" and lt: "today < e" using assms(2) by auto
  then have "e \<notin> S" "e \<notin> insert today S" using assms by auto
  then have "\<not> {e - c + 1..e} \<subseteq> S" "\<not> {e - c + 1..e} \<subseteq> insert today S" using mem by blast+
  then show ?thesis by (simp add: run_of_def)
next
  case False
  then have "{e - c + 1..e} \<subseteq> insert today S \<longleftrightarrow> {e - c + 1..e} \<subseteq> S" by blast
  then show ?thesis by (simp add: run_of_def)
qed

lemma run_of_mono: "S \<subseteq> T \<Longrightarrow> run_of S d c \<Longrightarrow> run_of T d c"
  by (auto simp: run_of_def)

lemma run_of_insert_new:
  assumes "\<forall>e \<in> S. e < today"
  shows "run_of (insert today S) today c \<longleftrightarrow> c = 0 \<or> run_of S (today - 1) (c - 1) \<and> 1 \<le> c"
proof (cases "1 \<le> c")
  case True
  have "{today - c + 1..today} = insert today {today - 1 - (c - 1) + 1..today - 1}"
    using True by auto
  moreover have "{today - 1 - (c - 1) + 1..today - 1} \<subseteq> insert today S
    \<longleftrightarrow> {today - 1 - (c - 1) + 1..today - 1} \<subseteq> S" by force
  ultimately show ?thesis using True by (simp add: run_of_def)
next
  case False
  then show ?thesis by (auto simp: run_of_def)
qed

lemma maximal_run_bound:
  assumes "maximal_run S d c" "run_of S d k"
  shows "k \<le> c"
proof (rule ccontr)
  assume "\<not> k \<le> c"
  then have "d - c \<in> {d - k + 1..d}" using assms(1) by (auto simp: maximal_run_def)
  then have "d - c \<in> S" using assms(2) unfolding run_of_def by blast
  then show False using assms(1) by (simp add: maximal_run_def)
qed

text \<open>A day after a gap (or the first day ever) starts a run of one; a day that follows extends it.\<close>

lemma maximal_run_insert:
  assumes below: "\<forall>e \<in> S. e < today"
  shows "today - 1 \<notin> S \<Longrightarrow> maximal_run (insert today S) today 1"
    and "maximal_run S (today - 1) c \<Longrightarrow> maximal_run (insert today S) today (c + 1)"
proof -
  show "today - 1 \<notin> S \<Longrightarrow> maximal_run (insert today S) today 1"
    by (simp add: maximal_run_def run_of_insert_new [OF below] run_of_def)
  assume m: "maximal_run S (today - 1) c"
  then have "run_of (insert today S) today (c + 1)"
    by (simp add: run_of_insert_new [OF below] maximal_run_def)
  moreover have "today - (c + 1) \<notin> insert today S"
    using m by (auto simp: maximal_run_def algebra_simps)
  ultimately show "maximal_run (insert today S) today (c + 1)"
    using m by (simp add: maximal_run_def)
qed

lemma run_of_insert_bound:
  assumes below: "\<forall>e \<in> S. e < today" and cur: "maximal_run (insert today S) today cur"
    and old: "\<And>e c. run_of S e c \<Longrightarrow> c \<le> L" and r: "run_of (insert today S) e c"
  shows "c \<le> max L cur"
proof (cases "e = today")
  case True
  with maximal_run_bound [OF cur] r show ?thesis by (simp add: le_max_iff_disj)
next
  case False
  with run_of_insert_old [OF below] r have "run_of S e c" by simp
  from old [OF this] show ?thesis by simp
qed

lemma streak_spec_initial: "streak_spec {} initial_streak"
  by (simp add: streak_spec_def initial_streak_def)

lemma streak_spec_new_day:
  assumes below: "\<forall>e \<in> S. e < today" and cur: "maximal_run (insert today S) today cur"
    and L: "\<And>e c. run_of S e c \<Longrightarrow> c \<le> L"
    and ex: "(\<exists>e \<in> S. run_of S e L) \<or> L = 0"
  shows "streak_spec (insert today S)
    \<lparr>st_current = cur, st_longest = max L cur, st_last_active = Some today\<rparr>"
proof -
  have "\<exists>e \<in> insert today S. run_of (insert today S) e (max L cur)"
  proof (cases "L \<le> cur")
    case True
    then show ?thesis using cur by (auto simp: maximal_run_def max_def)
  next
    case False
    then have "L \<noteq> 0" using cur by (auto simp: maximal_run_def)
    with ex obtain e where "e \<in> S" "run_of S e L" by auto
    then show ?thesis using False run_of_mono [of S "insert today S"] by (auto simp: max_def)
  qed
  moreover have "c \<le> max L cur" if "run_of (insert today S) e c" for e c
    by (rule run_of_insert_bound [OF below cur L that])
  moreover have "\<forall>e \<in> insert today S. e \<le> today" using below by force
  ultimately show ?thesis using cur by (auto simp: streak_spec_def)
qed

lemma register_active_day_spec:
  assumes spec: "streak_spec S st" and mono: "\<forall>e \<in> S. e \<le> today"
  shows "streak_spec (insert today S) (register_active_day st today)"
proof (cases "st_last_active st")
  case None
  with spec have S: "S = {}" "st_current st = 0" "st_longest st = 0"
    by (auto simp: streak_spec_def)
  have "streak_spec (insert today S)
      \<lparr>st_current = 1, st_longest = max 0 1, st_last_active = Some today\<rparr>"
    by (rule streak_spec_new_day)
      (auto simp: S maximal_run_def run_of_def)
  then show ?thesis using None S by (simp add: register_active_day_def)
next
  case (Some d)
  note s = spec [unfolded streak_spec_def Some option.case]
  show ?thesis
  proof (cases "d = today")
    case True
    with s have "insert today S = S" by auto
    with spec Some True show ?thesis by (simp add: register_active_day_def)
  next
    case False
    with s mono have below: "\<forall>e \<in> S. e < today" and d: "d < today" by force+
    let ?cur = "if d = today - 1 then st_current st + 1 else 1"
    have "today - 1 \<notin> S" if "d \<noteq> today - 1" using s d that by force
    then have cur: "maximal_run (insert today S) today ?cur"
      using maximal_run_insert [OF below] s by auto
    have "streak_spec (insert today S)
        \<lparr>st_current = ?cur, st_longest = max (st_longest st) ?cur, st_last_active = Some today\<rparr>"
      by (rule streak_spec_new_day [OF below cur]) (use s in auto)
    then show ?thesis using Some False
      by (simp add: register_active_day_def Let_def split: if_splits)
  qed
qed

lemma fold_register_spec:
  assumes "streak_spec S st" "sorted days" "\<forall>e \<in> S. \<forall>d \<in> set days. e \<le> d"
  shows "streak_spec (S \<union> set days) (fold (\<lambda>d st. register_active_day st d) days st)"
  using assms
proof (induction days arbitrary: S st)
  case (Cons d days)
  have "streak_spec (insert d S) (register_active_day st d)"
    using Cons.prems by (intro register_active_day_spec) auto
  moreover have "\<forall>e \<in> insert d S. \<forall>x \<in> set days. e \<le> x" using Cons.prems by auto
  ultimately have "streak_spec (insert d S \<union> set days)
      (fold (\<lambda>d st. register_active_day st d) days (register_active_day st d))"
    using Cons.prems by (intro Cons.IH) auto
  then show ?case by simp
qed simp

section \<open>Properties\<close>

text \<open>C11: Registering the learner's practice days in chronological order computes the right streak: the
  stored current streak is the maximal run of consecutive days that ends at the last active day, and
  the stored longest streak is the length of the longest run in all of the days practised.\<close>

theorem streak_counts_consecutive_days:
  assumes "sorted days"
  shows "streak_spec (set days) (fold (\<lambda>d st. register_active_day st d) days initial_streak)"
  using fold_register_spec [OF streak_spec_initial assms] by simp

theorem streak_counts_consecutive_days_witness:
  "sorted [1::int, 2, 2, 3, 7, 8] \<and>
   fold (\<lambda>d st. register_active_day st d) [1::int, 2, 2, 3, 7, 8] initial_streak
     = \<lparr>st_current = 2, st_longest = 3, st_last_active = Some 8\<rparr> \<and>
   streak_spec {1, 2, 3, 7, 8} \<lparr>st_current = 2, st_longest = 3, st_last_active = Some 8\<rparr>"
proof -
  have s: "sorted [1::int, 2, 2, 3, 7, 8]" by simp
  have f: "fold (\<lambda>d st. register_active_day st d) [1::int, 2, 2, 3, 7, 8] initial_streak
     = \<lparr>st_current = 2, st_longest = 3, st_last_active = Some 8\<rparr>"
    by (simp add: register_active_day_def initial_streak_def)
  show ?thesis using streak_counts_consecutive_days [OF s] s f by (simp add: insert_commute)
qed

text \<open>The chronological order matters. A turn replayed from an earlier day (the offline replay, whose
  practice instant may lie up to 48 hours back) after the learner already practised today throws the
  running streak away and moves the last active day backwards, although the set of practised days only
  grew: the streak of any length drops to one, and practising again today brings it to two only.\<close>

theorem late_replay_loses_streak:
  assumes "st_last_active st = Some today"
  shows "register_active_day st (today - 1)
      = \<lparr>st_current = 1, st_longest = max (st_longest st) 1, st_last_active = Some (today - 1)\<rparr>
    \<and> st_current (register_active_day (register_active_day st (today - 1)) today) = 2"
  using assms by (simp add: register_active_day_def)

theorem late_replay_loses_streak_witness:
  "register_active_day \<lparr>st_current = 30, st_longest = 30, st_last_active = Some 100\<rparr> 99
      = \<lparr>st_current = 1, st_longest = 30, st_last_active = Some 99\<rparr>"
  using late_replay_loses_streak
    [of "\<lparr>st_current = 30, st_longest = 30, st_last_active = Some 100\<rparr>" 100] by simp

lemma longest_never_decreases: "st_longest st \<le> st_longest (register_active_day st today)"
  by (simp add: register_active_day_def Let_def)

lemma register_active_day_idem:
  "register_active_day (register_active_day st d) d = register_active_day st d"
  by (simp add: register_active_day_def Let_def)

lemma apply_active_day_id [simp]: "u_id (apply_active_day today u) = u_id u"
  by (simp add: apply_active_day_def Let_def)

lemma week_start_bounds:
  "week_start d \<le> d" "d < week_start d + 7" "weekday (week_start d) = 0"
  using weekday_range [of d]
  by (auto simp: week_start_def weekday_def) (metis add.commute add_diff_eq dvd_imp_mod_0 dvd_minus_mod)

lemma set_weekly_goal_valid: "weekly_goal_update_valid (fst (set_weekly_goal uid m t))"
  by (simp add: set_weekly_goal_def weekly_goal_update_valid_def MIN_WEEKLY_GOAL_MINUTES_def
      MAX_WEEKLY_GOAL_MINUTES_def Let_def)

lemma set_weekly_goal_of_valid:
  "weekly_goal_update_valid m \<Longrightarrow> fst (set_weekly_goal uid m t) = m"
  by (simp add: set_weekly_goal_def weekly_goal_update_valid_def Let_def)

section \<open>The data source of the streak service\<close>

text \<open>
  The protocol \<open>StreakDataSource\<close> the service is written against, with the laws it relies on: a
  stored goal is read back, and storing it leaves the other fields and the practised minutes alone.
\<close>

locale streak_data_source =
  fixes fields :: "int \<Rightarrow> 's \<Rightarrow> (int \<times> int \<times> date option \<times> int) option"
    and minutes :: "int \<Rightarrow> date \<Rightarrow> 's \<Rightarrow> real"
    and store_goal :: "int \<Rightarrow> int \<Rightarrow> 's \<Rightarrow> 's"
  assumes fields_store_goal:
      "fields uid (store_goal uid g s)
       = map_option (\<lambda>(c, l, a, _). (c, l, a, g)) (fields uid s)"
    and minutes_store_goal: "minutes uid since (store_goal uid' g s) = minutes uid since s"
begin

definition snapshot :: "int \<Rightarrow> date \<Rightarrow> 's \<Rightarrow> streak_snapshot option" where
  "snapshot uid today s = map_option
     (\<lambda>(c, l, a, g). \<lparr>sn_current = current_streak_for
          \<lparr>st_current = c, st_longest = l, st_last_active = a\<rparr> today,
        sn_longest = l, sn_weekly_goal = g,
        sn_minutes_this_week = py_int (minutes uid (week_start today) s)\<rparr>) (fields uid s)"

lemma snapshot_store_goal:
  "snapshot uid today (store_goal uid g s)
   = map_option (sn_weekly_goal_update (\<lambda>_. g)) (snapshot uid today s)"
  by (cases "fields uid s")
    (auto simp: snapshot_def fields_store_goal minutes_store_goal)

end

interpretation streak_source: streak_data_source
  "\<lambda>uid t. get_streak_fields uid (working t)" "\<lambda>uid since t. minutes_since uid since (working t)"
  store_weekly_goal
proof unfold_locales
  fix uid g and t :: dbtx
  show "get_streak_fields uid (working (store_weekly_goal uid g t))
      = map_option (\<lambda>(c, l, a, _). (c, l, a, g)) (get_streak_fields uid (working t))"
    by (auto simp: store_weekly_goal_def get_streak_fields_def get_user_put_user
        split: option.splits dest: get_user_SomeD)
next
  fix uid since uid' g and t :: dbtx
  show "minutes_since uid since (working (store_weekly_goal uid' g t))
      = minutes_since uid since (working t)"
    by (simp add: store_weekly_goal_def minutes_since_def split: option.splits)
qed

lemma streak_snapshot_of_eq:
  "streak_snapshot_of uid today (working t) = streak_source.snapshot uid today t"
  by (simp add: streak_snapshot_of_def streak_source.snapshot_def split: option.splits)

lemma update_weekly_goal_reads_back:
  assumes "weekly_goal_update_valid m" and "streak_snapshot_of uid today (working t) = Some s"
  shows "update_weekly_goal_route uid today m t
    = (Inr (s\<lparr>sn_weekly_goal := m\<rparr>), snd (set_weekly_goal uid m t))"
proof -
  have "streak_snapshot_of uid today (working (store_weekly_goal uid m t))
      = Some (s\<lparr>sn_weekly_goal := m\<rparr>)"
    using assms by (simp add: streak_snapshot_of_eq streak_source.snapshot_store_goal)
  then show ?thesis using assms set_weekly_goal_of_valid [OF assms(1), of uid t]
    by (auto simp: update_weekly_goal_route_def set_weekly_goal_def Let_def)
qed

end
