(* ===== verification/Quota.thy ===== *)
theory Quota
  imports Streaks
begin

text \<open>
  The daily quota (\<^verbatim>\<open>app/core/quota.py\<close>) and the subscription service
  (\<^verbatim>\<open>app/features/billing\<close>). The quota is two columns of the user row, the day they
  speak of and the minutes used on it; the lemmas relate them to the history of billed usage. The
  float infinity of the premium tier is a constructor of its own; finite minutes are reals.
\<close>

section \<open>Quota\<close>

datatype py_float = Fin real | PosInf

fun float_le_zero :: "py_float \<Rightarrow> bool" where
  "float_le_zero (Fin x) \<longleftrightarrow> x \<le> 0"
| "float_le_zero PosInf \<longleftrightarrow> False"

definition used_on :: "date \<Rightarrow> user \<Rightarrow> real" where
  "used_on today u = (if u_quota_date u = Some today then u_minutes_used_today u else 0)"

definition remaining_minutes :: "user \<Rightarrow> int \<Rightarrow> date \<Rightarrow> py_float" where
  "remaining_minutes u free_daily today =
     (if u_tier u \<noteq> TIER_FREE then PosInf
      else Fin (max 0 (of_int free_daily - used_on today u)))"

definition record_usage :: "real \<Rightarrow> date \<Rightarrow> user \<Rightarrow> user" where
  "record_usage minutes today u =
     (let u1 = (if u_quota_date u \<noteq> Some today
                then u\<lparr>u_quota_date := Some today, u_minutes_used_today := 0\<rparr> else u)
      in u1\<lparr>u_minutes_used_today := u_minutes_used_today u1 + minutes\<rparr>)"

lemma record_usage_sel [simp]:
  "u_id (record_usage m d u) = u_id u" "u_tier (record_usage m d u) = u_tier u"
  "u_email (record_usage m d u) = u_email u" "u_is_active (record_usage m d u) = u_is_active u"
  "u_current_streak (record_usage m d u) = u_current_streak u"
  "u_longest_streak (record_usage m d u) = u_longest_streak u"
  "u_last_active_date (record_usage m d u) = u_last_active_date u"
  by (simp_all add: record_usage_def Let_def)

lemma used_on_record_usage:
  "used_on e (record_usage m d u) = (if e = d then used_on d u + m else 0)"
  by (simp add: used_on_def record_usage_def Let_def)

lemma remaining_minutes_not_negative:
  "remaining_minutes u free today = Fin x \<Longrightarrow> 0 \<le> x"
  by (auto simp: remaining_minutes_def split: if_splits)

lemma exhausted_iff:
  "float_le_zero (remaining_minutes u free today)
   \<longleftrightarrow> u_tier u = TIER_FREE \<and> of_int free \<le> used_on today u"
  by (auto simp: remaining_minutes_def max_def)

section \<open>Usage over a history of bills\<close>

text \<open>The minutes billed on one day of a history of (minutes, day) bills.\<close>

definition billed_on :: "date \<Rightarrow> (real \<times> date) list \<Rightarrow> real" where
  "billed_on d evs = sum_list (map fst (filter (\<lambda>e. snd e = d) evs))"

definition bill_all :: "(real \<times> date) list \<Rightarrow> user \<Rightarrow> user" where
  "bill_all evs u = fold (\<lambda>(m, d). record_usage m d) evs u"

lemma bill_all_snoc: "bill_all (evs @ [(m, d)]) u = record_usage m d (bill_all evs u)"
  by (simp add: bill_all_def)

lemma bill_all_tier [simp]: "u_tier (bill_all evs u) = u_tier u"
  unfolding bill_all_def by (induction evs arbitrary: u) auto

lemma billed_on_snoc:
  "billed_on d (evs @ [(m, e)]) = billed_on d evs + (if e = d then m else 0)"
  by (simp add: billed_on_def)

lemma billed_on_later: "\<forall>e \<in> set evs. snd e < d \<Longrightarrow> billed_on d evs = 0"
proof -
  assume "\<forall>e \<in> set evs. snd e < d"
  then have "filter (\<lambda>e. snd e = d) evs = []" by (auto simp: filter_empty_conv)
  then show ?thesis by (simp add: billed_on_def)
qed

lemma quota_date_bill_all:
  "evs \<noteq> [] \<Longrightarrow> u_quota_date (bill_all evs u) = Some (snd (last evs))"
proof (induction evs rule: rev_induct)
  case (snoc e evs)
  then show ?case by (cases e) (simp add: bill_all_snoc record_usage_def Let_def)
qed simp

lemma used_on_bill_all:
  assumes "u_quota_date u = None" and "sorted (map snd evs)"
  shows "\<forall>e \<in> set evs. snd e \<le> d \<Longrightarrow> used_on d (bill_all evs u) = billed_on d evs"
  using assms(2)
proof (induction evs arbitrary: d rule: rev_induct)
  case Nil
  then show ?case using assms(1) by (simp add: bill_all_def billed_on_def used_on_def)
next
  case (snoc e evs)
  obtain m k where e: "e = (m, k)" by (cases e)
  have le: "\<forall>x \<in> set evs. snd x \<le> k" and "sorted (map snd evs)"
    using snoc.prems(2) by (auto simp: e sorted_append)
  then have IH: "used_on k (bill_all evs u) = billed_on k evs" using snoc.IH [of k] by blast
  show ?case
  proof (cases "k = d")
    case True
    then show ?thesis using IH by (simp add: e bill_all_snoc used_on_record_usage billed_on_snoc)
  next
    case False
    then have "k < d" using snoc.prems(1) by (simp add: e)
    then have "\<forall>x \<in> set evs. snd x < d" using le by force
    then show ?thesis using False
      by (simp add: e bill_all_snoc used_on_record_usage billed_on_snoc billed_on_later)
  qed
qed

text \<open>The two quota columns carry exactly the current day's usage: after any chronological history of
  bills, the free allowance that remains on a day not before the last bill is the daily allowance
  less everything billed on that day (and nothing billed on earlier days), never below zero.\<close>

theorem quota_counts_the_day:
  assumes "u_quota_date u = None" "u_tier u = TIER_FREE"
    and "sorted (map snd evs)" "\<forall>e \<in> set evs. snd e \<le> today"
  shows "remaining_minutes (bill_all evs u) free_daily today
    = Fin (max 0 (of_int free_daily - billed_on today evs))"
  using used_on_bill_all [OF assms(1,3,4)] assms(2) by (simp add: remaining_minutes_def)

theorem quota_counts_the_day_witness:
  "remaining_minutes
     (bill_all [(4, 10), (3, 11), (2, 11)] (new_user 1 ''a@b.c'' ''h'' ''fr'')) 15 11 = Fin 10"
proof -
  let ?u = "new_user 1 ''a@b.c'' ''h'' ''fr''"
  have a: "u_quota_date ?u = None" "u_tier ?u = TIER_FREE" by (simp_all add: new_user_def)
  show ?thesis
    using quota_counts_the_day [OF a, of "[(4, 10), (3, 11), (2, 11)]" 11 15]
    by (simp add: billed_on_def)
qed

section \<open>Subscriptions\<close>

record subscription =
  sub_tier :: string
  sub_is_premium :: bool
  sub_free_daily_minutes :: int
  sub_minutes_used_today :: real
  sub_remaining_minutes :: py_float

definition set_tier :: "int \<Rightarrow> string \<Rightarrow> dbtx \<Rightarrow> (error + user) \<times> dbtx" where
  "set_tier uid tier t = (case get_user uid (working t) of
      None \<Rightarrow> (Inl (DomainErr NotFoundError ''User not found''), t)
    | Some u \<Rightarrow> (Inr (u\<lparr>u_tier := tier\<rparr>),
        tx_commit (tx_modify (put_user uid (u_tier_update (\<lambda>_. tier))) t)))"

definition subscription_of :: "int \<Rightarrow> date \<Rightarrow> user \<Rightarrow> subscription" where
  "subscription_of free_daily today u =
     \<lparr>sub_tier = u_tier u, sub_is_premium = (u_tier u = TIER_PREMIUM),
      sub_free_daily_minutes = free_daily,
      sub_minutes_used_today =
        (if u_quota_date u = Some today then u_minutes_used_today u else 0),
      sub_remaining_minutes = remaining_minutes u free_daily today\<rparr>"

record subscription_out =
  so_tier :: string
  so_is_premium :: bool
  so_free_daily_minutes :: int
  so_minutes_used_today :: real
  so_remaining_minutes :: "real option"

text \<open>Infinity is not valid JSON: unlimited is exposed as a null.\<close>

definition to_out :: "subscription \<Rightarrow> subscription_out" where
  "to_out s = \<lparr>so_tier = sub_tier s, so_is_premium = sub_is_premium s,
     so_free_daily_minutes = sub_free_daily_minutes s,
     so_minutes_used_today = sub_minutes_used_today s,
     so_remaining_minutes = (case sub_remaining_minutes s of PosInf \<Rightarrow> None | Fin x \<Rightarrow> Some x)\<rparr>"

lemma set_tier_user:
  assumes "get_user uid (working t) = Some u"
  shows "get_user uid (committed (snd (set_tier uid tier t))) = Some (u\<lparr>u_tier := tier\<rparr>)"
    and "v \<noteq> uid \<Longrightarrow> get_user v (committed (snd (set_tier uid tier t))) = get_user v (working t)"
  using assms
  by (simp_all add: set_tier_def get_user_put_user_same get_user_put_user_other)

lemma free_subscription_balance:
  "u_tier u = TIER_FREE \<Longrightarrow> so_minutes_used_today (to_out (subscription_of free d u)) \<le> of_int free
   \<Longrightarrow> so_remaining_minutes (to_out (subscription_of free d u))
     = Some (of_int free - so_minutes_used_today (to_out (subscription_of free d u)))"
  by (auto simp: to_out_def subscription_of_def remaining_minutes_def used_on_def)

lemma premium_unlimited:
  "u_tier u = TIER_PREMIUM \<Longrightarrow> so_remaining_minutes (to_out (subscription_of free d u)) = None"
  by (simp add: to_out_def subscription_of_def remaining_minutes_def)

end
