(* ===== verification/Auth.thy ===== *)
theory Auth
  imports Quota
begin

text \<open>
  Accounts and tokens (\<^verbatim>\<open>app/features/auth\<close>): the two repositories, the service and the
  request dependencies. What the service takes from libraries is a record of parameters: the password
  hash and its check (argon2), the token digest (SHA-256), the random token generator, the access
  token encoder and decoder (JWT), next to the clock readings. A repository call may also fail in the
  driver: \<open>en_fault\<close> says which calls of a request raise, and what. Mail is best effort, its errors
  are swallowed, and it is not part of the result.
\<close>

section \<open>Parameters\<close>

datatype auth_call = CreateUser | CreateToken | RevokeToken | RevokeAll | SaveUser | CommitTx

record auth_env =
  en_hash_password :: "string \<Rightarrow> string"
  en_verify_password :: "string \<Rightarrow> string \<Rightarrow> bool"
  en_dummy_hash :: string
  en_hash_token :: "string \<Rightarrow> string"
  en_fresh_token :: string
  en_access_token :: "string \<Rightarrow> string"
  en_decode :: "string \<Rightarrow> string option"
  en_clk :: "nat \<Rightarrow> instant"
  en_fault :: "auth_call \<Rightarrow> error option"
  en_refresh_ttl_days :: int
  en_reuse_grace_seconds :: int

record auth_result =
  ar_user :: user
  ar_access_token :: string
  ar_refresh_token :: string

definition is_inactive :: "user option \<Rightarrow> bool" where
  "is_inactive u \<longleftrightarrow> (case u of None \<Rightarrow> False | Some v \<Rightarrow> u_is_active v = False)"

definition normalize_email :: "string \<Rightarrow> string" where
  "normalize_email email = py_lower (py_strip email)"

section \<open>Repositories\<close>

definition get_by_email :: "string \<Rightarrow> db \<Rightarrow> user option" where
  "get_by_email email d = List.find (\<lambda>u. u_email u = email) (users d)"

definition get_by_reset_hash :: "string \<Rightarrow> db \<Rightarrow> user option" where
  "get_by_reset_hash h d = List.find (\<lambda>u. u_reset_token_hash u = Some h) (users d)"

text \<open>The unique index on the email and the one on its lowercase form.\<close>

definition email_taken :: "string \<Rightarrow> db \<Rightarrow> bool" where
  "email_taken email d \<longleftrightarrow>
     (\<exists>u \<in> set (users d). u_email u = email \<or> py_lower (u_email u) = py_lower email)"

definition insert_user :: "user \<Rightarrow> db \<Rightarrow> db" where
  "insert_user u d = d\<lparr>users := users d @ [u], seq_users := seq_users d + 1\<rparr>"

definition email_conflict :: error where
  "email_conflict = DomainErr EmailAlreadyExistsError ''Email already registered''"

definition create_user ::
  "auth_env \<Rightarrow> string \<Rightarrow> string \<Rightarrow> string \<Rightarrow> bool \<Rightarrow> dbtx \<Rightarrow> (error + user) \<times> dbtx" where
  "create_user env email hashed lang commit t =
     (let u = new_user (seq_users (working t)) email hashed lang in
      case en_fault env CreateUser of
        Some (IntegrityErr _) \<Rightarrow> (Inl email_conflict, tx_rollback t)
      | Some e \<Rightarrow> (Inl e, t)
      | None \<Rightarrow>
          if email_taken email (working t) then (Inl email_conflict, tx_rollback t)
          else let t' = tx_modify (insert_user u) t
               in (Inr u, if commit then tx_commit t' else t'))"

text \<open>\<open>save\<close> of a loaded user whose attributes were changed by \<open>f\<close>.\<close>

definition save_user ::
  "auth_env \<Rightarrow> int \<Rightarrow> (user \<Rightarrow> user) \<Rightarrow> bool \<Rightarrow> dbtx \<Rightarrow> (error + unit) \<times> dbtx" where
  "save_user env uid f commit t = (case en_fault env SaveUser of
      Some e \<Rightarrow> (Inl e, t)
    | None \<Rightarrow> let t' = tx_modify (put_user uid f) t
        in (Inr (), if commit then tx_commit t' else t'))"

definition get_by_hash :: "string \<Rightarrow> db \<Rightarrow> refresh_token option" where
  "get_by_hash h d = List.find (\<lambda>r. rt_token_hash r = h) (refresh_tokens d)"

definition insert_token :: "refresh_token \<Rightarrow> db \<Rightarrow> db" where
  "insert_token r d = d\<lparr>refresh_tokens := refresh_tokens d @ [r], seq_tokens := seq_tokens d + 1\<rparr>"

definition create_token ::
  "auth_env \<Rightarrow> int \<Rightarrow> string \<Rightarrow> instant \<Rightarrow> bool \<Rightarrow> dbtx \<Rightarrow> (error + unit) \<times> dbtx" where
  "create_token env uid h expires commit t = (case en_fault env CreateToken of
      Some e \<Rightarrow> (Inl e, t)
    | None \<Rightarrow> if get_by_hash h (working t) \<noteq> None then (Inl (IntegrityErr ''token_hash''), t)
        else let t' = tx_modify (insert_token \<lparr>rt_id = seq_tokens (working t), rt_user_id = uid,
                 rt_token_hash = h, rt_expires_at = utc expires, rt_revoked_at = None\<rparr>) t
             in (Inr (), if commit then tx_commit t' else t'))"

definition set_revoked :: "instant \<Rightarrow> refresh_token \<Rightarrow> refresh_token" where
  "set_revoked now r = r\<lparr>rt_revoked_at := Some (utc now)\<rparr>"

definition revoke ::
  "auth_env \<Rightarrow> refresh_token \<Rightarrow> instant \<Rightarrow> bool \<Rightarrow> dbtx \<Rightarrow> (error + unit) \<times> dbtx" where
  "revoke env tok now commit t = (case en_fault env RevokeToken of
      Some e \<Rightarrow> (Inl e, t)
    | None \<Rightarrow> let t' = tx_modify (refresh_tokens_update
                 (update_where (\<lambda>r. rt_id r = rt_id tok) (set_revoked now))) t
        in (Inr (), if commit then tx_commit t' else t'))"

definition revoke_all_rows :: "int \<Rightarrow> instant \<Rightarrow> db \<Rightarrow> db" where
  "revoke_all_rows uid now d = refresh_tokens_update
     (update_where (\<lambda>r. rt_user_id r = uid \<and> rt_revoked_at r = None) (set_revoked now)) d"

definition revoke_all_for_user ::
  "auth_env \<Rightarrow> int \<Rightarrow> instant \<Rightarrow> bool \<Rightarrow> dbtx \<Rightarrow> (error + unit) \<times> dbtx" where
  "revoke_all_for_user env uid now commit t = (case en_fault env RevokeAll of
      Some e \<Rightarrow> (Inl e, t)
    | None \<Rightarrow> let t' = tx_modify (revoke_all_rows uid now) t
        in (Inr (), if commit then tx_commit t' else t'))"

text \<open>A commit that fails leaves nothing behind.\<close>

definition commit_call :: "auth_env \<Rightarrow> dbtx \<Rightarrow> (error + unit) \<times> dbtx" where
  "commit_call env t = (case en_fault env CommitTx of
      Some e \<Rightarrow> (Inl e, t) | None \<Rightarrow> (Inr (), tx_commit t))"

text \<open>The background purge: expired tokens are deleted, an error is swallowed.\<close>

definition purge_expired :: "auth_env \<Rightarrow> instant \<Rightarrow> bool \<Rightarrow> dbtx \<Rightarrow> nat \<times> dbtx" where
  "purge_expired env now commit t =
     (let p = (\<lambda>r. instant (rt_expires_at r) < now);
          t' = tx_modify (refresh_tokens_update (delete_where p)) t
      in case (if commit then en_fault env CommitTx else None) of
           Some _ \<Rightarrow> (0, t')
         | None \<Rightarrow> (rowcount p (refresh_tokens (working t)), if commit then tx_commit t' else t'))"

section \<open>Service\<close>

text \<open>\<open>expires_at\<close> is an own reading of the clock, the second of a refresh.\<close>

definition issue_tokens ::
  "auth_env \<Rightarrow> user \<Rightarrow> bool \<Rightarrow> dbtx \<Rightarrow> (error + auth_result) \<times> dbtx" where
  "issue_tokens env u commit t =
     (case create_token env (u_id u) (en_hash_token env (en_fresh_token env))
             (en_clk env 1 + en_refresh_ttl_days env * us_per_day) commit t of
        (Inl e, t') \<Rightarrow> (Inl e, t')
      | (Inr _, t') \<Rightarrow> (Inr \<lparr>ar_user = u, ar_access_token = en_access_token env (py_str_int (u_id u)),
           ar_refresh_token = en_fresh_token env\<rparr>, t'))"

text \<open>\<open>try: ... except Exception: rollback; raise\<close>.\<close>

definition rollback_on_error :: "(error + 'a) \<times> dbtx \<Rightarrow> (error + 'a) \<times> dbtx" where
  "rollback_on_error x = (case x of (Inl e, t) \<Rightarrow> (Inl e, tx_rollback t) | (Inr a, t) \<Rightarrow> (Inr a, t))"

definition register ::
  "auth_env \<Rightarrow> string \<Rightarrow> string \<Rightarrow> string \<Rightarrow> dbtx \<Rightarrow> (error + auth_result) \<times> dbtx" where
  "register env raw_email password native_language t =
     (let email = normalize_email raw_email in
      if get_by_email email (working t) \<noteq> None then (Inl email_conflict, t)
      else rollback_on_error
        (case create_user env email (en_hash_password env password) native_language False t of
           (Inl e, t1) \<Rightarrow> (Inl e, t1)
         | (Inr u, t1) \<Rightarrow> issue_tokens env u True t1))"

definition login :: "auth_env \<Rightarrow> string \<Rightarrow> string \<Rightarrow> dbtx \<Rightarrow> (error + auth_result) \<times> dbtx" where
  "login env raw_email password t =
     (let user = get_by_email (normalize_email raw_email) (working t);
          hashed = (case user of Some u \<Rightarrow> u_hashed_password u | None \<Rightarrow> en_dummy_hash env);
          password_ok = en_verify_password env password hashed
      in case user of
           None \<Rightarrow> (Inl (DomainErr InvalidCredentialsError ''Invalid credentials''), t)
         | Some u \<Rightarrow> if \<not> password_ok \<or> is_inactive user
             then (Inl (DomainErr InvalidCredentialsError ''Invalid credentials''), t)
             else issue_tokens env u True t)"

definition aware :: "datetime \<Rightarrow> datetime" where
  "aware dt = (if tzinfo dt = None then dt\<lparr>tzinfo := Some 0\<rparr> else dt)"

definition invalid_refresh :: "string \<Rightarrow> error" where
  "invalid_refresh msg = DomainErr InvalidRefreshTokenError msg"

text \<open>The answer to a token that was already revoked: past the grace window the whole family goes.\<close>

definition reuse_detected :: "auth_env \<Rightarrow> refresh_token \<Rightarrow> datetime \<Rightarrow> bool" where
  "reuse_detected env rec revoked \<longleftrightarrow>
     en_clk env 0 - instant (aware revoked) > en_reuse_grace_seconds env * us_per_second"

definition rotate ::
  "auth_env \<Rightarrow> refresh_token \<Rightarrow> user \<Rightarrow> dbtx \<Rightarrow> (error + auth_result) \<times> dbtx" where
  "rotate env rec u t =
     (case revoke env rec (en_clk env 0) False t of
        (Inl e, t1) \<Rightarrow> (Inl e, t1)
      | (Inr _, t1) \<Rightarrow> (case issue_tokens env u False t1 of
            (Inl e, t2) \<Rightarrow> (Inl e, t2)
          | (Inr res, t2) \<Rightarrow> (case commit_call env t2 of
                (Inl e, t3) \<Rightarrow> (Inl e, t3) | (Inr _, t3) \<Rightarrow> (Inr res, t3))))"

definition refresh :: "auth_env \<Rightarrow> string \<Rightarrow> dbtx \<Rightarrow> (error + auth_result) \<times> dbtx" where
  "refresh env raw t = rollback_on_error
     (let now = en_clk env 0 in
      case get_by_hash (en_hash_token env raw) (working t) of
        None \<Rightarrow> (Inl (invalid_refresh ''Invalid refresh token''), t)
      | Some rec \<Rightarrow> (case rt_revoked_at rec of
          Some revoked \<Rightarrow>
            if reuse_detected env rec revoked
            then (case revoke_all_for_user env (rt_user_id rec) now True t of
                    (Inl e, t1) \<Rightarrow> (Inl e, t1)
                  | (Inr _, t1) \<Rightarrow> (Inl (invalid_refresh ''Invalid refresh token''), t1))
            else (Inl (invalid_refresh ''Invalid refresh token''), t)
        | None \<Rightarrow>
            if instant (aware (rt_expires_at rec)) \<le> now
            then (Inl (invalid_refresh ''Refresh token expired''), t)
            else (case get_user (rt_user_id rec) (working t) of
                None \<Rightarrow> (Inl (invalid_refresh ''Invalid refresh token''), t)
              | Some u \<Rightarrow> if is_inactive (Some u)
                  then (Inl (invalid_refresh ''Invalid refresh token''), t)
                  else rotate env rec u t)))"

definition logout :: "auth_env \<Rightarrow> string \<Rightarrow> dbtx \<Rightarrow> (error + unit) \<times> dbtx" where
  "logout env raw t = (case get_by_hash (en_hash_token env raw) (working t) of
      None \<Rightarrow> (Inr (), t)
    | Some rec \<Rightarrow> if rt_revoked_at rec = None then revoke env rec (en_clk env 0) True t
        else (Inr (), t))"

definition auth_error :: "string \<Rightarrow> error" where
  "auth_error msg = DomainErr AuthenticationError msg"

definition get_authenticated_user :: "auth_env \<Rightarrow> string \<Rightarrow> db \<Rightarrow> error + user" where
  "get_authenticated_user env token d = (case en_decode env token of
      None \<Rightarrow> Inl (auth_error ''Invalid token'')
    | Some subject \<Rightarrow> (case py_int_of_str subject of
        None \<Rightarrow> Inl (OtherErr ''ValueError'')
      | Some uid \<Rightarrow> (case get_user uid d of
          None \<Rightarrow> Inl (auth_error ''User not found'')
        | Some u \<Rightarrow> if is_inactive (Some u) then Inl (auth_error ''Account is deactivated'')
            else Inr u)))"

text \<open>A user write and the revocation of all of the user's tokens in one transaction.\<close>

definition save_and_revoke ::
  "auth_env \<Rightarrow> int \<Rightarrow> (user \<Rightarrow> user) \<Rightarrow> instant \<Rightarrow> dbtx \<Rightarrow> (error + unit) \<times> dbtx" where
  "save_and_revoke env uid f now t = rollback_on_error
     (case save_user env uid f False t of
        (Inl e, t1) \<Rightarrow> (Inl e, t1)
      | (Inr _, t1) \<Rightarrow> (case revoke_all_for_user env uid now False t1 of
            (Inl e, t2) \<Rightarrow> (Inl e, t2)
          | (Inr _, t2) \<Rightarrow> commit_call env t2))"

definition set_password :: "string \<Rightarrow> user \<Rightarrow> user" where
  "set_password hashed u = u\<lparr>u_hashed_password := hashed, u_reset_token_hash := None,
     u_reset_token_expires_at := None\<rparr>"

definition change_password ::
  "auth_env \<Rightarrow> user \<Rightarrow> string \<Rightarrow> string \<Rightarrow> dbtx \<Rightarrow> (error + unit) \<times> dbtx" where
  "change_password env u old_password new_password t =
     (if \<not> en_verify_password env old_password (u_hashed_password u)
      then (Inl (DomainErr InvalidCredentialsError ''Current password is incorrect''), t)
      else save_and_revoke env (u_id u) (set_password (en_hash_password env new_password))
             (en_clk env 0) t)"

definition request_password_reset ::
  "auth_env \<Rightarrow> string \<Rightarrow> dbtx \<Rightarrow> (error + string option) \<times> dbtx" where
  "request_password_reset env raw_email t =
     (let user = get_by_email (normalize_email raw_email) (working t);
          raw = en_fresh_token env;
          hashed = en_hash_token env raw
      in case user of None \<Rightarrow> (Inr None, t)
       | Some u \<Rightarrow> if is_inactive user then (Inr None, t)
           else case save_user env (u_id u) (\<lambda>v. v\<lparr>u_reset_token_hash := Some hashed,
                  u_reset_token_expires_at := Some (en_clk env 0 + us_per_hour)\<rparr>) True t of
             (Inl e, t') \<Rightarrow> (Inl e, t') | (Inr _, t') \<Rightarrow> (Inr (Some raw), t'))"

definition reset_password ::
  "auth_env \<Rightarrow> string \<Rightarrow> string \<Rightarrow> dbtx \<Rightarrow> (error + unit) \<times> dbtx" where
  "reset_password env raw_token new_password t =
     (let now = en_clk env 0;
          bad = (Inl (DomainErr InvalidCredentialsError ''Invalid reset token''), t)
      in case get_by_reset_hash (en_hash_token env raw_token) (working t) of
           None \<Rightarrow> bad
         | Some u \<Rightarrow> (case u_reset_token_expires_at u of None \<Rightarrow> bad
             | Some expires \<Rightarrow> if expires < now \<or> is_inactive (Some u) then bad
                 else save_and_revoke env (u_id u)
                        (set_password (en_hash_password env new_password)) now t))"

definition set_active :: "auth_env \<Rightarrow> int \<Rightarrow> bool \<Rightarrow> dbtx \<Rightarrow> (error + unit) \<times> dbtx" where
  "set_active env uid active t = (case get_user uid (working t) of
      None \<Rightarrow> (Inl (DomainErr NotFoundError ''User not found''), t)
    | Some u \<Rightarrow> if active then save_user env uid (u_is_active_update (\<lambda>_. active)) True t
        else save_and_revoke env uid (u_is_active_update (\<lambda>_. active)) (en_clk env 0) t)"

section \<open>Request dependencies\<close>

definition get_current_user :: "auth_env \<Rightarrow> string option \<Rightarrow> db \<Rightarrow> error + user" where
  "get_current_user env credentials d = (case credentials of
      None \<Rightarrow> Inl (auth_error ''Not authenticated'')
    | Some token \<Rightarrow> get_authenticated_user env token d)"

definition get_current_admin :: "auth_env \<Rightarrow> string option \<Rightarrow> db \<Rightarrow> error + user" where
  "get_current_admin env credentials d = (case get_current_user env credentials d of
      Inl e \<Rightarrow> Inl e
    | Inr u \<Rightarrow> if \<not> u_is_admin u
        then Inl (DomainErr AuthorizationError ''Admin privileges required'') else Inr u)"

definition set_user_active_route ::
  "auth_env \<Rightarrow> string option \<Rightarrow> int \<Rightarrow> bool \<Rightarrow> dbtx \<Rightarrow> (error + unit) \<times> dbtx" where
  "set_user_active_route env credentials uid active t =
     (case get_current_admin env credentials (working t) of
        Inl e \<Rightarrow> (Inl e, t) | Inr _ \<Rightarrow> set_active env uid active t)"

definition set_user_tier_route ::
  "auth_env \<Rightarrow> int \<Rightarrow> date \<Rightarrow> string option \<Rightarrow> int \<Rightarrow> string \<Rightarrow> dbtx
   \<Rightarrow> (error + subscription_out) \<times> dbtx" where
  "set_user_tier_route env free_daily today credentials uid tier t =
     (case get_current_admin env credentials (working t) of
        Inl e \<Rightarrow> (Inl e, t)
      | Inr _ \<Rightarrow> if tier \<notin> {TIER_FREE, TIER_PREMIUM} then (Inl (RequestValidationErr []), t)
          else case set_tier uid tier t of
             (Inl e, t') \<Rightarrow> (Inl e, t')
           | (Inr u, t') \<Rightarrow> (Inr (to_out (subscription_of free_daily today u)), t'))"

definition get_my_subscription_route ::
  "auth_env \<Rightarrow> int \<Rightarrow> date \<Rightarrow> string option \<Rightarrow> db \<Rightarrow> error + subscription_out" where
  "get_my_subscription_route env free_daily today credentials d =
     (case get_current_user env credentials d of Inl e \<Rightarrow> Inl e
      | Inr u \<Rightarrow> Inr (to_out (subscription_of free_daily today u)))"

end
