(* ===== verification/AuthProps.thy ===== *)
theory AuthProps
  imports Auth
begin

text \<open>
  Correctness of the authentication service: failures are atomic whatever repository call raises,
  refresh tokens rotate and never come back to life, the reuse of a rotated token revokes the family,
  and deactivation, password change and reset cut every existing session.
\<close>

section \<open>The operations as one type\<close>

datatype auth_op =
    OpRegister string string string
  | OpLogin string string
  | OpRefresh string
  | OpLogout string
  | OpChangePassword int string string
  | OpRequestReset string
  | OpResetPassword string string
  | OpSetActive int bool

definition drop_result :: "(error + 'a) \<times> dbtx \<Rightarrow> (error + unit) \<times> dbtx" where
  "drop_result x = (case x of (Inl e, t) \<Rightarrow> (Inl e, t) | (Inr _, t) \<Rightarrow> (Inr (), t))"

fun run_auth :: "auth_env \<Rightarrow> auth_op \<Rightarrow> dbtx \<Rightarrow> (error + unit) \<times> dbtx" where
  "run_auth env (OpRegister email pw lang) t = drop_result (register env email pw lang t)"
| "run_auth env (OpLogin email pw) t = drop_result (login env email pw t)"
| "run_auth env (OpRefresh raw) t = drop_result (refresh env raw t)"
| "run_auth env (OpLogout raw) t = logout env raw t"
| "run_auth env (OpChangePassword uid old new) t = (case get_user uid (working t) of
      None \<Rightarrow> (Inl (auth_error ''User not found''), t)
    | Some u \<Rightarrow> change_password env u old new t)"
| "run_auth env (OpRequestReset email) t = drop_result (request_password_reset env email t)"
| "run_auth env (OpResetPassword raw new) t = reset_password env raw new t"
| "run_auth env (OpSetActive uid active) t = set_active env uid active t"

section \<open>Laws of the tables\<close>

interpretation token_table: seq_table refresh_tokens refresh_tokens_update rt_id seq_tokens insert_token
  by unfold_locales (auto simp: insert_token_def)

interpretation user_table: seq_table users users_update u_id seq_users insert_user
  by unfold_locales (auto simp: insert_user_def)

definition tokens_ok :: "db \<Rightarrow> bool" where
  "tokens_ok d \<longleftrightarrow> unique_on rt_token_hash (refresh_tokens d) \<and> token_table.keys_ok d"

lemma set_revoked_sel [simp]:
  "rt_id (set_revoked now r) = rt_id r" "rt_user_id (set_revoked now r) = rt_user_id r"
  "rt_token_hash (set_revoked now r) = rt_token_hash r"
  "rt_expires_at (set_revoked now r) = rt_expires_at r"
  "rt_revoked_at (set_revoked now r) = Some (utc now)"
  by (simp_all add: set_revoked_def)

lemma set_password_sel [simp]:
  "u_id (set_password h u) = u_id u" "u_email (set_password h u) = u_email u"
  "u_is_active (set_password h u) = u_is_active u" "u_hashed_password (set_password h u) = h"
  "u_reset_token_hash (set_password h u) = None"
  by (simp_all add: set_password_def)

lemma get_by_hash_SomeD:
  "get_by_hash h d = Some r \<Longrightarrow> r \<in> set (refresh_tokens d) \<and> rt_token_hash r = h"
  by (auto simp: get_by_hash_def dest: find_SomeD)

lemma get_by_hash_NoneD:
  "get_by_hash h d = None \<Longrightarrow> h \<notin> rt_token_hash ` set (refresh_tokens d)"
  by (auto simp: get_by_hash_def find_None_conv)

lemma get_by_hash_eq:
  "tokens_ok d \<Longrightarrow> r \<in> set (refresh_tokens d) \<Longrightarrow> get_by_hash (rt_token_hash r) d = Some r"
  unfolding get_by_hash_def tokens_ok_def by (rule find_unique [of rt_token_hash]) auto

lemma refresh_tokens_put_user [simp]:
  "get_by_hash h (put_user uid f d) = get_by_hash h d"
  by (simp add: get_by_hash_def)

lemma revoke_all_rows_frame [simp]:
  "users (revoke_all_rows uid now d) = users d" "get_user v (revoke_all_rows uid now d) = get_user v d"
  "seq_tokens (revoke_all_rows uid now d) = seq_tokens d"
  "get_by_email email (revoke_all_rows uid now d) = get_by_email email d"
  by (simp_all add: revoke_all_rows_def get_user_def get_by_email_def)

lemma refresh_tokens_revoke_all:
  "refresh_tokens (revoke_all_rows uid now d)
   = update_where (\<lambda>r. rt_user_id r = uid \<and> rt_revoked_at r = None) (set_revoked now) (refresh_tokens d)"
  by (simp add: revoke_all_rows_def)

definition no_live_token :: "int \<Rightarrow> db \<Rightarrow> bool" where
  "no_live_token uid d \<longleftrightarrow> (\<forall>r \<in> set (refresh_tokens d). rt_user_id r = uid \<longrightarrow> rt_revoked_at r \<noteq> None)"

lemma no_live_token_revoke_all: "no_live_token uid (revoke_all_rows uid now d)"
  by (auto simp: no_live_token_def refresh_tokens_revoke_all elim!: in_update_whereE split: if_splits)

lemma no_live_token_put_user [simp]: "no_live_token uid (put_user v f d) = no_live_token uid d"
  by (simp add: no_live_token_def)

lemma revoke_all_other_users:
  "filter (\<lambda>r. rt_user_id r \<noteq> uid) (refresh_tokens (revoke_all_rows uid now d))
   = filter (\<lambda>r. rt_user_id r \<noteq> uid) (refresh_tokens d)"
  unfolding refresh_tokens_revoke_all by (rule filter_update_where_frame) auto

section \<open>Failures are atomic\<close>

lemma rollback_on_error_committed [simp]:
  "committed (snd (rollback_on_error x)) = committed (snd x)"
  by (auto simp: rollback_on_error_def split: prod.splits sum.splits)

lemma rollback_on_error_fst [simp]: "fst (rollback_on_error x) = fst x"
  by (auto simp: rollback_on_error_def split: prod.splits sum.splits)

lemma rollback_on_error_Inr:
  "rollback_on_error x = (Inr a, t) \<longleftrightarrow> x = (Inr a, t)"
  by (auto simp: rollback_on_error_def split: prod.splits sum.splits)

lemma drop_result_eq [simp]:
  "drop_result x = (Inl e, t) \<longleftrightarrow> x = (Inl e, t)"
  "drop_result x = (Inr u, t) \<longleftrightarrow> (\<exists>a. x = (Inr a, t))"
  by (auto simp: drop_result_def split: prod.splits sum.splits)

lemma create_token_Inl:
  "create_token env uid h x c t = (Inl e, t') \<Longrightarrow> t' = t"
  by (auto simp: create_token_def Let_def split: option.splits if_splits)

lemma issue_tokens_Inl: "issue_tokens env u c t = (Inl e, t') \<Longrightarrow> t' = t"
  by (auto simp: issue_tokens_def split: prod.splits sum.splits dest: create_token_Inl)

lemma save_user_Inl: "save_user env uid f c t = (Inl e, t') \<Longrightarrow> t' = t"
  by (auto simp: save_user_def Let_def split: option.splits)

lemma revoke_Inl: "revoke env r now c t = (Inl e, t') \<Longrightarrow> t' = t"
  by (auto simp: revoke_def Let_def split: option.splits)

lemma create_user_committed: "create_user env e h l False t = (x, t') \<Longrightarrow> committed t' = committed t"
  by (auto simp: create_user_def Let_def split: option.splits error.splits if_splits)

lemma register_Inl: "register env e p l t = (Inl x, t') \<Longrightarrow> committed t' = committed t"
  by (auto simp: register_def rollback_on_error_def Let_def
      split: prod.splits sum.splits if_splits dest!: create_user_committed issue_tokens_Inl)

lemma login_Inl: "login env e p t = (Inl x, t') \<Longrightarrow> committed t' = committed t"
  by (auto simp: login_def Let_def split: option.splits if_splits dest: issue_tokens_Inl)

lemma save_and_revoke_Inl:
  "save_and_revoke env uid f now t = (Inl x, t') \<Longrightarrow> committed t' = committed t"
  by (auto simp: save_and_revoke_def rollback_on_error_def save_user_def revoke_all_for_user_def
      commit_call_def Let_def split: prod.splits sum.splits option.splits)

lemma save_and_revoke_Inr:
  "save_and_revoke env uid f now t = (Inr x, t') \<Longrightarrow>
   committed t' = revoke_all_rows uid now (put_user uid f (working t))"
  by (auto simp: save_and_revoke_def rollback_on_error_def save_user_def revoke_all_for_user_def
      commit_call_def Let_def split: prod.splits sum.splits option.splits)

lemma rotate_Inl: "rotate env rec u t = (Inl x, t') \<Longrightarrow> committed t' = committed t"
  by (auto simp: rotate_def revoke_def issue_tokens_def create_token_def commit_call_def Let_def
      split: prod.splits sum.splits option.splits if_splits)

lemma refresh_Inl:
  assumes "refresh env raw t = (Inl x, t')"
  shows "committed t' = committed t \<or>
    (\<exists>rec rv. get_by_hash (en_hash_token env raw) (working t) = Some rec \<and> rt_revoked_at rec = Some rv
      \<and> reuse_detected env rec rv
      \<and> committed t' = revoke_all_rows (rt_user_id rec) (en_clk env 0) (working t))"
  using assms
  by (auto simp: refresh_def rollback_on_error_def revoke_all_for_user_def Let_def
      split: prod.splits sum.splits option.splits if_splits dest: rotate_Inl)

lemma auth_failure_cases:
  assumes "run_auth env op (tx_begin d) = (Inl e, t)"
  shows "committed t = d \<or>
    (\<exists>raw rec rv. op = OpRefresh raw \<and> get_by_hash (en_hash_token env raw) d = Some rec
      \<and> rt_revoked_at rec = Some rv \<and> reuse_detected env rec rv
      \<and> committed t = revoke_all_rows (rt_user_id rec) (en_clk env 0) d)"
proof (cases op)
  case (OpRefresh raw)
  then show ?thesis using assms refresh_Inl [of env raw "tx_begin d"] by auto
next
  case (OpChangePassword uid old new)
  then show ?thesis using assms
    by (auto simp: change_password_def split: option.splits if_splits dest: save_and_revoke_Inl)
next
  case (OpResetPassword raw new)
  then show ?thesis using assms
    by (auto simp: reset_password_def Let_def split: option.splits if_splits dest: save_and_revoke_Inl)
next
  case (OpSetActive uid active)
  then show ?thesis using assms
    by (auto simp: set_active_def split: option.splits if_splits
        dest: save_and_revoke_Inl save_user_Inl)
next
  case (OpRequestReset email)
  then show ?thesis using assms
    by (auto simp: request_password_reset_def Let_def
        split: option.splits if_splits prod.splits sum.splits dest: save_user_Inl)
next
  case (OpLogout raw)
  then show ?thesis using assms
    by (auto simp: logout_def split: option.splits if_splits dest: revoke_Inl)
next
  case (OpRegister email pw lang)
  then show ?thesis using assms by (auto dest: register_Inl)
next
  case (OpLogin email pw)
  then show ?thesis using assms by (auto dest: login_Inl)
qed


text \<open>A concrete environment for the witnesses: no faults, transparent digests.\<close>

definition demo_env :: auth_env where
  "demo_env = \<lparr>en_hash_password = (\<lambda>p. CHR ''#'' # p),
     en_verify_password = (\<lambda>p h. h = CHR ''#'' # p), en_dummy_hash = ''dummy'',
     en_hash_token = (\<lambda>r. CHR ''h'' # r), en_fresh_token = ''new'', en_access_token = (\<lambda>s. s),
     en_decode = Some, en_clk = (\<lambda>_. 100 * us_per_second), en_fault = (\<lambda>_. None),
     en_refresh_ttl_days = 30, en_reuse_grace_seconds = 30\<rparr>"

definition live_token :: refresh_token where
  "live_token = \<lparr>rt_id = 1, rt_user_id = 1, rt_token_hash = ''hold'',
     rt_expires_at = utc (us_per_day), rt_revoked_at = None\<rparr>"

definition auth_db :: db where
  "auth_db = empty_db\<lparr>users := [new_user 1 ''a@b.c'' ''#pw'' ''fr''], seq_users := 2,
     refresh_tokens := [live_token], seq_tokens := 2\<rparr>"

definition rotated_db :: db where
  "rotated_db = auth_db\<lparr>refresh_tokens := [live_token\<lparr>rt_revoked_at := Some (utc 0)\<rparr>]\<rparr>"


section \<open>Rotation\<close>

definition rotated_token :: "auth_env \<Rightarrow> int \<Rightarrow> int \<Rightarrow> refresh_token" where
  "rotated_token env tid uid = \<lparr>rt_id = tid, rt_user_id = uid,
     rt_token_hash = en_hash_token env (en_fresh_token env),
     rt_expires_at = utc (en_clk env 1 + en_refresh_ttl_days env * us_per_day),
     rt_revoked_at = None\<rparr>"

lemma issue_tokens_Inr:
  assumes "issue_tokens env u c t = (Inr res, t')"
  shows "res = \<lparr>ar_user = u, ar_access_token = en_access_token env (py_str_int (u_id u)),
      ar_refresh_token = en_fresh_token env\<rparr>"
    and "get_by_hash (en_hash_token env (en_fresh_token env)) (working t) = None"
    and "working t' = insert_token (rotated_token env (seq_tokens (working t)) (u_id u)) (working t)"
    and "committed t' = (if c then working t' else committed t)"
  using assms
  by (auto simp: issue_tokens_def create_token_def rotated_token_def Let_def
      split: prod.splits sum.splits option.splits if_splits)

lemma rotate_Inr:
  assumes "rotate env rec u t = (Inr res, t')"
  shows "ar_user res = u" "ar_refresh_token res = en_fresh_token env"
    and "get_by_hash (en_hash_token env (en_fresh_token env)) (working t) = None"
    and "committed t' = insert_token (rotated_token env (seq_tokens (working t)) (u_id u))
      (refresh_tokens_update (update_where (\<lambda>r. rt_id r = rt_id rec) (set_revoked (en_clk env 0))) (working t))"
proof -
  let ?t1 = "tx_modify (refresh_tokens_update
    (update_where (\<lambda>r. rt_id r = rt_id rec) (set_revoked (en_clk env 0)))) t"
  obtain t2 where i: "issue_tokens env u False ?t1 = (Inr res, t2)" and c: "committed t' = working t2"
    using assms by (auto simp: rotate_def revoke_def commit_call_def Let_def
        split: prod.splits sum.splits option.splits)
  note iss = issue_tokens_Inr [OF i]
  show "ar_user res = u" "ar_refresh_token res = en_fresh_token env" by (simp_all add: iss(1))
  have "find (\<lambda>r. rt_token_hash r = h) (update_where p (set_revoked now) rows) = None \<Longrightarrow>
      find (\<lambda>r. rt_token_hash r = h) rows = None" for h p now rows
    by (simp add: find_update_where_same)
  then show "get_by_hash (en_hash_token env (en_fresh_token env)) (working t) = None"
    using iss(2) unfolding get_by_hash_def by force
  show "committed t' = insert_token (rotated_token env (seq_tokens (working t)) (u_id u))
      (refresh_tokens_update (update_where (\<lambda>r. rt_id r = rt_id rec) (set_revoked (en_clk env 0))) (working t))"
    using iss(3) c by simp
qed

lemma refresh_Inr:
  assumes "refresh env raw t = (Inr res, t')"
  obtains rec u where "get_by_hash (en_hash_token env raw) (working t) = Some rec"
    "rt_revoked_at rec = None" "en_clk env 0 < instant (aware (rt_expires_at rec))"
    "get_user (rt_user_id rec) (working t) = Some u" "u_is_active u"
    "rotate env rec u t = (Inr res, t')"
  using assms
  by (auto simp: refresh_def rollback_on_error_def revoke_all_for_user_def is_inactive_def Let_def not_le
      split: prod.splits sum.splits option.splits if_splits)

lemma refresh_revoked_fails:
  assumes "get_by_hash (en_hash_token env raw) d = Some rec" "rt_revoked_at rec \<noteq> None"
  shows "\<exists>e. fst (refresh env raw (tx_begin d)) = Inl e"
  using assms
  by (auto simp: refresh_def revoke_all_for_user_def Let_def split: option.splits)

text \<open>C1: A refresh rotates: a successful refresh was given a live, unexpired token of an active account;
  afterwards that token is revoked at the time of the refresh, the token handed out is stored (as its
  digest) live for the same account with the full lifetime, every other token is as it was, and
  presenting the old token again, at any time and in any circumstance, is refused.\<close>

theorem refresh_rotates:
  assumes "tokens_ok d" "refresh env raw (tx_begin d) = (Inr res, t)"
    and "en_hash_token env' = en_hash_token env"
  shows "\<exists>rec. get_by_hash (en_hash_token env raw) d = Some rec \<and> rt_revoked_at rec = None
    \<and> en_clk env 0 < instant (aware (rt_expires_at rec)) \<and> u_is_active (ar_user res)
    \<and> u_id (ar_user res) = rt_user_id rec
    \<and> get_by_hash (en_hash_token env raw) (committed t) = Some (set_revoked (en_clk env 0) rec)
    \<and> get_by_hash (en_hash_token env (ar_refresh_token res)) (committed t)
        = Some (rotated_token env (seq_tokens d) (rt_user_id rec))
    \<and> (\<forall>h. h = en_hash_token env raw \<or> h = en_hash_token env (ar_refresh_token res)
         \<or> get_by_hash h (committed t) = get_by_hash h d)
    \<and> (\<exists>e. fst (refresh env' raw (tx_begin (committed t))) = Inl e)"
  using assms(2)
proof (rule refresh_Inr)
  fix rec u
  assume rec: "get_by_hash (en_hash_token env raw) (working (tx_begin d)) = Some rec"
      "rt_revoked_at rec = None" "en_clk env 0 < instant (aware (rt_expires_at rec))"
    and u: "get_user (rt_user_id rec) (working (tx_begin d)) = Some u" "u_is_active u"
    and rot: "rotate env rec u (tx_begin d) = (Inr res, t)"
  note r = rotate_Inr [OF rot, unfolded tx_begin_sel]
  let ?new = "rotated_token env (seq_tokens d) (rt_user_id rec)"
  let ?old = "set_revoked (en_clk env 0)"
  have m: "rec \<in> set (refresh_tokens d)" "rt_token_hash rec = en_hash_token env raw"
    using get_by_hash_SomeD [of "en_hash_token env raw" d rec] rec(1) by auto
  have uid: "u_id u = rt_user_id rec" using get_user_SomeD u(1) by auto
  have upd: "find (\<lambda>x. rt_token_hash x = h) (update_where (\<lambda>r. rt_id r = rt_id rec) ?old (refresh_tokens d))
      = map_option (\<lambda>x. if rt_id x = rt_id rec then ?old x else x) (get_by_hash h d)" for h
    by (simp add: find_update_where_same get_by_hash_def)
  have same: "x = rec" if "get_by_hash h d = Some x" "rt_id x = rt_id rec" for h x
    using that m assms(1) unique_on_eq [of rt_id "refresh_tokens d" x rec] get_by_hash_SomeD [of h d x]
    by (auto simp: tokens_ok_def token_table.keys_ok_def)
  have get: "get_by_hash h (committed t) = (case get_by_hash h d of
      None \<Rightarrow> if h = rt_token_hash ?new then Some ?new else None
    | Some x \<Rightarrow> Some (if x = rec then ?old x else x))" for h
    unfolding r(4) uid using upd [of h] same [of h]
    by (cases "get_by_hash h d")
      (auto simp: get_by_hash_def insert_token_def find_append_None find_append_Some)
  have new: "rt_token_hash ?new = en_hash_token env (ar_refresh_token res)"
    by (simp add: rotated_token_def r(2))
  have old: "get_by_hash (en_hash_token env raw) (committed t) = Some (?old rec)"
    using get rec(1) by simp
  have "get_by_hash h (committed t) = get_by_hash h d"
    if "h \<noteq> en_hash_token env raw" "h \<noteq> en_hash_token env (ar_refresh_token res)" for h
    using that get [of h] new m get_by_hash_SomeD [of h d rec] by (auto split: option.splits)
  moreover have "get_by_hash (en_hash_token env (ar_refresh_token res)) (committed t) = Some ?new"
    using get r(3) new by (simp add: r(2))
  moreover have "\<exists>e. fst (refresh env' raw (tx_begin (committed t))) = Inl e"
    using refresh_revoked_fails [of env' raw "committed t" "?old rec"] old assms(3) by simp
  ultimately show ?thesis using rec u uid old r(1) by auto
qed

lemma tokens_ok_auth_db: "tokens_ok auth_db"
  by (simp add: tokens_ok_def token_table.keys_ok_def auth_db_def live_token_def unique_on_def)

theorem refresh_rotates_witness:
  "\<exists>res t. refresh demo_env ''old'' (tx_begin auth_db) = (Inr res, t) \<and> ar_refresh_token res = ''new''
    \<and> get_by_hash ''hold'' (committed t) = Some (set_revoked (100 * us_per_second) live_token)
    \<and> (\<exists>e. fst (refresh demo_env ''old'' (tx_begin (committed t))) = Inl e)"
proof -
  obtain res t where r: "refresh demo_env ''old'' (tx_begin auth_db) = (Inr res, t)"
      "ar_refresh_token res = ''new''"
    by (simp add: refresh_def rollback_on_error_def demo_env_def auth_db_def
        get_by_hash_def live_token_def aware_def utc_def instant_def get_user_def new_user_def
        is_inactive_def rotate_def revoke_def issue_tokens_def create_token_def commit_call_def Let_def)
  have h: "en_hash_token demo_env ''old'' = ''hold''" "en_clk demo_env 0 = 100 * us_per_second"
      "get_by_hash ''hold'' auth_db = Some live_token"
    by (simp_all add: demo_env_def get_by_hash_def auth_db_def live_token_def)
  show ?thesis
    using refresh_rotates [OF tokens_ok_auth_db r(1) refl] r unfolding h by auto
qed

text \<open>C2: Presenting a token that was already rotated is refused, and tells theft from a retry: within the
  grace window nothing changes; past it, every token of the account is revoked and that revocation is
  committed although the request fails, while the tokens of other accounts are untouched.\<close>

theorem refresh_reuse_detection:
  assumes "get_by_hash (en_hash_token env raw) d = Some rec" "rt_revoked_at rec = Some rv"
    and "en_fault env RevokeAll = None"
  shows "\<exists>t. refresh env raw (tx_begin d) = (Inl (invalid_refresh ''Invalid refresh token''), t)
    \<and> (if en_clk env 0 - instant rv > en_reuse_grace_seconds env * us_per_second
       then no_live_token (rt_user_id rec) (committed t)
          \<and> filter (\<lambda>r. rt_user_id r \<noteq> rt_user_id rec) (refresh_tokens (committed t))
            = filter (\<lambda>r. rt_user_id r \<noteq> rt_user_id rec) (refresh_tokens d)
       else committed t = d)"
proof -
  have "instant (aware rv) = instant rv" by (simp add: aware_def instant_def)
  then show ?thesis
    using assms no_live_token_revoke_all [of "rt_user_id rec" "en_clk env 0" d]
      revoke_all_other_users [of "rt_user_id rec" "en_clk env 0" d]
    by (simp add: refresh_def rollback_on_error_def reuse_detected_def revoke_all_for_user_def)
qed

theorem refresh_reuse_detection_witness:
  "\<exists>t. refresh demo_env ''old'' (tx_begin rotated_db)
        = (Inl (invalid_refresh ''Invalid refresh token''), t) \<and> no_live_token 1 (committed t)"
proof -
  let ?rec = "live_token\<lparr>rt_revoked_at := Some (utc 0)\<rparr>"
  have p: "get_by_hash (en_hash_token demo_env ''old'') rotated_db = Some ?rec"
      "rt_revoked_at ?rec = Some (utc 0)" "en_fault demo_env RevokeAll = None"
    by (simp_all add: demo_env_def rotated_db_def get_by_hash_def live_token_def)
  show ?thesis using refresh_reuse_detection [OF p] by (auto simp: demo_env_def live_token_def)
qed

section \<open>Tokens are never resurrected\<close>

text \<open>What one operation may do to the table: stamp live rows as revoked, and append one live row under
  a digest that was not in use.\<close>

definition tokens_evolve :: "refresh_token list \<Rightarrow> refresh_token list \<Rightarrow> bool" where
  "tokens_evolve ts ts' \<longleftrightarrow> (\<exists>p now new. ts' = update_where (\<lambda>r. p r \<and> rt_revoked_at r = None) (set_revoked now) ts @ new
     \<and> (\<forall>n \<in> set new. rt_token_hash n \<notin> rt_token_hash ` set ts) \<and> unique_on rt_token_hash new)"

lemma tokens_evolve_refl [simp]: "tokens_evolve ts ts"
  unfolding tokens_evolve_def by (rule exI [of _ "\<lambda>_. False"]) (auto simp: update_where_def)

lemma tokens_evolve_revoke:
  "tokens_evolve ts (update_where (\<lambda>r. p r \<and> rt_revoked_at r = None) (set_revoked now) ts)"
  unfolding tokens_evolve_def by (rule exI [of _ p], rule exI [of _ now], rule exI [of _ "[]"]) simp

lemma tokens_evolve_insert:
  "rt_token_hash n \<notin> rt_token_hash ` set ts \<Longrightarrow> tokens_evolve ts (ts @ [n])"
  unfolding tokens_evolve_def
  by (rule exI [of _ "\<lambda>_. False"]) (auto simp: update_where_def unique_on_def intro!: exI [of _ "[n]"])

lemma tokens_evolve_keeps_revoked:
  "tokens_evolve ts ts' \<Longrightarrow> r \<in> set ts \<Longrightarrow> rt_revoked_at r \<noteq> None \<Longrightarrow> r \<in> set ts'"
  by (auto simp: tokens_evolve_def table_simps)

lemma tokens_evolve_unique:
  assumes "tokens_evolve ts ts'" "unique_on rt_token_hash ts"
  shows "unique_on rt_token_hash ts'"
proof -
  obtain p now new where ts': "ts' = update_where (\<lambda>r. p r \<and> rt_revoked_at r = None) (set_revoked now) ts @ new"
    and fresh: "\<forall>n \<in> set new. rt_token_hash n \<notin> rt_token_hash ` set ts" "unique_on rt_token_hash new"
    using assms(1) unfolding tokens_evolve_def by blast
  let ?u = "update_where (\<lambda>r. p r \<and> rt_revoked_at r = None) (set_revoked now) ts"
  have m: "map rt_token_hash ?u = map rt_token_hash ts" by (rule map_update_where) simp
  have "rt_token_hash a \<noteq> rt_token_hash n" if "a \<in> set ts" "n \<in> set new" for a n
    using fresh(1) that imageI [of a "set ts" rt_token_hash] by metis
  then have "set (map rt_token_hash ts) \<inter> set (map rt_token_hash new) = {}" by auto
  then show ?thesis using assms(2) fresh(2) m unfolding ts' unique_on_def map_append distinct_append
    by simp
qed

lemma revoke_by_id_evolve:
  assumes "unique_on rt_id ts" "rec \<in> set ts" "rt_revoked_at rec = None"
  shows "update_where (\<lambda>r. rt_id r = rt_id rec) f ts
    = update_where (\<lambda>r. rt_id r = rt_id rec \<and> rt_revoked_at r = None) f ts"
  using assms unique_on_eq [of rt_id ts _ rec] by (fastforce simp: update_where_def)

lemma keys_ok_update_tokens:
  assumes "token_table.keys_ok d" "\<And>r. rt_id (f r) = rt_id r"
  shows "token_table.keys_ok (refresh_tokens_update (update_where p f) d)"
  using assms
  by (auto simp: token_table.keys_ok_def unique_on_update_where elim!: in_update_whereE)

lemma keys_ok_frame:
  "refresh_tokens d' = refresh_tokens d \<Longrightarrow> seq_tokens d' = seq_tokens d \<Longrightarrow>
   token_table.keys_ok d' = token_table.keys_ok d"
  by (simp add: token_table.keys_ok_def)

text \<open>One step from a well-formed table.\<close>

definition token_step :: "db \<Rightarrow> db \<Rightarrow> bool" where
  "token_step d d' \<longleftrightarrow> tokens_evolve (refresh_tokens d) (refresh_tokens d') \<and> token_table.keys_ok d'"

lemma token_step_frame:
  "tokens_ok d \<Longrightarrow> refresh_tokens d' = refresh_tokens d \<Longrightarrow> seq_tokens d' = seq_tokens d \<Longrightarrow> token_step d d'"
  using keys_ok_frame [of d' d] by (simp add: token_step_def tokens_ok_def)

lemma token_step_insert:
  assumes "tokens_ok d" "get_by_hash (rt_token_hash n) d = None" "rt_id n = seq_tokens d"
    and "refresh_tokens d' = refresh_tokens d" "seq_tokens d' = seq_tokens d"
  shows "token_step d (insert_token n d')"
proof -
  have "token_table.keys_ok d'"
    using assms(1) keys_ok_frame [OF assms(4,5)] by (simp add: tokens_ok_def)
  then have "token_table.keys_ok (insert_token n d')"
    using assms(3,5) by (intro token_table.keys_ok_ins) auto
  moreover have "tokens_evolve (refresh_tokens d) (refresh_tokens (insert_token n d'))"
    using get_by_hash_NoneD [OF assms(2)] assms(4) by (simp add: tokens_evolve_insert)
  ultimately show ?thesis by (simp add: token_step_def)
qed

lemma token_step_revoke_all:
  "tokens_ok d \<Longrightarrow> token_step d (revoke_all_rows uid now (put_user v f d))"
proof -
  assume ok: "tokens_ok d"
  have "token_table.keys_ok (revoke_all_rows uid now (put_user v f d))"
    unfolding revoke_all_rows_def
    by (rule keys_ok_update_tokens)
      (use ok keys_ok_frame [of "put_user v f d" d] in \<open>simp_all add: tokens_ok_def\<close>)
  then show ?thesis
    by (simp add: token_step_def refresh_tokens_revoke_all tokens_evolve_revoke)
qed

lemma token_step_revoke:
  assumes "tokens_ok d" "rec \<in> set (refresh_tokens d)" "rt_revoked_at rec = None"
  shows "token_step d (refresh_tokens_update
    (update_where (\<lambda>r. rt_id r = rt_id rec) (set_revoked now)) d)"
proof -
  have u: "unique_on rt_id (refresh_tokens d)" "token_table.keys_ok d"
    using assms(1) by (simp_all add: tokens_ok_def token_table.keys_ok_unique)
  show ?thesis unfolding token_step_def
    using keys_ok_update_tokens [OF u(2), of "set_revoked now"] tokens_evolve_revoke
    by (simp add: revoke_by_id_evolve [OF u(1) assms(2,3)])
qed

lemma token_step_rotate:
  assumes ok: "tokens_ok d" and r: "rec \<in> set (refresh_tokens d)" "rt_revoked_at rec = None"
    and n: "get_by_hash (rt_token_hash n) d = None" "rt_id n = seq_tokens d"
  shows "token_step d (insert_token n (refresh_tokens_update
    (update_where (\<lambda>r. rt_id r = rt_id rec) (set_revoked now)) d))"
proof -
  have u: "unique_on rt_id (refresh_tokens d)" "token_table.keys_ok d"
    using ok by (simp_all add: tokens_ok_def token_table.keys_ok_unique)
  have "token_table.keys_ok (insert_token n (refresh_tokens_update
      (update_where (\<lambda>r. rt_id r = rt_id rec) (set_revoked now)) d))"
    by (rule token_table.keys_ok_ins) (simp_all add: keys_ok_update_tokens u n)
  moreover have "tokens_evolve (refresh_tokens d)
      (update_where (\<lambda>r. rt_id r = rt_id rec) (set_revoked now) (refresh_tokens d) @ [n])"
    unfolding tokens_evolve_def revoke_by_id_evolve [OF u(1) r]
    by (rule exI [of _ "\<lambda>r. rt_id r = rt_id rec"], rule exI [of _ now], rule exI [of _ "[n]"])
      (use get_by_hash_NoneD [OF n(1)] in \<open>simp add: unique_on_def\<close>)
  ultimately show ?thesis by (simp add: token_step_def)
qed

lemma put_user_token_frame [simp]:
  "get_by_hash h (insert_user u d) = get_by_hash h d"
  "refresh_tokens (insert_user u d) = refresh_tokens d" "seq_tokens (insert_user u d) = seq_tokens d"
  by (simp_all add: insert_user_def get_by_hash_def)

lemma rotated_token_sel [simp]:
  "rt_token_hash (rotated_token env i u) = en_hash_token env (en_fresh_token env)"
  "rt_id (rotated_token env i u) = i" "rt_user_id (rotated_token env i u) = u"
  "rt_revoked_at (rotated_token env i u) = None"
  by (simp_all add: rotated_token_def)

lemma create_user_Inr:
  "create_user env e h l False t = (Inr u, t') \<Longrightarrow>
   u = new_user (seq_users (working t)) e h l \<and> working t' = insert_user u (working t)
   \<and> \<not> email_taken e (working t)"
  by (auto simp: create_user_def Let_def split: option.splits error.splits if_splits)

lemma register_Inr:
  assumes "register env e p l t = (Inr res, t')"
  obtains u t1 where "create_user env (normalize_email e) (en_hash_password env p) l False t = (Inr u, t1)"
    "issue_tokens env u True t1 = (Inr res, t')" "get_by_email (normalize_email e) (working t) = None"
  using assms
  by (auto simp: register_def rollback_on_error_Inr Let_def split: prod.splits sum.splits if_splits)

lemma login_Inr:
  assumes "login env e p t = (Inr res, t')"
  obtains u where "get_by_email (normalize_email e) (working t) = Some u" "u_is_active u"
    "en_verify_password env p (u_hashed_password u)" "issue_tokens env u True t = (Inr res, t')"
  using assms by (auto simp: login_def is_inactive_def Let_def split: option.splits if_splits)

lemma token_step_issue:
  assumes "tokens_ok d" "issue_tokens env u True t = (Inr res, t')"
    and "refresh_tokens (working t) = refresh_tokens d" "seq_tokens (working t) = seq_tokens d"
  shows "token_step d (committed t')"
  using issue_tokens_Inr [OF assms(2)] assms
  by (auto intro!: token_step_insert simp: get_by_hash_def)

lemma run_auth_token_step:
  assumes ok: "tokens_ok d" and run: "run_auth env op (tx_begin d) = (Inr x, t)"
  shows "token_step d (committed t)"
proof (cases op)
  case (OpRegister e p l)
  then obtain res where "register env e p l (tx_begin d) = (Inr res, t)" using run by auto
  then show ?thesis
    by (rule register_Inr) (auto intro!: token_step_issue [OF ok] dest: create_user_Inr)
next
  case (OpLogin e p)
  then obtain res where "login env e p (tx_begin d) = (Inr res, t)" using run by auto
  then show ?thesis by (rule login_Inr) (auto intro!: token_step_issue [OF ok])
next
  case (OpRefresh raw)
  then obtain res where "refresh env raw (tx_begin d) = (Inr res, t)" using run by auto
  then show ?thesis
  proof (rule refresh_Inr)
    fix rec u
    assume rec: "get_by_hash (en_hash_token env raw) (working (tx_begin d)) = Some rec"
      "rt_revoked_at rec = None" and rot: "rotate env rec u (tx_begin d) = (Inr res, t)"
    show ?thesis using rotate_Inr [OF rot] rec get_by_hash_SomeD [of _ d rec]
      by (auto intro!: token_step_rotate [OF ok])
  qed
next
  case (OpLogout raw)
  then show ?thesis using run token_step_frame [OF ok]
    by (auto simp: logout_def revoke_def Let_def split: option.splits if_splits
        dest!: get_by_hash_SomeD intro!: token_step_revoke [OF ok])
next
  case (OpChangePassword uid old new)
  then show ?thesis using run
    by (auto simp: change_password_def split: option.splits if_splits
        dest!: save_and_revoke_Inr intro!: token_step_revoke_all [OF ok])
next
  case (OpResetPassword raw new)
  then show ?thesis using run
    by (auto simp: reset_password_def Let_def split: option.splits if_splits
        dest!: save_and_revoke_Inr intro!: token_step_revoke_all [OF ok])
next
  case (OpRequestReset e)
  then show ?thesis using run
    by (auto simp: request_password_reset_def save_user_def Let_def
        split: option.splits if_splits intro!: token_step_frame [OF ok])
next
  case (OpSetActive uid active)
  then show ?thesis using run token_step_revoke_all [OF ok]
    by (cases active) (auto simp: set_active_def save_user_def Let_def token_step_frame [OF ok]
        split: option.splits dest!: save_and_revoke_Inr)
qed

text \<open>Any sequence of operations, each with its own clock, random token and faults.\<close>

inductive auth_steps :: "db \<Rightarrow> db \<Rightarrow> bool" where
  auth_refl: "auth_steps d d"
| auth_step: "auth_steps d d' \<Longrightarrow> run_auth env op (tx_begin d') = (r, t) \<Longrightarrow> auth_steps d (committed t)"

lemma run_auth_step:
  assumes "tokens_ok d" "run_auth env op (tx_begin d) = (r, t)"
  shows "token_step d (committed t)"
proof (cases r)
  case (Inl e)
  have "put_user 0 (\<lambda>u. u) d = d" by (simp add: put_user_def update_where_def)
  then show ?thesis
    using auth_failure_cases [OF assms(2) [unfolded Inl]] token_step_frame [OF assms(1)]
      token_step_revoke_all [OF assms(1), of _ _ 0 "\<lambda>u. u"] by auto
next
  case (Inr x)
  then show ?thesis using run_auth_token_step assms by blast
qed

lemma auth_steps_tokens:
  assumes "auth_steps d d'" "tokens_ok d"
  shows "tokens_ok d' \<and> (\<forall>r \<in> set (refresh_tokens d). rt_revoked_at r \<noteq> None \<longrightarrow> r \<in> set (refresh_tokens d'))"
  using assms
proof (induction rule: auth_steps.induct)
  case (auth_step d d' env op r t)
  then have ok: "tokens_ok d'" by simp
  from run_auth_step [OF ok auth_step.hyps(2)]
  have e: "tokens_evolve (refresh_tokens d') (refresh_tokens (committed t))"
    and k: "token_table.keys_ok (committed t)" by (simp_all add: token_step_def)
  then have "tokens_ok (committed t)" using ok tokens_evolve_unique [OF e] by (simp add: tokens_ok_def)
  then show ?case using auth_step.IH auth_step.prems tokens_evolve_keeps_revoked [OF e] by blast
qed simp

text \<open>C27: A revoked refresh token never comes back: after any sequence of registrations, logins, refreshes,
  log-outs, password changes, resets and (de)activations, with arbitrary clocks, random tokens and
  database failures in between, its row is still there with the same revocation stamp, and using the
  token is refused.\<close>

theorem revoked_token_stays_revoked:
  assumes "tokens_ok d" "auth_steps d d'"
    and "get_by_hash (en_hash_token env raw) d = Some r" "rt_revoked_at r \<noteq> None"
  shows "get_by_hash (en_hash_token env raw) d' = Some r \<and>
    (\<exists>e. fst (refresh env raw (tx_begin d')) = Inl e)"
proof -
  have r: "r \<in> set (refresh_tokens d)" "rt_token_hash r = en_hash_token env raw"
    using get_by_hash_SomeD [OF assms(3)] by auto
  then have "tokens_ok d'" "r \<in> set (refresh_tokens d')"
    using auth_steps_tokens [OF assms(2,1)] assms(4) by auto
  then have "get_by_hash (en_hash_token env raw) d' = Some r" using get_by_hash_eq r(2) by metis
  then show ?thesis using refresh_revoked_fails assms(4) by blast
qed

theorem revoked_token_stays_revoked_witness:
  "\<exists>e. fst (refresh demo_env ''old'' (tx_begin (committed (snd
      (run_auth demo_env (OpLogin ''a@b.c'' ''pw'') (tx_begin rotated_db)))))) = Inl e"
proof -
  let ?r = "live_token\<lparr>rt_revoked_at := Some (utc 0)\<rparr>"
  have ok: "tokens_ok rotated_db"
    by (simp add: tokens_ok_def token_table.keys_ok_def rotated_db_def auth_db_def live_token_def
        unique_on_def)
  obtain x t where run: "run_auth demo_env (OpLogin ''a@b.c'' ''pw'') (tx_begin rotated_db) = (x, t)"
    by force
  have s: "auth_steps rotated_db (committed t)" by (rule auth_step [OF auth_refl run])
  have g: "get_by_hash (en_hash_token demo_env ''old'') rotated_db = Some ?r" "rt_revoked_at ?r \<noteq> None"
    by (simp_all add: demo_env_def rotated_db_def get_by_hash_def live_token_def)
  show ?thesis using revoked_token_stays_revoked [OF ok s g] run by simp
qed

section \<open>Deactivation\<close>

lemma get_by_email_SomeD: "get_by_email e d = Some u \<Longrightarrow> u \<in> set (users d) \<and> u_email u = e"
  by (auto simp: get_by_email_def dest: find_SomeD)

lemma get_authenticated_Inr:
  assumes "get_authenticated_user env token d = Inr u"
  obtains k where "get_user k d = Some u" "u_is_active u"
  using assms unfolding get_authenticated_user_def is_inactive_def
  by (simp split: option.split_asm if_split_asm)

lemma set_active_False_Inr:
  assumes "set_active env uid False (tx_begin d) = (Inr x, t)"
  shows "committed t = revoke_all_rows uid (en_clk env 0) (put_user uid (u_is_active_update (\<lambda>_. False)) d)"
  using assms by (auto simp: set_active_def split: option.splits dest!: save_and_revoke_Inr)

lemma deactivated_row:
  assumes "set_active env uid False (tx_begin d) = (Inr x, t)"
    and "u \<in> set (users (committed t))" "u_id u = uid"
  shows "\<not> u_is_active u"
proof -
  have "u \<in> set (update_where (\<lambda>u. u_id u = uid) (u_is_active_update (\<lambda>_. False)) (users d))"
    using assms(2) by (simp add: set_active_False_Inr [OF assms(1)] users_put_user)
  then obtain v where "u = (if u_id v = uid then u_is_active_update (\<lambda>_. False) v else v)"
    by (rule in_update_whereE)
  then show ?thesis using assms(3) by (cases "u_id v = uid") simp_all
qed

text \<open>C26: Deactivating an account locks it out at once: when the operation succeeds, the account has no
  live refresh token, and from the database it leaves no login, no refresh and no access token, with
  whatever credentials, ever authenticates that account, nor can its password be reset.\<close>

theorem deactivation_locks_out:
  assumes "set_active env uid False (tx_begin d) = (Inr x, t)"
  shows "no_live_token uid (committed t)
    \<and> (\<forall>env' email pw res t'. login env' email pw (tx_begin (committed t)) = (Inr res, t')
         \<longrightarrow> u_id (ar_user res) \<noteq> uid)
    \<and> (\<forall>env' raw res t'. refresh env' raw (tx_begin (committed t)) = (Inr res, t')
         \<longrightarrow> u_id (ar_user res) \<noteq> uid)
    \<and> (\<forall>env' token u. get_authenticated_user env' token (committed t) = Inr u \<longrightarrow> u_id u \<noteq> uid)
    \<and> (\<forall>env' raw u. get_by_reset_hash (en_hash_token env' raw) (committed t) = Some u
         \<longrightarrow> u_id u = uid \<longrightarrow> (\<forall>new. fst (reset_password env' raw new (tx_begin (committed t)))
               = Inl (DomainErr InvalidCredentialsError ''Invalid reset token'')))"
proof (intro conjI allI impI)
  note row = deactivated_row [OF assms]
  show "no_live_token uid (committed t)"
    by (simp add: set_active_False_Inr [OF assms] no_live_token_revoke_all)
  show "u_id (ar_user res) \<noteq> uid" if "login env' email pw (tx_begin (committed t)) = (Inr res, t')"
    for env' email pw res t'
    using that by (rule login_Inr) (use row get_by_email_SomeD issue_tokens_Inr(1) in fastforce)
  show "u_id (ar_user res) \<noteq> uid" if "refresh env' raw (tx_begin (committed t)) = (Inr res, t')"
    for env' raw res t'
    using that by (rule refresh_Inr) (use row get_user_SomeD rotate_Inr(1) in fastforce)
  show "u_id u \<noteq> uid" if tok: "get_authenticated_user env' token (committed t) = Inr u" for env' token u
  proof -
    obtain k where "get_user k (committed t) = Some u" "u_is_active u"
      using tok by (rule get_authenticated_Inr)
    then show ?thesis using row [of u] get_user_SomeD by blast
  qed
  show "fst (reset_password env' raw new (tx_begin (committed t)))
      = Inl (DomainErr InvalidCredentialsError ''Invalid reset token'')"
    if "get_by_reset_hash (en_hash_token env' raw) (committed t) = Some u" "u_id u = uid"
    for env' raw u new
  proof -
    have "u \<in> set (users (committed t))" using that(1) by (auto simp: get_by_reset_hash_def dest: find_SomeD)
    then have "\<not> u_is_active u" using row that(2) by blast
    then show ?thesis using that(1)
      by (auto simp: reset_password_def is_inactive_def Let_def split: option.splits)
  qed
qed

theorem deactivation_locks_out_witness:
  "\<exists>t. set_active demo_env 1 False (tx_begin auth_db) = (Inr (), t) \<and> no_live_token 1 (committed t)"
proof -
  obtain t where t: "set_active demo_env 1 False (tx_begin auth_db) = (Inr (), t)"
    by (simp add: set_active_def save_and_revoke_def rollback_on_error_def save_user_def
        revoke_all_for_user_def commit_call_def demo_env_def auth_db_def get_user_def new_user_def)
  then show ?thesis using deactivation_locks_out [OF t] by blast
qed

section \<open>Passwords\<close>

lemma get_by_email_put_password:
  "get_by_email e (put_user uid (set_password h) d)
   = map_option (\<lambda>u. if u_id u = uid then set_password h u else u) (get_by_email e d)"
  by (simp add: get_by_email_def users_put_user find_update_where_same)

text \<open>Changing the password takes effect completely: given a password hash that accepts exactly the
  password it was made from, once the change succeeds every refresh token of the account is revoked, no
  pending reset token is left, the account logs in with the new password and no longer with any other
  one.\<close>

theorem change_password_effect:
  assumes verify: "\<And>p q. en_verify_password env p (en_hash_password env q) \<longleftrightarrow> p = q"
    and user: "get_by_email (normalize_email email) d = Some u" "u_is_active u"
    and run: "change_password env u old new (tx_begin d) = (Inr x, t)"
    and env': "en_verify_password env' = en_verify_password env" "en_fault env' CreateToken = None"
      "get_by_hash (en_hash_token env' (en_fresh_token env')) (committed t) = None"
  shows "en_verify_password env old (u_hashed_password u) \<and> no_live_token (u_id u) (committed t)
    \<and> (\<exists>res t'. login env' email new (tx_begin (committed t)) = (Inr res, t') \<and> u_id (ar_user res) = u_id u
         \<and> u_reset_token_hash (ar_user res) = None)
    \<and> (\<forall>p. p = new \<or> fst (login env' email p (tx_begin (committed t)))
          = Inl (DomainErr InvalidCredentialsError ''Invalid credentials''))"
proof -
  let ?u = "set_password (en_hash_password env new) u"
  have ok: "en_verify_password env old (u_hashed_password u)"
    and d': "committed t = revoke_all_rows (u_id u) (en_clk env 0)
      (put_user (u_id u) (set_password (en_hash_password env new)) d)"
    using run by (auto simp: change_password_def split: if_splits dest!: save_and_revoke_Inr)
  have g: "get_by_email (normalize_email email) (committed t) = Some ?u"
    using user(1) by (simp add: d' get_by_email_put_password)
  have "no_live_token (u_id u) (committed t)" by (simp add: d' no_live_token_revoke_all)
  moreover have "\<exists>res t'. login env' email new (tx_begin (committed t)) = (Inr res, t')
      \<and> u_id (ar_user res) = u_id u \<and> u_reset_token_hash (ar_user res) = None"
    using g user(2) env' verify
    by (simp add: login_def is_inactive_def issue_tokens_def create_token_def Let_def)
  moreover have "fst (login env' email p (tx_begin (committed t)))
      = Inl (DomainErr InvalidCredentialsError ''Invalid credentials'')" if "p \<noteq> new" for p
    using g env' verify that by (simp add: login_def)
  ultimately show ?thesis using ok by blast
qed

theorem change_password_effect_witness:
  "\<exists>t. change_password demo_env (new_user 1 ''a@b.c'' ''#pw'' ''fr'') ''pw'' ''pw2'' (tx_begin auth_db) = (Inr (), t)
    \<and> no_live_token 1 (committed t)
    \<and> fst (login demo_env ''A@B.c'' ''pw'' (tx_begin (committed t)))
        = Inl (DomainErr InvalidCredentialsError ''Invalid credentials'')"
proof -
  let ?u = "new_user 1 ''a@b.c'' ''#pw'' ''fr''"
  have mail: "normalize_email ''A@B.c'' = ''a@b.c''" by code_simp
  obtain t where t: "change_password demo_env ?u ''pw'' ''pw2'' (tx_begin auth_db) = (Inr (), t)"
      and h: "get_by_hash ''hnew'' (committed t) = None"
    by (simp add: change_password_def save_and_revoke_def rollback_on_error_def save_user_def
        revoke_all_for_user_def commit_call_def demo_env_def auth_db_def new_user_def get_by_hash_def
        refresh_tokens_revoke_all set_revoked_def live_token_def)
  have v: "\<And>p q. en_verify_password demo_env p (en_hash_password demo_env q) \<longleftrightarrow> p = q"
    by (auto simp: demo_env_def)
  have g: "get_by_email (normalize_email ''A@B.c'') auth_db = Some ?u" "u_is_active ?u"
    unfolding mail by (simp_all add: get_by_email_def auth_db_def new_user_def)
  have e: "en_fault demo_env CreateToken = None"
      "get_by_hash (en_hash_token demo_env (en_fresh_token demo_env)) (committed t) = None"
    using h by (simp_all add: demo_env_def)
  have c: "no_live_token (u_id ?u) (committed t)"
      "\<forall>p. p = ''pw2'' \<or> fst (login demo_env ''A@B.c'' p (tx_begin (committed t)))
        = Inl (DomainErr InvalidCredentialsError ''Invalid credentials'')"
    using change_password_effect [of demo_env "''A@B.c''" auth_db ?u "''pw''" "''pw2''" "()" t demo_env,
        OF v g t refl e] by blast+
  have "''pw'' \<noteq> ''pw2''" by simp
  then show ?thesis using t c spec [OF c(2), of "''pw''"] by (auto simp: new_user_def)
qed

text \<open>A password reset token works once: when a reset succeeds, every session of the account is
  revoked, the new password hash is stored, and the same token presented again is refused.\<close>

theorem reset_token_single_use:
  assumes uniq: "\<And>u v h. u \<in> set (users d) \<Longrightarrow> v \<in> set (users d) \<Longrightarrow>
      u_reset_token_hash u = Some h \<Longrightarrow> u_reset_token_hash v = Some h \<Longrightarrow> u = v"
    and run: "reset_password env raw new (tx_begin d) = (Inr x, t)"
    and env': "en_hash_token env' = en_hash_token env"
  shows "\<exists>u. get_by_reset_hash (en_hash_token env raw) d = Some u
    \<and> (\<exists>e. u_reset_token_expires_at u = Some e \<and> en_clk env 0 \<le> e) \<and> u_is_active u
    \<and> no_live_token (u_id u) (committed t)
    \<and> get_user (u_id u) (committed t) = map_option (set_password (en_hash_password env new)) (get_user (u_id u) d)
    \<and> fst (reset_password env' raw again (tx_begin (committed t)))
        = Inl (DomainErr InvalidCredentialsError ''Invalid reset token'')"
proof -
  let ?h = "en_hash_token env raw" and ?f = "set_password (en_hash_password env new)"
  obtain u e where u: "get_by_reset_hash ?h d = Some u" "u_reset_token_expires_at u = Some e"
      "en_clk env 0 \<le> e" "u_is_active u"
    and d': "committed t = revoke_all_rows (u_id u) (en_clk env 0) (put_user (u_id u) ?f d)"
    using run by (auto simp: reset_password_def is_inactive_def Let_def not_less
        split: option.splits if_splits dest!: save_and_revoke_Inr)
  have mem: "u \<in> set (users d)" "u_reset_token_hash u = Some ?h"
    using u(1) by (auto simp: get_by_reset_hash_def dest: find_SomeD)
  have "u_reset_token_hash v \<noteq> Some ?h" if "v \<in> set (users (committed t))" for v
    using that uniq [OF mem(1) _ mem(2)] unfolding d'
    by (auto simp: users_put_user elim!: in_update_whereE split: if_splits)
  then have "get_by_reset_hash ?h (committed t) = None"
    by (auto simp: get_by_reset_hash_def find_None_conv)
  then have "fst (reset_password env' raw again (tx_begin (committed t)))
      = Inl (DomainErr InvalidCredentialsError ''Invalid reset token'')"
    by (simp add: reset_password_def env')
  moreover have "get_user (u_id u) (committed t) = map_option ?f (get_user (u_id u) d)"
    unfolding d' revoke_all_rows_frame
    by (cases "get_user (u_id u) d") (auto simp: get_user_put_user dest: get_user_SomeD)
  ultimately show ?thesis using u d' by (simp add: no_live_token_revoke_all)
qed

definition resetting_db :: db where
  "resetting_db = auth_db\<lparr>users := [(new_user 1 ''a@b.c'' ''#pw'' ''fr'')
     \<lparr>u_reset_token_hash := Some ''hrst'', u_reset_token_expires_at := Some us_per_hour\<rparr>]\<rparr>"

theorem reset_token_single_use_witness:
  "\<exists>t. reset_password demo_env ''rst'' ''pw2'' (tx_begin resetting_db) = (Inr (), t)
    \<and> no_live_token 1 (committed t)
    \<and> fst (reset_password demo_env ''rst'' ''pw3'' (tx_begin (committed t)))
        = Inl (DomainErr InvalidCredentialsError ''Invalid reset token'')"
proof -
  have uniq: "\<And>u v h. u \<in> set (users resetting_db) \<Longrightarrow> v \<in> set (users resetting_db) \<Longrightarrow>
      u_reset_token_hash u = Some h \<Longrightarrow> u_reset_token_hash v = Some h \<Longrightarrow> u = v"
    by (simp add: resetting_db_def)
  obtain t where t: "reset_password demo_env ''rst'' ''pw2'' (tx_begin resetting_db) = (Inr (), t)"
    by (simp add: reset_password_def save_and_revoke_def rollback_on_error_def save_user_def
        revoke_all_for_user_def commit_call_def demo_env_def resetting_db_def new_user_def
        get_by_reset_hash_def is_inactive_def Let_def)
  have "get_by_reset_hash (en_hash_token demo_env ''rst'') resetting_db \<noteq> None \<and>
      (\<forall>u. get_by_reset_hash (en_hash_token demo_env ''rst'') resetting_db = Some u \<longrightarrow> u_id u = 1)"
    by (simp add: get_by_reset_hash_def demo_env_def resetting_db_def new_user_def)
  then show ?thesis
    using reset_token_single_use [where again = "''pw3''", OF uniq t refl] t by auto
qed

section \<open>Registration\<close>

lemma normalize_email_idem [simp]: "normalize_email (normalize_email e) = normalize_email e"
  by (simp add: normalize_email_def py_strip_py_lower)

text \<open>Registering and logging in agree: after a successful registration the account logs in with its
  password and with any spelling of its address that differs in case or surrounding blanks only, to the
  very same account, and a second registration under any such spelling is refused as a conflict.\<close>

theorem register_login_round_trip:
  assumes run: "register env email pw lang (tx_begin d) = (Inr res, t)"
    and spelling: "normalize_email email' = normalize_email email"
    and verify: "en_verify_password env' pw (en_hash_password env pw)"
    and env': "en_fault env' CreateToken = None"
      "get_by_hash (en_hash_token env' (en_fresh_token env')) (committed t) = None"
  shows "(\<exists>res' t'. login env' email' pw (tx_begin (committed t)) = (Inr res', t')
      \<and> ar_user res' = ar_user res \<and> u_email (ar_user res) = normalize_email email
      \<and> u_tier (ar_user res) = TIER_FREE \<and> \<not> u_is_admin (ar_user res))
    \<and> fst (register env' email' pw2 lang2 (tx_begin (committed t))) = Inl email_conflict"
  using run
proof (rule register_Inr)
  fix u t1
  assume c: "create_user env (normalize_email email) (en_hash_password env pw) lang False (tx_begin d) = (Inr u, t1)"
    and i: "issue_tokens env u True t1 = (Inr res, t)"
    and n: "get_by_email (normalize_email email) (working (tx_begin d)) = None"
  have u: "u = new_user (seq_users d) (normalize_email email) (en_hash_password env pw) lang"
    and w: "working t1 = insert_user u d" using create_user_Inr [OF c] by auto
  note iss = issue_tokens_Inr [OF i]
  have users: "users (committed t) = users d @ [u]"
    using iss(3,4) w by (simp add: insert_token_def insert_user_def)
  have g: "get_by_email (normalize_email email) (committed t) = Some u"
    using n u by (simp add: get_by_email_def users find_append_None new_user_def)
  have "\<exists>res' t'. login env' email' pw (tx_begin (committed t)) = (Inr res', t') \<and> ar_user res' = u"
    using g spelling verify env' u
    by (simp add: login_def is_inactive_def new_user_def issue_tokens_def create_token_def Let_def)
  moreover have "ar_user res = u" using iss(1) by simp
  moreover have "fst (register env' email' pw2 lang2 (tx_begin (committed t))) = Inl email_conflict"
    using g spelling by (simp add: register_def)
  ultimately show ?thesis using u by (auto simp: new_user_def)
qed

theorem register_login_round_trip_witness:
  "\<exists>res t res' t'. register demo_env ''Jean@X.com'' ''pw'' ''fr'' (tx_begin empty_db) = (Inr res, t)
    \<and> login (demo_env\<lparr>en_fresh_token := ''two''\<rparr>) '' jean@x.COM '' ''pw'' (tx_begin (committed t)) = (Inr res', t')
    \<and> ar_user res' = ar_user res"
proof -
  let ?env = "demo_env\<lparr>en_fresh_token := ''two''\<rparr>"
  have n: "normalize_email ''Jean@X.com'' = ''jean@x.com''" by code_simp
  have sp: "normalize_email '' jean@x.COM '' = normalize_email ''Jean@X.com''" by code_simp
  obtain res t where r: "register demo_env ''Jean@X.com'' ''pw'' ''fr'' (tx_begin empty_db) = (Inr res, t)"
      and h: "get_by_hash ''htwo'' (committed t) = None"
    by (simp add: register_def n get_by_email_def empty_db_def create_user_def demo_env_def
        rollback_on_error_def email_taken_def issue_tokens_def create_token_def get_by_hash_def
        insert_token_def insert_user_def Let_def)
  have v: "en_verify_password ?env ''pw'' (en_hash_password demo_env ''pw'')"
      "en_fault ?env CreateToken = None"
      "get_by_hash (en_hash_token ?env (en_fresh_token ?env)) (committed t) = None"
    using h by (simp_all add: demo_env_def)
  show ?thesis using register_login_round_trip [OF r sp v] r by blast
qed

lemma access_token_authenticates:
  assumes "\<And>s. en_decode env (en_access_token env s) = Some s"
    and "get_user (u_id u) d = Some u" "u_is_active u"
  shows "get_authenticated_user env (en_access_token env (py_str_int (u_id u))) d = Inr u"
  using assms by (simp add: get_authenticated_user_def is_inactive_def)

lemma purge_keeps_reuse_evidence:
  assumes "r \<in> set (refresh_tokens (working t))" "now \<le> instant (rt_expires_at r)"
  shows "r \<in> set (refresh_tokens (working (snd (purge_expired env now c t))))"
  using assms by (auto simp: purge_expired_def Let_def table_simps split: option.splits)

end
