(* ===== verification/Security.thy ===== *)
theory Security
  imports AuthProps
begin

text \<open>
  Access tokens and the dummy password hash (\<^verbatim>\<open>app/core/security.py\<close>). JWT encoding and decoding and the password hash
  are libraries: arguments here, with their documented behaviour as hypotheses. The dummy hash is computed by whichever
  request needs it first, under a lock; its callers are interleaved.
\<close>

section \<open>Access tokens\<close>

record claims =
  jc_sub :: "string option"
  jc_exp :: instant
  jc_jti :: string

record jwt_lib =
  jwt_encode :: "claims \<Rightarrow> string \<Rightarrow> string \<Rightarrow> string"
  jwt_decode :: "instant \<Rightarrow> string \<Rightarrow> string \<Rightarrow> string list \<Rightarrow> string + claims"

record jwt_settings =
  jw_secret :: string
  jw_algorithm :: string
  jw_expire_minutes :: int

definition create_access_token :: "jwt_lib \<Rightarrow> jwt_settings \<Rightarrow> instant \<Rightarrow> string \<Rightarrow> string \<Rightarrow> string" where
  "create_access_token lib s now uuid subject =
     jwt_encode lib \<lparr>jc_sub = Some subject, jc_exp = now + jw_expire_minutes s * 60 * us_per_second, jc_jti = uuid\<rparr> (jw_secret s) (jw_algorithm s)"

definition decode_access_token :: "jwt_lib \<Rightarrow> jwt_settings \<Rightarrow> instant \<Rightarrow> string \<Rightarrow> string + string" where
  "decode_access_token lib s now token = (case jwt_decode lib now token (jw_secret s) [jw_algorithm s] of
      Inl msg \<Rightarrow> Inl msg
    | Inr payload \<Rightarrow> (case jc_sub payload of None \<Rightarrow> Inl ''missing subject'' | Some subject \<Rightarrow> Inr subject))"

text \<open>The environment of the authentication service at an instant.\<close>

definition with_tokens :: "jwt_lib \<Rightarrow> jwt_settings \<Rightarrow> instant \<Rightarrow> string \<Rightarrow> auth_env \<Rightarrow> auth_env" where
  "with_tokens lib s now uuid env = env\<lparr>en_access_token := create_access_token lib s now uuid,
     en_decode := (\<lambda>token. case decode_access_token lib s now token of Inl _ \<Rightarrow> None | Inr subject \<Rightarrow> Some subject)\<rparr>"

text \<open>Documented behaviour of the library: a token carries its expiry in whole seconds and is refused from that second on; with
  another secret it is refused; and what a secret accepts was encoded with it.\<close>

definition whole_second :: "instant \<Rightarrow> instant" where
  "whole_second i = i div us_per_second * us_per_second"

definition jwt_sound :: "jwt_lib \<Rightarrow> bool" where
  "jwt_sound lib \<longleftrightarrow>
     (\<forall>c key alg now. (case jwt_decode lib now (jwt_encode lib c key alg) key [alg] of
         Inr c' \<Rightarrow> now < whole_second (jc_exp c) \<and> c' = c\<lparr>jc_exp := whole_second (jc_exp c)\<rparr>
       | Inl _ \<Rightarrow> whole_second (jc_exp c) \<le> now))
   \<and> (\<forall>now token key alg c'. jwt_decode lib now token key [alg] = Inr c' \<longrightarrow> (\<exists>c. token = jwt_encode lib c key alg))"

lemma decode_own:
  assumes "jwt_sound lib"
  shows "(\<exists>msg. decode_access_token lib s now (create_access_token lib s t0 uuid subject) = Inl msg)
       \<and> whole_second (t0 + jw_expire_minutes s * 60 * us_per_second) \<le> now
     \<or> decode_access_token lib s now (create_access_token lib s t0 uuid subject) = Inr subject
       \<and> now < whole_second (t0 + jw_expire_minutes s * 60 * us_per_second)"
proof -
  let ?c = "\<lparr>jc_sub = Some subject, jc_exp = t0 + jw_expire_minutes s * 60 * us_per_second, jc_jti = uuid\<rparr>"
  have "case jwt_decode lib now (jwt_encode lib ?c (jw_secret s) (jw_algorithm s)) (jw_secret s) [jw_algorithm s] of
         Inr c' \<Rightarrow> now < whole_second (jc_exp ?c) \<and> c' = ?c\<lparr>jc_exp := whole_second (jc_exp ?c)\<rparr>
       | Inl _ \<Rightarrow> whole_second (jc_exp ?c) \<le> now"
    using assms unfolding jwt_sound_def by blast
  then show ?thesis
    by (auto simp: decode_access_token_def create_access_token_def split: sum.split_asm)
qed

lemma decode_accepts_own_tokens:
  assumes "jwt_sound lib" "decode_access_token lib s now token = Inr subject"
  shows "\<exists>c. token = jwt_encode lib c (jw_secret s) (jw_algorithm s)"
proof -
  obtain c' where "jwt_decode lib now token (jw_secret s) [jw_algorithm s] = Inr c'"
    using assms(2) by (auto simp: decode_access_token_def split: sum.split_asm)
  then show ?thesis using assms(1) unfolding jwt_sound_def by blast
qed

lemma authenticated_with_tokens:
  assumes "get_authenticated_user (with_tokens lib s now uuid env) token d = Inr v"
  shows "(\<exists>subject. decode_access_token lib s now token = Inr subject) \<and> get_user (u_id v) d = Some v \<and> \<not> is_inactive (Some v)"
  using assms
  by (auto simp: get_authenticated_user_def with_tokens_def get_user_SomeD split: sum.split_asm option.split_asm if_split_asm)


text \<open>A library with that behaviour: the token is the text of its claims, key and algorithm.\<close>

definition put_text :: "string \<Rightarrow> string" where
  "put_text t = concat (map (\<lambda>c. [CHR ''c'', c]) t) @ ''e''"

fun take_text :: "string \<Rightarrow> (string \<times> string) option" where
  "take_text (m # s) = (if m = CHR ''e'' then Some ([], s)
     else case s of [] \<Rightarrow> None | c # s1 \<Rightarrow> map_option (\<lambda>(t, r). (c # t, r)) (take_text s1))"
| "take_text [] = None"

lemma take_put_text: "take_text (put_text t @ s) = Some (t, s)"
  by (induction t) (simp_all add: put_text_def)

definition demo_encode :: "claims \<Rightarrow> string \<Rightarrow> string \<Rightarrow> string" where
  "demo_encode c key alg = put_text (py_str_int (jc_exp c)) @ put_text (jc_jti c)
     @ put_text (case jc_sub c of None \<Rightarrow> [] | Some t \<Rightarrow> CHR ''s'' # t) @ put_text key @ put_text alg"

definition demo_claims :: "string \<Rightarrow> claims option" where
  "demo_claims token = (case take_text token of None \<Rightarrow> None
     | Some (e, r) \<Rightarrow> (case take_text r of None \<Rightarrow> None
         | Some (j, r1) \<Rightarrow> (case (take_text r1, py_int_of_str e) of
             (Some (t, _), Some until) \<Rightarrow> Some \<lparr>jc_sub = (case t of [] \<Rightarrow> None | _ # t1 \<Rightarrow> Some t1), jc_exp = until, jc_jti = j\<rparr>
           | _ \<Rightarrow> None)))"

definition demo_decode :: "instant \<Rightarrow> string \<Rightarrow> string \<Rightarrow> string list \<Rightarrow> string + claims" where
  "demo_decode now token key algs = (case demo_claims token of None \<Rightarrow> Inl ''Not enough segments''
     | Some c \<Rightarrow> if \<not> list_ex (\<lambda>alg. demo_encode c key alg = token) algs then Inl ''Signature verification failed''
         else if now < whole_second (jc_exp c) then Inr (c\<lparr>jc_exp := whole_second (jc_exp c)\<rparr>) else Inl ''Signature has expired'')"

definition demo_jwt :: jwt_lib where
  "demo_jwt = \<lparr>jwt_encode = demo_encode, jwt_decode = demo_decode\<rparr>"

lemma demo_claims_encode: "demo_claims (demo_encode c key alg) = Some c"
  by (simp add: demo_claims_def demo_encode_def take_put_text split: option.split)

lemma demo_jwt_sound: "jwt_sound demo_jwt"
  by (auto simp: jwt_sound_def demo_jwt_def demo_decode_def demo_claims_encode split: option.split_asm if_split_asm)

definition demo_jwt_settings :: jwt_settings where
  "demo_jwt_settings = \<lparr>jw_secret = ''k3y'', jw_algorithm = ''HS256'', jw_expire_minutes = 15\<rparr>"


section \<open>The dummy hash\<close>

text \<open>A caller looks at the cache, waits for the lock, looks again, and computes the hash in a worker thread while it holds the
  lock; the wait and the computation may be cancelled or fail. \<open>dh_hashed\<close> counts the computations that were finished.\<close>

datatype dummy_pc = Calling | Waiting | Hashing | Returned string | Raised

record dummy_state =
  dh_cache :: "string option"
  dh_lock :: "nat option"
  dh_pc :: "nat \<Rightarrow> dummy_pc"
  dh_hashed :: nat

definition dummy_init :: dummy_state where
  "dummy_init = \<lparr>dh_cache = None, dh_lock = None, dh_pc = (\<lambda>_. Calling), dh_hashed = 0\<rparr>"

abbreviation moves :: "nat \<Rightarrow> dummy_pc \<Rightarrow> dummy_state \<Rightarrow> dummy_state" where
  "moves c p s \<equiv> s\<lparr>dh_pc := (dh_pc s)(c := p)\<rparr>"

definition dummy_check :: "nat \<Rightarrow> dummy_state \<Rightarrow> dummy_state" where
  "dummy_check c s = (case dh_cache s of None \<Rightarrow> moves c Waiting s | Some h \<Rightarrow> moves c (Returned h) s)"

definition dummy_enter :: "nat \<Rightarrow> dummy_state \<Rightarrow> dummy_state" where
  "dummy_enter c s = (case dh_cache s of
      None \<Rightarrow> (moves c Hashing s)\<lparr>dh_lock := Some c\<rparr>
    | Some h \<Rightarrow> moves c (Returned h) s)"

definition dummy_done :: "nat \<Rightarrow> string \<Rightarrow> dummy_state \<Rightarrow> dummy_state" where
  "dummy_done c h s = (moves c (Returned h) s)\<lparr>dh_cache := Some h, dh_lock := None, dh_hashed := dh_hashed s + 1\<rparr>"

definition dummy_fail :: "nat \<Rightarrow> dummy_state \<Rightarrow> dummy_state" where
  "dummy_fail c s = (moves c Raised s)\<lparr>dh_lock := (if dh_lock s = Some c then None else dh_lock s)\<rparr>"

inductive dummy_step :: "dummy_state \<Rightarrow> dummy_state \<Rightarrow> bool" where
  check: "dh_pc s c = Calling \<Longrightarrow> dummy_step s (dummy_check c s)"
| enter: "dh_pc s c = Waiting \<Longrightarrow> dh_lock s = None \<Longrightarrow> dummy_step s (dummy_enter c s)"
| hashed: "dh_pc s c = Hashing \<Longrightarrow> dummy_step s (dummy_done c h s)"
| fail: "dh_pc s c = Waiting \<or> dh_pc s c = Hashing \<Longrightarrow> dummy_step s (dummy_fail c s)"

inductive_cases dummy_stepE: "dummy_step s s'"

definition dummy_inv :: "dummy_state \<Rightarrow> bool" where
  "dummy_inv s \<longleftrightarrow> dh_hashed s = (if dh_cache s = None then 0 else 1)
     \<and> (\<forall>c h. dh_pc s c = Returned h \<longrightarrow> dh_cache s = Some h)
     \<and> (\<forall>c. dh_pc s c = Hashing \<longleftrightarrow> dh_lock s = Some c)
     \<and> (dh_lock s \<noteq> None \<longrightarrow> dh_cache s = None)"

lemmas dummy_defs = dummy_check_def dummy_enter_def dummy_done_def dummy_fail_def

lemma dummy_inv_init: "dummy_inv dummy_init"
  by (simp add: dummy_inv_def dummy_init_def)

lemma dummy_invD:
  assumes "dummy_inv s"
  shows "dh_pc s c = Hashing \<longleftrightarrow> dh_lock s = Some c" "dh_pc s c = Returned h \<Longrightarrow> dh_cache s = Some h"
  using assms by (simp_all add: dummy_inv_def)

lemma dummy_inv_step:
  assumes "dummy_step s s'" "dummy_inv s"
  shows "dummy_inv s'"
  using assms(1)
proof (rule dummy_stepE)
  fix c
  assume "s' = dummy_check c s" "dh_pc s c = Calling"
  moreover from this(2) have "dh_lock s \<noteq> Some c" using dummy_invD(1) [OF assms(2), of c] by simp
  ultimately show ?thesis using assms(2) by (cases "dh_cache s") (auto simp: dummy_inv_def dummy_defs)
qed (use assms(2) in \<open>cases "dh_cache s"; auto simp: dummy_inv_def dummy_defs split: if_split_asm\<close>)+

lemma dummy_inv_steps: "dummy_step\<^sup>*\<^sup>* s s' \<Longrightarrow> dummy_inv s \<Longrightarrow> dummy_inv s'"
  by (induction rule: rtranclp_induct) (auto intro: dummy_inv_step)

lemma waiting_can_return:
  assumes "dummy_inv s" "dh_pc s c = Waiting"
  shows "\<exists>s' h. dummy_step\<^sup>*\<^sup>* s s' \<and> dh_pc s' c = Returned h"
proof (cases "dh_lock s")
  case None
  show ?thesis
  proof (cases "dh_cache s")
    case (Some h)
    have "dummy_step s (dummy_enter c s)" by (rule dummy_step.enter) (use assms None in auto)
    then show ?thesis by (intro exI [of _ "dummy_enter c s"] exI [of _ h]) (auto simp: dummy_enter_def Some)
  next
    case no_cache: None
    have 1: "dummy_step s (dummy_enter c s)" by (rule dummy_step.enter) (use assms None in auto)
    have 2: "dummy_step (dummy_enter c s) (dummy_done c [] (dummy_enter c s))"
      by (rule dummy_step.hashed) (simp add: dummy_enter_def no_cache)
    show ?thesis using rtranclp.rtrancl_into_rtrancl [OF r_into_rtranclp [of dummy_step, OF 1] 2]
      by (intro exI [of _ "dummy_done c [] (dummy_enter c s)"] exI [of _ "[]"]) (simp add: dummy_done_def)
  qed
next
  case (Some k)
  let ?s = "dummy_done k [] s"
  have k: "dh_pc s k = Hashing" "k \<noteq> c" using assms(2) Some dummy_invD(1) [OF assms(1), of k] by auto
  have 1: "dummy_step s ?s" using k(1) by (rule dummy_step.hashed)
  have 2: "dummy_step ?s (dummy_enter c ?s)" by (rule dummy_step.enter) (use assms k in \<open>auto simp: dummy_done_def\<close>)
  show ?thesis using rtranclp.rtrancl_into_rtrancl [OF r_into_rtranclp [of dummy_step, OF 1] 2]
    by (intro exI [of _ "dummy_enter c ?s"] exI [of _ "[]"]) (simp add: dummy_enter_def dummy_done_def)
qed



end
