(* ===== verification/Keyset.thy ===== *)
theory Keyset
  imports Store "HOL-Library.Product_Lexorder"
begin

text \<open>
  Bounded pages and keyset cursors: the shared clamp of a requested page size
  (\<^verbatim>\<open>app/core/pagination.py\<close>), the page a query with a keyset cursor returns, and the loop
  that drains a listing page by page (\<open>_keyset_pages\<close> of
  \<^verbatim>\<open>app/features/voice_data/repository.py\<close>). The loop need not end for an arbitrary fetch
  function, so it is a partial function whose value \<open>None\<close> means that it does not return. The
  interface of a keyset query is a locale: pages ordered by a key that identifies the row.
\<close>

section \<open>Page sizes\<close>

definition DEFAULT_PAGE_SIZE :: int where "DEFAULT_PAGE_SIZE = 50"
definition MAX_PAGE_SIZE :: int where "MAX_PAGE_SIZE = 100"

definition resolve_limit :: "int option \<Rightarrow> int \<Rightarrow> int \<Rightarrow> int" where
  "resolve_limit requested default_limit maximum = (case requested of None \<Rightarrow> default_limit
     | Some r \<Rightarrow> max 1 (min r maximum))"

lemma resolve_limit_bounds:
  "1 \<le> resolve_limit r DEFAULT_PAGE_SIZE MAX_PAGE_SIZE"
  "resolve_limit r DEFAULT_PAGE_SIZE MAX_PAGE_SIZE \<le> MAX_PAGE_SIZE"
  by (auto simp: resolve_limit_def DEFAULT_PAGE_SIZE_def MAX_PAGE_SIZE_def split: option.splits)

section \<open>Keyset pages\<close>

text \<open>\<open>WHERE key > cursor ORDER BY key LIMIT n\<close>; a descending order is the order of the negated
  key.\<close>

definition keyset_page :: "('r \<Rightarrow> 'k::linorder) \<Rightarrow> nat \<Rightarrow> 'k option \<Rightarrow> 'r list \<Rightarrow> 'r list" where
  "keyset_page key limit cursor rows =
     take limit (sort_key key (filter (\<lambda>r. case cursor of None \<Rightarrow> True | Some c \<Rightarrow> c < key r) rows))"

text \<open>The loop of \<open>_keyset_pages\<close>; every page opens its own session, so the page number stands for
  the state of the database the fetch sees.\<close>

partial_function (option) keyset_pages ::
  "(nat \<Rightarrow> 'c option \<Rightarrow> 'r list) \<Rightarrow> ('r \<Rightarrow> 'c) \<Rightarrow> nat \<Rightarrow> nat \<Rightarrow> 'c option \<Rightarrow> 'r list option" where
  "keyset_pages fetch_page cursor_of page_size i cursor =
     (let rows = fetch_page i cursor in
      if rows = [] then Some []
      else if length rows < page_size then Some rows
      else Option.bind (keyset_pages fetch_page cursor_of page_size (Suc i)
             (Some (cursor_of (last rows)))) (\<lambda>rest. Some (rows @ rest)))"

lemma sorted_wrt_strict_sort_key:
  fixes key :: "'r \<Rightarrow> 'k::linorder"
  shows "unique_on key rows \<Longrightarrow> sorted_wrt (\<lambda>x y. key x < key y) (sort_key key rows)"
proof -
  assume u: "unique_on key rows"
  have "distinct (map key (sort_key key rows))"
    using u by (simp add: unique_on_def distinct_map)
  then have "sorted_wrt (<) (map key (sort_key key rows))"
    using sorted_sort_key [of key rows] by (simp add: strict_sorted_iff)
  then show ?thesis by (simp add: sorted_wrt_map)
qed

lemma filter_after_prefix:
  fixes key :: "'r \<Rightarrow> 'k::linorder"
  assumes "sorted_wrt (\<lambda>x y. key x < key y) (xs @ y # ys)"
  shows "filter (\<lambda>r. key y < key r) (xs @ y # ys) = ys"
  using assms by (fastforce simp: sorted_wrt_append filter_empty_conv intro!: filter_True)

text \<open>A page ordered by a key that identifies the rows; the page after the last row of a prefix of
  the listing continues the listing.\<close>

lemma keyset_page_first: "keyset_page key n None rows = take n (sort_key key rows)"
  by (simp add: keyset_page_def)

lemma keyset_page_next:
  fixes key :: "'r \<Rightarrow> 'k::linorder"
  assumes u: "unique_on key rows" and eq: "sort_key key rows = xs @ ys" and ne: "xs \<noteq> []"
  shows "keyset_page key n (Some (key (last xs))) rows = take n ys"
proof -
  obtain zs z where xs: "xs = zs @ [z]" using ne by (metis append_butlast_last_id)
  have "sort_key key (filter (\<lambda>r. key z < key r) rows)
      = filter (\<lambda>r. key z < key r) (sort_key key rows)"
    by (simp add: filter_sort)
  also have "\<dots> = ys"
    using filter_after_prefix [of key zs z ys] sorted_wrt_strict_sort_key [OF u] eq
    by (simp only: xs) simp
  finally show ?thesis by (simp add: keyset_page_def xs)
qed

section \<open>The interface of a keyset query\<close>

text \<open>
  A query that lists the rows of a state page by page: the first page is a prefix of the listing, and
  the page fetched with the cursor of the last row seen continues where the listing was left. The
  loop over such a query ends and returns the whole listing.
\<close>

locale keyset_query =
  fixes inv :: "'s \<Rightarrow> bool" and page_size :: "'s \<Rightarrow> nat"
    and fetch :: "'s \<Rightarrow> 'c option \<Rightarrow> 'r list" and cursor_of :: "'r \<Rightarrow> 'c"
    and listing :: "'s \<Rightarrow> 'r list"
  assumes size_pos: "inv s \<Longrightarrow> 0 < page_size s"
    and fetch_first: "inv s \<Longrightarrow> fetch s None = take (page_size s) (listing s)"
    and fetch_next: "inv s \<Longrightarrow> listing s = xs @ ys \<Longrightarrow> xs \<noteq> [] \<Longrightarrow>
      fetch s (Some (cursor_of (last xs))) = take (page_size s) ys"
begin

lemma pages_from_prefix:
  assumes "inv s" "listing s = xs @ ys" "xs \<noteq> []"
  shows "keyset_pages (\<lambda>_. fetch s) cursor_of (page_size s) i (Some (cursor_of (last xs))) = Some ys"
  using assms(2,3)
proof (induction "length ys" arbitrary: xs ys i rule: less_induct)
  case less
  let ?n = "page_size s" and ?page = "take (page_size s) ys"
  have page: "fetch s (Some (cursor_of (last xs))) = ?page"
    by (rule fetch_next [OF assms(1) less.prems])
  show ?case
  proof (cases "ys = [] \<or> length ?page < ?n")
    case True
    then have "?page = ys" by (auto simp: not_le)
    then show ?thesis using True page by (subst keyset_pages.simps) (auto simp: Let_def)
  next
    case False
    let ?rest = "drop ?n ys"
    have n: "0 < ?n" by (rule size_pos [OF assms(1)])
    then have "length ?rest < length ys" using False by (simp add: not_less)
    moreover have "listing s = (xs @ ?page) @ ?rest" using less.prems by simp
    moreover have "last (xs @ ?page) = last ?page" using False n by simp
    ultimately have "keyset_pages (\<lambda>_. fetch s) cursor_of ?n (Suc i)
        (Some (cursor_of (last ?page))) = Some ?rest"
      using less.hyps [of ?rest "xs @ ?page" "Suc i"] less.prems by simp
    then show ?thesis using False page n by (subst keyset_pages.simps) (auto simp: Let_def)
  qed
qed

lemma pages_complete:
  assumes "inv s"
  shows "keyset_pages (\<lambda>_. fetch s) cursor_of (page_size s) 0 None = Some (listing s)"
proof (cases "length (take (page_size s) (listing s)) < page_size s")
  case True
  then have "take (page_size s) (listing s) = listing s" by (simp add: not_le)
  then show ?thesis using True
    by (subst keyset_pages.simps) (auto simp: Let_def fetch_first [OF assms])
next
  case False
  let ?n = "page_size s" and ?page = "take (page_size s) (listing s)"
  have ne: "?page \<noteq> []" using False size_pos [OF assms] by auto
  have "keyset_pages (\<lambda>_. fetch s) cursor_of ?n (Suc 0) (Some (cursor_of (last ?page)))
      = Some (drop ?n (listing s))"
    by (rule pages_from_prefix [OF assms]) (simp_all add: ne del: take_eq_Nil)
  then show ?thesis using False ne
    by (subst keyset_pages.simps) (auto simp: Let_def fetch_first [OF assms])
qed

end

text \<open>A key that identifies the rows gives such a query.\<close>

lemma keyset_page_query:
  fixes key :: "'r \<Rightarrow> 'k::linorder"
  assumes "0 < n"
  shows "keyset_query (unique_on key) (\<lambda>_. n) (\<lambda>rows c. keyset_page key n c rows) key (sort_key key)"
  by unfold_locales (use assms in \<open>auto simp: keyset_page_first keyset_page_next\<close>)

section \<open>Paging while the table changes\<close>

text \<open>Every page may see another state of the table. Whatever it is, the rows come in strictly
  increasing order of their keys, so none comes twice, and a row that is in the table all along is among
  them, in the version some page saw.\<close>

lemma keyset_page_props:
  fixes key :: "'r \<Rightarrow> 'k::linorder" and n :: nat and cur :: "'k option"
  assumes "unique_on key rows"
  defines "page \<equiv> keyset_page key n cur rows"
  shows "sorted_wrt (\<lambda>x y. key x < key y) page"
    and "x \<in> set page \<Longrightarrow> x \<in> set rows \<and> (case cur of None \<Rightarrow> True | Some c \<Rightarrow> c < key x)"
    and "r \<in> set rows \<Longrightarrow> (case cur of None \<Rightarrow> True | Some c \<Rightarrow> c < key r) \<Longrightarrow>
      r \<in> set page \<or> (length page = n \<and> (\<forall>x \<in> set page. key x < key r))"
proof -
  let ?p = "\<lambda>r. case cur of None \<Rightarrow> True | Some c \<Rightarrow> c < key r"
  let ?s = "sort_key key (filter ?p rows)"
  have u: "unique_on key (filter ?p rows)" using assms(1) by (simp add: unique_on_def distinct_map_filter)
  have srt: "sorted_wrt (\<lambda>x y. key x < key y) ?s" by (rule sorted_wrt_strict_sort_key [OF u])
  then show "sorted_wrt (\<lambda>x y. key x < key y) page" by (simp add: page_def keyset_page_def sorted_wrt_take)
  show "x \<in> set page \<Longrightarrow> x \<in> set rows \<and> ?p x"
    using set_take_subset [of n ?s] by (auto simp: page_def keyset_page_def)
  assume r: "r \<in> set rows" "?p r"
  then have "r \<in> set ?s" by simp
  then have "r \<in> set (take n ?s) \<or> r \<in> set (drop n ?s)" by (metis Un_iff append_take_drop_id set_append)
  moreover have "length (take n ?s) = n \<and> (\<forall>x \<in> set (take n ?s). key x < key r)" if d: "r \<in> set (drop n ?s)"
  proof -
    have "n < length ?s" using d by (metis drop_all list.set(1) empty_iff not_le)
    moreover have "sorted_wrt (\<lambda>x y. key x < key y) (take n ?s @ drop n ?s)" using srt by simp
    ultimately show ?thesis using d by (simp add: sorted_wrt_append del: append_take_drop_id)
  qed
  ultimately show "r \<in> set page \<or> (length page = n \<and> (\<forall>x \<in> set page. key x < key r))"
    by (auto simp: page_def keyset_page_def)
qed

lemma sorted_wrt_last:
  fixes key :: "'r \<Rightarrow> 'k::linorder"
  assumes "sorted_wrt (\<lambda>x y. key x < key y) xs" "xs \<noteq> []"
  shows "\<forall>x \<in> set xs. key x \<le> key (last xs)"
  using assms by (induction xs) (auto simp: less_imp_le)

lemma keyset_pages_sound:
  fixes key :: "'r \<Rightarrow> 'k::linorder"
  assumes u: "\<And>j. unique_on key (rows j)" and n: "0 < n"
    and "keyset_pages (\<lambda>j c. keyset_page key n c (rows j)) key n i cur = Some out"
  shows "sorted_wrt (\<lambda>x y. key x < key y) out
    \<and> (\<forall>x \<in> set out. (\<exists>j. x \<in> set (rows j)) \<and> (case cur of None \<Rightarrow> True | Some c \<Rightarrow> c < key x))
    \<and> (\<forall>k. (\<forall>j. k \<in> key ` set (rows j)) \<and> (case cur of None \<Rightarrow> True | Some c \<Rightarrow> c < k) \<longrightarrow> k \<in> key ` set out)"
proof -
  let ?fetch = "\<lambda>j c. keyset_page key n c (rows j)"
  have "f = ?fetch \<longrightarrow> k = key \<longrightarrow> m = n \<longrightarrow> (sorted_wrt (\<lambda>x y. key x < key y) out
    \<and> (\<forall>x \<in> set out. (\<exists>j. x \<in> set (rows j)) \<and> (case cur of None \<Rightarrow> True | Some c \<Rightarrow> c < key x))
    \<and> (\<forall>k. (\<forall>j. k \<in> key ` set (rows j)) \<and> (case cur of None \<Rightarrow> True | Some c \<Rightarrow> c < k) \<longrightarrow> k \<in> key ` set out))"
    if "keyset_pages f k m i cur = Some out" for f k m
  proof (rule keyset_pages.raw_induct [OF _ that], intro impI, goal_cases)
    case (1 rec f k m i cur out)
    let ?page = "?fetch i cur"
    note pp = keyset_page_props [OF u [of i], where n = n and cur = cur]
    show ?case
    proof (cases "?page = [] \<or> length ?page < n")
      case True
      then have "out = ?page" using 1 by (auto simp: Let_def split: if_splits)
      moreover have lt: "length ?page < n" using True n by auto
      have "k \<in> key ` set ?page" if k: "\<forall>j. k \<in> key ` set (rows j)" "case cur of None \<Rightarrow> True | Some c \<Rightarrow> c < k" for k
      proof -
        obtain r where "r \<in> set (rows i)" "key r = k" using k(1) by blast
        then show ?thesis using pp(3) [of r] k(2) lt by auto
      qed
      ultimately show ?thesis using pp(1,2) by blast
    next
      case False
      then obtain rest where rest: "rec ?fetch key n (Suc i) (Some (key (last ?page))) = Some rest" "out = ?page @ rest"
        using 1 by (auto simp: Let_def split: bind_splits)
      have IH: "sorted_wrt (\<lambda>x y. key x < key y) rest"
        "\<forall>x \<in> set rest. (\<exists>j. x \<in> set (rows j)) \<and> key (last ?page) < key x"
        "\<forall>k. (\<forall>j. k \<in> key ` set (rows j)) \<and> key (last ?page) < k \<longrightarrow> k \<in> key ` set rest"
        using 1(1) [OF rest(1)] by auto
      have lst: "\<forall>x \<in> set ?page. key x \<le> key (last ?page)"
        using sorted_wrt_last [OF pp(1)] False by blast
      have lin: "last ?page \<in> set ?page" using False by simp
      have "sorted_wrt (\<lambda>x y. key x < key y) out"
        using rest(2) pp(1) IH(1,2) lst by (force simp: sorted_wrt_append)
      moreover have "\<forall>x \<in> set out. (\<exists>j. x \<in> set (rows j)) \<and> (case cur of None \<Rightarrow> True | Some c \<Rightarrow> c < key x)"
        using rest(2) pp(2) IH(2) pp(2) [OF lin] by (auto split: option.splits)
      moreover have "k \<in> key ` set out"
        if k: "\<forall>j. k \<in> key ` set (rows j)" "case cur of None \<Rightarrow> True | Some c \<Rightarrow> c < k" for k
      proof -
        obtain r where r: "r \<in> set (rows i)" "key r = k" using k(1) by blast
        then have "r \<in> set ?page \<or> key (last ?page) < k" using pp(3) [of r] k(2) lin by auto
        then show ?thesis using rest(2) IH(3) k(1) r by auto
      qed
      ultimately show ?thesis by blast
    qed
  qed
  then show ?thesis using assms(3) by blast
qed

text \<open>The loop ends as soon as the keys stay within a finite set.\<close>

lemma keyset_pages_terminates:
  fixes key :: "'r \<Rightarrow> 'k::linorder"
  assumes u: "\<And>j. unique_on key (rows j)" and n: "0 < n"
    and K: "finite K" "\<And>j. key ` set (rows j) \<subseteq> K"
  shows "\<exists>out. keyset_pages (\<lambda>j c. keyset_page key n c (rows j)) key n i cur = Some out"
proof (induction "card {k \<in> K. case cur of None \<Rightarrow> True | Some c \<Rightarrow> c < k}" arbitrary: i cur rule: less_induct)
  case less
  let ?page = "keyset_page key n cur (rows i)" and ?S = "\<lambda>cur. {k \<in> K. case cur of None \<Rightarrow> True | Some c \<Rightarrow> c < k}"
  show ?case
  proof (cases "?page = [] \<or> length ?page < n")
    case True
    then show ?thesis by (subst keyset_pages.simps) (auto simp: Let_def)
  next
    case False
    then have lin: "last ?page \<in> set ?page" by simp
    note l = keyset_page_props(2) [OF u lin]
    have "?S (Some (key (last ?page))) \<subset> ?S cur"
      using l K(2) [of i] by (auto split: option.splits)
    then have "card (?S (Some (key (last ?page)))) < card (?S cur)" using K(1) by (simp add: psubset_card_mono)
    then obtain rest where "keyset_pages (\<lambda>j c. keyset_page key n c (rows j)) key n (Suc i) (Some (key (last ?page))) = Some rest"
      using less by blast
    then show ?thesis using False by (subst keyset_pages.simps) (auto simp: Let_def)
  qed
qed

text \<open>What a listing taken page by page from a changing table owes its reader.\<close>

definition faithful_listing :: "('r \<Rightarrow> 'k::linorder) \<Rightarrow> (nat \<Rightarrow> 'r list) \<Rightarrow> 'r list \<Rightarrow> bool" where
  "faithful_listing key rows out \<longleftrightarrow> sorted_wrt (\<lambda>x y. key x < key y) out
     \<and> (\<forall>x \<in> set out. \<exists>j. x \<in> set (rows j)) \<and> (\<forall>k. (\<forall>j. k \<in> key ` set (rows j)) \<longrightarrow> k \<in> key ` set out)"

lemma keyset_pages_faithful:
  fixes key :: "'r \<Rightarrow> 'k::linorder"
  assumes "\<And>j. unique_on key (rows j)" "0 < n" "finite K" "\<And>j. key ` set (rows j) \<subseteq> K"
  obtains out where "keyset_pages (\<lambda>j c. keyset_page key n c (rows j)) key n 0 None = Some out"
    "faithful_listing key rows out"
proof -
  obtain out where out: "keyset_pages (\<lambda>j c. keyset_page key n c (rows j)) key n 0 None = Some out"
    using keyset_pages_terminates [where rows = rows and key = key, OF assms] by blast
  then show ?thesis using keyset_pages_sound [where rows = rows and key = key, OF assms(1,2) out] that
    by (simp add: faithful_listing_def)
qed

end
