(* ===== verification/Learner.thy ===== *)
theory Learner
  imports Store PromptSafety
begin

text \<open>
  The learner's settings: the profile (\<^verbatim>\<open>app/features/profile\<close>), the voice consents
  (\<^verbatim>\<open>app/features/voice_consent\<close>), the atomic first touch both share
  (\<^verbatim>\<open>app/core/persistence.py\<close>) and the onboarding placement
  (\<^verbatim>\<open>app/features/onboarding\<close>), whose level estimate comes from the debrief analyzer, an
  argument here. A text with a NUL character or longer than its column is refused by the database
  with a \<open>DataError\<close>.
\<close>

section \<open>First touch\<close>

text \<open>\<open>INSERT ... ON CONFLICT DO NOTHING\<close>, commit, read back. The insert of a row for a user that
  does not exist violates the foreign key.\<close>

definition first_touch_by_user_id ::
  "(db \<Rightarrow> 'r list) \<Rightarrow> (('r list \<Rightarrow> 'r list) \<Rightarrow> db \<Rightarrow> db) \<Rightarrow> ('r \<Rightarrow> int) \<Rightarrow> (int \<Rightarrow> 'r) \<Rightarrow> int \<Rightarrow> dbtx
   \<Rightarrow> (error + 'r) \<times> dbtx" where
  "first_touch_by_user_id rows upd owner fresh uid t =
     (let mine = (\<lambda>r. owner r = uid);
          conflict = List.find mine (rows (working t)) \<noteq> None
      in if \<not> conflict \<and> get_user uid (working t) = None
         then (Inl (IntegrityErr ''user_id_fkey''), tx_rollback t)
         else let t1 = tx_commit (if conflict then t else tx_modify (upd (\<lambda>rs. rs @ [fresh uid])) t)
              in case List.find mine (rows (working t1)) of
                   None \<Rightarrow> (Inl (OtherErr ''AssertionError''), t1) | Some r \<Rightarrow> (Inr r, t1))"

section \<open>Voice consent\<close>

definition default_consent :: "int \<Rightarrow> voice_consent" where
  "default_consent uid = \<lparr>vc_user_id = uid, vc_transcription = True, vc_scoring = False,
     vc_b2b_share = False, vc_model_training = False\<rparr>"

definition get_consent_by_user_id :: "int \<Rightarrow> db \<Rightarrow> voice_consent option" where
  "get_consent_by_user_id uid d = List.find (\<lambda>c. vc_user_id c = uid) (consents d)"

definition consent_get_or_create :: "int \<Rightarrow> dbtx \<Rightarrow> (error + voice_consent) \<times> dbtx" where
  "consent_get_or_create uid t =
     first_touch_by_user_id consents consents_update vc_user_id default_consent uid t"

definition put_consent :: "voice_consent \<Rightarrow> db \<Rightarrow> db" where
  "put_consent c d = consents_update (update_where (\<lambda>r. vc_user_id r = vc_user_id c) (\<lambda>_. c)) d"

text \<open>\<open>setattr(consent, field, bool(value))\<close>; \<open>None\<close> for a field outside the four.\<close>

definition set_consent_field :: "string \<Rightarrow> bool \<Rightarrow> voice_consent \<Rightarrow> voice_consent option" where
  "set_consent_field f v c =
     (if f = ''transcription'' then Some (c\<lparr>vc_transcription := v\<rparr>)
      else if f = ''scoring'' then Some (c\<lparr>vc_scoring := v\<rparr>)
      else if f = ''b2b_share'' then Some (c\<lparr>vc_b2b_share := v\<rparr>)
      else if f = ''model_training'' then Some (c\<lparr>vc_model_training := v\<rparr>)
      else None)"

text \<open>\<open>bool(None)\<close> is \<open>False\<close>.\<close>

definition py_bool :: "bool option \<Rightarrow> bool" where
  "py_bool v = (v = Some True)"

fun apply_consents :: "(string \<times> bool option) list \<Rightarrow> voice_consent \<Rightarrow> voice_consent option" where
  "apply_consents [] c = Some c"
| "apply_consents ((f, v) # changes) c = (case set_consent_field f (py_bool v) c of
     None \<Rightarrow> None | Some c' \<Rightarrow> apply_consents changes c')"

definition consent_update ::
  "int \<Rightarrow> (string \<times> bool option) list \<Rightarrow> dbtx \<Rightarrow> (error + voice_consent) \<times> dbtx" where
  "consent_update uid changes t = (case consent_get_or_create uid t of
      (Inl e, t1) \<Rightarrow> (Inl e, t1)
    | (Inr c, t1) \<Rightarrow> (case apply_consents changes c of
          None \<Rightarrow> (Inl (OtherErr ''ValueError''), t1)
        | Some c' \<Rightarrow> (Inr c', tx_commit (tx_modify (put_consent c') t1))))"

definition transcription_and_scoring :: "int \<Rightarrow> db \<Rightarrow> bool \<times> bool" where
  "transcription_and_scoring uid d = (case get_consent_by_user_id uid d of
     None \<Rightarrow> (True, False) | Some c \<Rightarrow> (vc_transcription c, vc_scoring c))"

definition may_transcribe :: "int \<Rightarrow> db \<Rightarrow> bool" where
  "may_transcribe uid d = fst (transcription_and_scoring uid d)"

definition may_score :: "int \<Rightarrow> db \<Rightarrow> bool" where
  "may_score uid d = snd (transcription_and_scoring uid d)"

section \<open>Profile\<close>

definition new_profile :: "int \<Rightarrow> learner_profile" where
  "new_profile uid = \<lparr>lp_user_id = uid, lp_interests = Some [], lp_goal = None,
     lp_memory_summary = [], lp_correction_intensity = ''gentle'', lp_accent = ''us''\<rparr>"

definition get_profile_by_user_id :: "int \<Rightarrow> db \<Rightarrow> learner_profile option" where
  "get_profile_by_user_id uid d = List.find (\<lambda>p. lp_user_id p = uid) (profiles d)"

definition profile_get_or_create :: "int \<Rightarrow> dbtx \<Rightarrow> (error + learner_profile) \<times> dbtx" where
  "profile_get_or_create uid t =
     first_touch_by_user_id profiles profiles_update lp_user_id new_profile uid t"

definition put_profile :: "learner_profile \<Rightarrow> db \<Rightarrow> db" where
  "put_profile p d = profiles_update (update_where (\<lambda>r. lp_user_id r = lp_user_id p) (\<lambda>_. p)) d"

text \<open>The fields a request names, each with its value; \<open>None\<close> is an explicit null.\<close>

datatype profile_change =
    SetInterests "string list option"
  | SetGoal "string option"
  | SetIntensity "string option"
  | SetAccent "string option"
  | SetMemory "string option"

fun set_profile_field :: "profile_change \<Rightarrow> learner_profile \<Rightarrow> learner_profile" where
  "set_profile_field (SetInterests v) p = p\<lparr>lp_interests := v\<rparr>"
| "set_profile_field (SetGoal v) p = p\<lparr>lp_goal := v\<rparr>"
| "set_profile_field (SetIntensity v) p = (case v of None \<Rightarrow> p | Some x \<Rightarrow> p\<lparr>lp_correction_intensity := x\<rparr>)"
| "set_profile_field (SetAccent v) p = (case v of None \<Rightarrow> p | Some x \<Rightarrow> p\<lparr>lp_accent := x\<rparr>)"
| "set_profile_field (SetMemory v) p = (case v of None \<Rightarrow> p
     | Some x \<Rightarrow> p\<lparr>lp_memory_summary := strip_persistent_instructions x MAX_MEMORY_CHARS\<rparr>)"

text \<open>A null for a \<open>NOT NULL\<close> column other than the JSON one.\<close>

definition violates_not_null :: "profile_change \<Rightarrow> bool" where
  "violates_not_null c \<longleftrightarrow> c \<in> {SetIntensity None, SetAccent None, SetMemory None}"

definition pg_text_ok :: "string \<Rightarrow> bool" where
  "pg_text_ok s \<longleftrightarrow> CHR 0x00 \<notin> set s"

definition profile_storable :: "learner_profile \<Rightarrow> bool" where
  "profile_storable p \<longleftrightarrow>
     (case lp_interests p of None \<Rightarrow> True | Some xs \<Rightarrow> list_all pg_text_ok xs)
     \<and> (case lp_goal p of None \<Rightarrow> True | Some g \<Rightarrow> pg_text_ok g \<and> length g \<le> 500)
     \<and> pg_text_ok (lp_memory_summary p)
     \<and> pg_text_ok (lp_correction_intensity p) \<and> length (lp_correction_intensity p) \<le> 16
     \<and> pg_text_ok (lp_accent p) \<and> length (lp_accent p) \<le> 8"

definition profile_update ::
  "int \<Rightarrow> profile_change list \<Rightarrow> dbtx \<Rightarrow> (error + learner_profile) \<times> dbtx" where
  "profile_update uid changes t = (case profile_get_or_create uid t of
      (Inl e, t1) \<Rightarrow> (Inl e, t1)
    | (Inr p, t1) \<Rightarrow>
        let p' = fold set_profile_field changes p in
        if list_ex violates_not_null changes then (Inl (IntegrityErr ''not-null''), tx_rollback t1)
        else if \<not> profile_storable p' then (Inl (DataErr ''profile''), tx_rollback t1)
        else (Inr p', tx_commit (tx_modify (put_profile p') t1)))"

section \<open>Routes\<close>

definition opt_in :: "string option \<Rightarrow> string list \<Rightarrow> bool" where
  "opt_in v allowed \<longleftrightarrow> (case v of None \<Rightarrow> True | Some x \<Rightarrow> x \<in> set allowed)"

text \<open>The request schema.\<close>

fun profile_change_valid :: "profile_change \<Rightarrow> bool" where
  "profile_change_valid (SetInterests v) \<longleftrightarrow>
     (case v of None \<Rightarrow> True | Some xs \<Rightarrow> length xs \<le> 20 \<and> list_all (\<lambda>x. length x \<le> 50) xs)"
| "profile_change_valid (SetGoal v) \<longleftrightarrow> (case v of None \<Rightarrow> True | Some g \<Rightarrow> length g \<le> 500)"
| "profile_change_valid (SetIntensity v) \<longleftrightarrow> opt_in v [''gentle'', ''detailed'']"
| "profile_change_valid (SetAccent v) \<longleftrightarrow> opt_in v [''us'', ''uk'']"
| "profile_change_valid (SetMemory v) \<longleftrightarrow> True"

text \<open>\<open>ProfileOut.model_validate\<close>: the response schema wants a list of interests and values of the
  two closed sets.\<close>

definition profile_out :: "learner_profile \<Rightarrow> error + learner_profile" where
  "profile_out p =
     (if lp_interests p \<noteq> None \<and> lp_correction_intensity p \<in> {''gentle'', ''detailed''}
        \<and> lp_accent p \<in> {''us'', ''uk''}
      then Inr p else Inl (OtherErr ''ValidationError''))"

definition get_profile_route :: "int \<Rightarrow> dbtx \<Rightarrow> (error + learner_profile) \<times> dbtx" where
  "get_profile_route uid t = (case profile_get_or_create uid t of
      (Inl e, t1) \<Rightarrow> (Inl e, t1) | (Inr p, t1) \<Rightarrow> (profile_out p, t1))"

definition update_profile_route ::
  "int \<Rightarrow> profile_change list \<Rightarrow> dbtx \<Rightarrow> (error + learner_profile) \<times> dbtx" where
  "update_profile_route uid changes t =
     (if \<not> list_all profile_change_valid changes then (Inl (RequestValidationErr []), t)
      else case profile_update uid changes t of
        (Inl e, t1) \<Rightarrow> (Inl e, t1) | (Inr p, t1) \<Rightarrow> (profile_out p, t1))"

text \<open>\<open>/transcribe\<close> after its rate limit: the consent gate comes before the upload is parsed; the
  parsed body and the engine are arguments.\<close>

definition transcribe_route ::
  "(unit \<Rightarrow> error + nat list) \<Rightarrow> (nat list \<Rightarrow> error + string) \<Rightarrow> int \<Rightarrow> db \<Rightarrow> error + string" where
  "transcribe_route read_audio stt uid d =
     (if \<not> may_transcribe uid d
      then Inl (DomainErr AuthorizationError ''Transcription consent has been revoked'')
      else case read_audio () of Inl e \<Rightarrow> Inl e
        | Inr data \<Rightarrow> if data = [] then Inr [] else stt data)"

section \<open>Placement\<close>

definition CEFR_LEVELS :: "string list" where
  "CEFR_LEVELS = [''A1'', ''A2'', ''B1'', ''B2'', ''C1'', ''C2'']"

abbreviation VALID_CEFR :: "string set" where "VALID_CEFR \<equiv> set CEFR_LEVELS"

record placement_result =
  pr_cefr_level :: string
  pr_interests :: "string list"
  pr_goal :: string

definition clean_answers :: "string list \<Rightarrow> string list" where
  "clean_answers answers =
     map (\<lambda>a. take 1000 (py_strip a)) (filter (\<lambda>a. py_strip a \<noteq> []) (take 6 answers))"

definition clean_placement_interests :: "string list \<Rightarrow> string list" where
  "clean_placement_interests xs = map py_strip (filter (\<lambda>i. py_strip i \<noteq> []) (take 10 xs))"

definition clean_placement_goal :: "string \<Rightarrow> string" where
  "clean_placement_goal goal =
     (if py_strip goal \<noteq> [] then strip_persistent_instructions (py_strip goal) MAX_MEMORY_CHARS else [])"

text \<open>\<open>analyze\<close> gives the estimate for the cleaned answers, in the learner's native language. The
  account's row is flushed with its new level before the profile is written.\<close>

definition place ::
  "(string list \<Rightarrow> string \<Rightarrow> string \<Rightarrow> error + string) \<Rightarrow> user \<Rightarrow> string list \<Rightarrow> string list \<Rightarrow> string \<Rightarrow> dbtx
   \<Rightarrow> (error + placement_result) \<times> dbtx" where
  "place analyze u answers interests goal t =
     (let said = clean_answers answers;
          fallback = u_cefr_level u
      in case (if said \<noteq> [] then analyze said (u_native_language u) fallback else Inr fallback) of
           Inl e \<Rightarrow> (Inl e, t)
         | Inr estimate \<Rightarrow>
            let cefr = (if estimate \<in> VALID_CEFR then estimate else fallback);
                t1 = tx_modify (put_user (u_id u) (u_cefr_level_update (\<lambda>_. cefr))) t;
                ints = clean_placement_interests interests;
                g = clean_placement_goal goal
            in case profile_update (u_id u) [SetInterests (Some ints), SetGoal (Some g)] t1 of
                 (Inl e, t2) \<Rightarrow> (Inl e, t2)
               | (Inr p, t2) \<Rightarrow> (Inr \<lparr>pr_cefr_level = cefr, pr_interests = ints, pr_goal = g\<rparr>, t2))"

section \<open>Laws of the first touch\<close>

locale owned_rows =
  fixes rows :: "db \<Rightarrow> 'r list" and upd :: "('r list \<Rightarrow> 'r list) \<Rightarrow> db \<Rightarrow> db"
    and owner :: "'r \<Rightarrow> int" and fresh :: "int \<Rightarrow> 'r"
  assumes rows_upd [simp]: "rows (upd f d) = f (rows d)"
    and users_upd [simp]: "users (upd f d) = users d"
    and owner_fresh [simp]: "owner (fresh uid) = uid"
begin

definition row_of :: "int \<Rightarrow> db \<Rightarrow> 'r option" where
  "row_of uid d = List.find (\<lambda>r. owner r = uid) (rows d)"

text \<open>The database after a touch, and the row every caller then sees.\<close>

definition touched :: "int \<Rightarrow> db \<Rightarrow> db" where
  "touched uid d = (if row_of uid d = None then upd (\<lambda>rs. rs @ [fresh uid]) d else d)"

lemma row_of_SomeD: "row_of uid d = Some r \<Longrightarrow> r \<in> set (rows d) \<and> owner r = uid"
  unfolding row_of_def by (rule find_SomeD)

lemma row_of_touched: "row_of v (touched uid d) =
   (if v = uid \<and> row_of uid d = None then Some (fresh uid) else row_of v d)"
proof (cases "row_of uid d")
  case None
  show ?thesis
  proof (cases "row_of v d")
    case None
    then show ?thesis using \<open>row_of uid d = None\<close> by (auto simp: row_of_def touched_def find_append_None)
  next
    case (Some r)
    then show ?thesis using None by (auto simp: row_of_def touched_def find_append_Some)
  qed
qed (simp add: touched_def)

lemma touch_eq:
  assumes "get_user uid (working t) \<noteq> None"
  shows "first_touch_by_user_id rows upd owner fresh uid t
    = (Inr (the (row_of uid (touched uid (working t)))),
       tx_commit (tx_modify (touched uid) t))"
proof -
  obtain r where r: "row_of uid (touched uid (working t)) = Some r"
    by (cases "row_of uid (working t)") (auto simp: row_of_touched)
  show ?thesis
  proof (cases "row_of uid (working t)")
    case None
    then have "touched uid (working t) = upd (\<lambda>rs. rs @ [fresh uid]) (working t)" by (simp add: touched_def)
    then show ?thesis using assms None r
      by (simp add: first_touch_by_user_id_def row_of_def Let_def tx_modify_def tx_commit_def)
  next
    case (Some x)
    then show ?thesis using assms r
      by (auto simp: first_touch_by_user_id_def row_of_def touched_def Let_def tx_modify_def tx_commit_def)
  qed
qed

lemma touched_idem: "touched uid (touched uid d) = touched uid d"
  using row_of_touched [of uid uid d] by (simp add: touched_def split: if_splits)

lemma touched_unique: "unique_on owner (rows d) \<Longrightarrow> unique_on owner (rows (touched uid d))"
  by (auto simp: touched_def row_of_def unique_on_snoc find_None_conv)

lemma get_user_touched [simp]: "get_user v (touched uid d) = get_user v d"
  by (simp add: touched_def get_user_def)

text \<open>Two first requests of a user, in either order, see the same row.\<close>

lemma touch_race:
  assumes "get_user uid d \<noteq> None"
  shows "fst (first_touch_by_user_id rows upd owner fresh uid (tx_begin d))
    = fst (first_touch_by_user_id rows upd owner fresh uid
        (tx_begin (committed (snd (first_touch_by_user_id rows upd owner fresh uid (tx_begin d))))))"
  using assms by (simp add: touch_eq touched_idem)

lemma row_of_put:
  assumes "row_of uid d \<noteq> None" "owner r = uid"
  shows "row_of v (upd (update_where (\<lambda>x. owner x = uid) (\<lambda>_. r)) d)
    = (if v = uid then Some r else row_of v d)"
proof -
  have "row_of v (upd (update_where (\<lambda>x. owner x = uid) (\<lambda>_. r)) d)
      = map_option (\<lambda>x. if owner x = uid then r else x) (row_of v d)"
    unfolding row_of_def rows_upd by (rule find_update_where_same) (use assms(2) in auto)
  then show ?thesis using assms(1) by (cases "row_of v d") (auto dest: row_of_SomeD)
qed

end

interpretation consent_rows: owned_rows consents consents_update vc_user_id default_consent
  by unfold_locales (simp_all add: default_consent_def)

interpretation profile_rows: owned_rows profiles profiles_update lp_user_id new_profile
  by unfold_locales (simp_all add: new_profile_def)

lemma get_consent_row: "get_consent_by_user_id = consent_rows.row_of"
  by (simp add: fun_eq_iff get_consent_by_user_id_def consent_rows.row_of_def)

lemma get_profile_row: "get_profile_by_user_id = profile_rows.row_of"
  by (simp add: fun_eq_iff get_profile_by_user_id_def profile_rows.row_of_def)

section \<open>Consents\<close>

text \<open>The value of a consent by its field name.\<close>

definition consent_field :: "string \<Rightarrow> voice_consent \<Rightarrow> bool" where
  "consent_field f c = (if f = ''transcription'' then vc_transcription c
     else if f = ''scoring'' then vc_scoring c
     else if f = ''b2b_share'' then vc_b2b_share c else vc_model_training c)"

definition CONSENT_FIELDS :: "string list" where
  "CONSENT_FIELDS = [''transcription'', ''scoring'', ''b2b_share'', ''model_training'']"

lemma set_consent_field_Some:
  assumes "f \<in> set CONSENT_FIELDS"
  shows "\<exists>c'. set_consent_field f v c = Some c' \<and> vc_user_id c' = vc_user_id c
    \<and> (\<forall>g \<in> set CONSENT_FIELDS. consent_field g c' = (if g = f then v else consent_field g c))"
  using assms unfolding CONSENT_FIELDS_def
  by (auto simp: set_consent_field_def consent_field_def)

lemma apply_consents_Some:
  assumes "fst ` set changes \<subseteq> set CONSENT_FIELDS" "distinct (map fst changes)"
  shows "\<exists>c'. apply_consents changes c = Some c' \<and> vc_user_id c' = vc_user_id c
    \<and> (\<forall>g \<in> set CONSENT_FIELDS. consent_field g c' =
        (case map_of changes g of None \<Rightarrow> consent_field g c | Some v \<Rightarrow> py_bool v))"
  using assms
proof (induction changes arbitrary: c)
  case (Cons ch changes)
  obtain f v where ch: "ch = (f, v)" by (cases ch)
  then have f: "f \<in> set CONSENT_FIELDS" using Cons.prems by simp
  obtain c1 where c1: "set_consent_field f (py_bool v) c = Some c1" "vc_user_id c1 = vc_user_id c"
    "\<forall>g \<in> set CONSENT_FIELDS. consent_field g c1 = (if g = f then py_bool v else consent_field g c)"
    using set_consent_field_Some [OF f, of "py_bool v" c] by blast
  obtain c' where c': "apply_consents changes c1 = Some c'" "vc_user_id c' = vc_user_id c1"
    "\<forall>g \<in> set CONSENT_FIELDS. consent_field g c' =
        (case map_of changes g of None \<Rightarrow> consent_field g c1 | Some v \<Rightarrow> py_bool v)"
    using Cons.IH [of c1] Cons.prems by auto
  have "map_of changes f = None" using Cons.prems ch by (simp add: map_of_eq_None_iff)
  then show ?case using c1 c' ch by (auto split: option.splits)
qed simp

text \<open>A consent update changes exactly the consents it names and takes effect at once: for any set of
  known fields each named consent gets its value (an explicit null revokes), each other keeps its stored
  value or the protective default, no other learner's consents move, and from then on the transcription
  route refuses the learner, without reading the upload, exactly when transcription is revoked.\<close>

theorem consent_update_effect:
  assumes "get_user uid d \<noteq> None" "fst ` set changes \<subseteq> set CONSENT_FIELDS" "distinct (map fst changes)"
    and "consent_update uid changes (tx_begin d) = (r, t)"
  shows "\<exists>c. r = Inr c \<and> get_consent_by_user_id uid (committed t) = Some c
    \<and> (\<forall>f \<in> set CONSENT_FIELDS. consent_field f c = (case map_of changes f of Some v \<Rightarrow> py_bool v
          | None \<Rightarrow> consent_field f (case get_consent_by_user_id uid d of Some c0 \<Rightarrow> c0 | None \<Rightarrow> default_consent uid)))
    \<and> (\<forall>v. v \<noteq> uid \<longrightarrow> get_consent_by_user_id v (committed t) = get_consent_by_user_id v d)
    \<and> (\<forall>read stt. transcribe_route read stt uid (committed t) = (if vc_transcription c
          then (case read () of Inl e \<Rightarrow> Inl e | Inr data \<Rightarrow> if data = [] then Inr [] else stt data)
          else Inl (DomainErr AuthorizationError ''Transcription consent has been revoked'')))"
proof -
  define c0 where "c0 = (case get_consent_by_user_id uid d of Some c0 \<Rightarrow> c0 | None \<Rightarrow> default_consent uid)"
  have row: "consent_rows.row_of uid (consent_rows.touched uid d) = Some c0"
    by (cases "consent_rows.row_of uid d") (simp_all add: c0_def get_consent_row consent_rows.row_of_touched)
  have c0u: "vc_user_id c0 = uid" using consent_rows.row_of_SomeD [OF row] by simp
  obtain c where c: "apply_consents changes c0 = Some c" "vc_user_id c = vc_user_id c0"
    "\<forall>g \<in> set CONSENT_FIELDS. consent_field g c =
        (case map_of changes g of None \<Rightarrow> consent_field g c0 | Some v \<Rightarrow> py_bool v)"
    using apply_consents_Some [OF assms(2,3), of c0] by blast
  have res: "r = Inr c" "committed t = put_consent c (consent_rows.touched uid d)"
    using assms(1,4) row c(1)
    by (auto simp: consent_update_def consent_get_or_create_def consent_rows.touch_eq)
  have get: "get_consent_by_user_id v (committed t) = (if v = uid then Some c else get_consent_by_user_id v d)" for v
    using consent_rows.row_of_put [of uid "consent_rows.touched uid d" c v] row c(2) c0u res(2)
    by (simp add: get_consent_row put_consent_def consent_rows.row_of_touched)
  have "(\<forall>f \<in> set CONSENT_FIELDS. consent_field f c = (case map_of changes f of Some v \<Rightarrow> py_bool v
          | None \<Rightarrow> consent_field f c0))" using c(3) by (simp split: option.splits)
  moreover have "transcribe_route read stt uid (committed t) = (if vc_transcription c
      then (case read () of Inl e \<Rightarrow> Inl e | Inr data \<Rightarrow> if data = [] then Inr [] else stt data)
      else Inl (DomainErr AuthorizationError ''Transcription consent has been revoked''))" for read stt
    using get [of uid] by (simp add: transcribe_route_def may_transcribe_def transcription_and_scoring_def)
  ultimately show ?thesis unfolding c0_def [symmetric] using get res(1) by simp
qed

definition demo_learner_db :: db where
  "demo_learner_db = empty_db\<lparr>users := [new_user 1 ''a@b.c'' ''h'' ''fr''], seq_users := 2\<rparr>"

theorem consent_update_effect_witness:
  "\<exists>c t. consent_update 1 [(''transcription'', Some False), (''scoring'', Some True)] (tx_begin demo_learner_db) = (Inr c, t)
    \<and> \<not> vc_transcription c \<and> vc_scoring c \<and> \<not> vc_b2b_share c
    \<and> transcribe_route (\<lambda>_. Inr [7]) (\<lambda>_. Inr ''hi'') 1 (committed t)
        = Inl (DomainErr AuthorizationError ''Transcription consent has been revoked'')"
proof -
  let ?ch = "[(''transcription'', Some False), (''scoring'', Some True)]"
  obtain r t where rt: "consent_update 1 ?ch (tx_begin demo_learner_db) = (r, t)" by force
  have u: "get_user 1 demo_learner_db \<noteq> None"
    by (simp add: get_user_def demo_learner_db_def new_user_def)
  have n: "get_consent_by_user_id 1 demo_learner_db = None"
    by (simp add: get_consent_by_user_id_def demo_learner_db_def empty_db_def)
  have f: "fst ` set ?ch \<subseteq> set CONSENT_FIELDS" "distinct (map fst ?ch)"
    by (simp_all add: CONSENT_FIELDS_def)
  obtain c where c: "r = Inr c"
    "\<forall>f \<in> set CONSENT_FIELDS. consent_field f c = (case map_of ?ch f of Some v \<Rightarrow> py_bool v
          | None \<Rightarrow> consent_field f (case get_consent_by_user_id 1 demo_learner_db of Some c0 \<Rightarrow> c0 | None \<Rightarrow> default_consent 1))"
    "\<forall>read stt. transcribe_route read stt 1 (committed t) = (if vc_transcription c
          then (case read () of Inl e \<Rightarrow> Inl e | Inr data \<Rightarrow> if data = [] then Inr [] else stt data)
          else Inl (DomainErr AuthorizationError ''Transcription consent has been revoked''))"
    using consent_update_effect [OF u f rt] by blast
  have "\<not> vc_transcription c" "vc_scoring c" "\<not> vc_b2b_share c"
    using c(2) n by (simp_all add: CONSENT_FIELDS_def consent_field_def py_bool_def default_consent_def)
  then show ?thesis using rt c(1,3) by auto
qed

section \<open>Profile updates and placement\<close>

lemma sanitised_storable:
  "pg_text_ok (strip_persistent_instructions s n)" "length (strip_persistent_instructions s n) \<le> n"
proof -
  have "is_control_char (CHR 0x00)" by (simp add: is_control_char_def)
  then show "pg_text_ok (strip_persistent_instructions s n)"
    unfolding strip_persistent_instructions_def pg_text_ok_def
    using text_normal_clean_text by (auto simp: text_normal_def)
  show "length (strip_persistent_instructions s n) \<le> n"
    unfolding strip_persistent_instructions_def by (rule length_clean_text)
qed

lemma put_profile_frame [simp]:
  "users (put_profile p d) = users d" "get_user v (put_profile p d) = get_user v d"
  "sessions (put_profile p d) = sessions d"
  by (simp_all add: put_profile_def get_user_def)

text \<open>The profile a request starts from: the stored row, or the defaults.\<close>

definition profile_before :: "int \<Rightarrow> db \<Rightarrow> learner_profile" where
  "profile_before uid d = (case get_profile_by_user_id uid d of None \<Rightarrow> new_profile uid | Some p \<Rightarrow> p)"

lemma profile_before_row:
  "profile_rows.row_of uid (profile_rows.touched uid d) = Some (profile_before uid d)"
  by (cases "profile_rows.row_of uid d")
    (simp_all add: profile_before_def get_profile_row profile_rows.row_of_touched)

lemma profile_before_user [simp]: "lp_user_id (profile_before uid d) = uid"
  using profile_rows.row_of_SomeD [OF profile_before_row] by simp

lemma set_profile_field_user [simp]: "lp_user_id (set_profile_field c p) = lp_user_id p"
  by (cases c) (auto split: option.splits)

lemma fold_set_profile_user [simp]: "lp_user_id (fold set_profile_field cs p) = lp_user_id p"
  by (induction cs arbitrary: p) auto

lemma profile_update_cases:
  fixes uid :: int and t :: dbtx and changes :: "profile_change list"
  assumes "get_user uid (working t) \<noteq> None"
  defines "d1 \<equiv> profile_rows.touched uid (working t)"
  defines "p' \<equiv> fold set_profile_field changes (profile_before uid (working t))"
  shows "list_ex violates_not_null changes \<Longrightarrow>
      profile_update uid changes t = (Inl (IntegrityErr ''not-null''), tx_begin d1)"
    and "\<not> list_ex violates_not_null changes \<Longrightarrow> \<not> profile_storable p' \<Longrightarrow>
      profile_update uid changes t = (Inl (DataErr ''profile''), tx_begin d1)"
    and "\<not> list_ex violates_not_null changes \<Longrightarrow> profile_storable p' \<Longrightarrow>
      profile_update uid changes t = (Inr p', tx_begin (put_profile p' d1))"
  using assms profile_before_row [of uid "working t"]
  by (simp_all add: profile_update_def profile_get_or_create_def profile_rows.touch_eq Let_def
      tx_rollback_def tx_commit_def tx_modify_def tx_begin_def)

lemma get_profile_put:
  assumes "lp_user_id p = uid"
  shows "get_profile_by_user_id uid (put_profile p (profile_rows.touched uid d)) = Some p"
  using profile_rows.row_of_put [of uid "profile_rows.touched uid d" p uid] profile_before_row [of uid d] assms
  by (simp add: get_profile_row put_profile_def)

text \<open>The level and the profile of a placement are not written together: for any placement whose analysis
  returns, the account's new level is committed in every case. When all submitted interests are storable
  the interests and the sanitised goal are stored with it; when one contains a NUL character the request
  fails with a data error and the profile keeps its old interests and goal, the level having moved.\<close>

theorem placement_outcome:
  assumes "get_user (u_id u) d = Some u" "profile_storable (profile_before (u_id u) d)"
    and "(if clean_answers answers \<noteq> [] then analyze (clean_answers answers) (u_native_language u) (u_cefr_level u)
          else Inr (u_cefr_level u)) = Inr estimate"
    and "place analyze u answers interests goal (tx_begin d) = (r, t)"
  shows "(let cefr = (if estimate \<in> VALID_CEFR then estimate else u_cefr_level u);
              ints = clean_placement_interests interests; g = clean_placement_goal goal;
              p0 = profile_before (u_id u) d in
     get_user (u_id u) (committed t) = Some (u\<lparr>u_cefr_level := cefr\<rparr>)
     \<and> (if list_all pg_text_ok ints
        then r = Inr \<lparr>pr_cefr_level = cefr, pr_interests = ints, pr_goal = g\<rparr>
          \<and> get_profile_by_user_id (u_id u) (committed t) = Some (p0\<lparr>lp_interests := Some ints, lp_goal := Some g\<rparr>)
        else r = Inl (DataErr ''profile'') \<and> get_profile_by_user_id (u_id u) (committed t) = Some p0))"
proof -
  let ?cefr = "if estimate \<in> VALID_CEFR then estimate else u_cefr_level u"
  let ?ints = "clean_placement_interests interests" and ?g = "clean_placement_goal goal"
  let ?d1 = "put_user (u_id u) (u_cefr_level_update (\<lambda>_. ?cefr)) d" and ?uid = "u_id u"
  let ?ch = "[SetInterests (Some ?ints), SetGoal (Some ?g)]"
  have usr: "get_user ?uid ?d1 = Some (u\<lparr>u_cefr_level := ?cefr\<rparr>)"
    using get_user_put_user_same [OF _ assms(1)] by simp
  have pb: "profile_before ?uid ?d1 = profile_before ?uid d"
    by (simp add: profile_before_def get_profile_by_user_id_def)
  have g: "pg_text_ok ?g" "length ?g \<le> 500"
    using sanitised_storable [of "py_strip goal" MAX_MEMORY_CHARS]
    by (auto simp: clean_placement_goal_def pg_text_ok_def MAX_MEMORY_CHARS_def)
  have st: "profile_storable (fold set_profile_field ?ch (profile_before ?uid d)) \<longleftrightarrow> list_all pg_text_ok ?ints"
    using assms(2) g by (simp add: profile_storable_def)
  have nn: "\<not> list_ex violates_not_null ?ch" by (simp add: violates_not_null_def)
  have u1: "get_user ?uid (working (tx_modify (put_user ?uid (u_cefr_level_update (\<lambda>_. ?cefr))) (tx_begin d))) \<noteq> None"
    using usr by simp
  note cs = profile_update_cases(2,3) [OF u1 nn, simplified, unfolded pb]
  show ?thesis
  proof (cases "list_all pg_text_ok ?ints")
    case True
    then have "r = Inr \<lparr>pr_cefr_level = ?cefr, pr_interests = ?ints, pr_goal = ?g\<rparr>"
      "committed t = put_profile ((profile_before ?uid d)\<lparr>lp_interests := Some ?ints, lp_goal := Some ?g\<rparr>)
         (profile_rows.touched ?uid ?d1)"
      using assms(3,4) cs(2) st by (auto simp: place_def Let_def)
    then show ?thesis using usr get_profile_put True by (simp add: Let_def)
  next
    case False
    then have "r = Inl (DataErr ''profile'')" "committed t = profile_rows.touched ?uid ?d1"
      using assms(3,4) cs(1) st by (auto simp: place_def Let_def)
    then show ?thesis using usr False profile_before_row [of ?uid ?d1] pb by (simp add: Let_def get_profile_row)
  qed
qed

theorem placement_outcome_witness:
  "\<exists>t. place (\<lambda>_ _ _. Inr ''C1'') (new_user 1 ''a@b.c'' ''h'' ''fr'') [''Hello there''] [[CHR 0x00]] [] (tx_begin demo_learner_db)
     = (Inl (DataErr ''profile''), t)
   \<and> get_user 1 (committed t) = Some ((new_user 1 ''a@b.c'' ''h'' ''fr'')\<lparr>u_cefr_level := ''C1''\<rparr>)
   \<and> get_profile_by_user_id 1 (committed t) = Some (new_profile 1)"
proof -
  let ?u = "new_user 1 ''a@b.c'' ''h'' ''fr''" and ?an = "\<lambda>_ _ _. Inr ''C1'' :: error + string"
  obtain r t where rt: "place ?an ?u [''Hello there''] [[CHR 0x00]] [] (tx_begin demo_learner_db) = (r, t)" by force
  have id: "u_id ?u = 1" by (simp add: new_user_def)
  have pb: "profile_before 1 demo_learner_db = new_profile 1"
    by (simp add: profile_before_def get_profile_by_user_id_def demo_learner_db_def empty_db_def)
  have u: "get_user (u_id ?u) demo_learner_db = Some ?u"
    by (simp add: get_user_def demo_learner_db_def new_user_def)
  have s: "profile_storable (profile_before (u_id ?u) demo_learner_db)"
    by (simp add: id pb profile_storable_def new_profile_def pg_text_ok_def)
  have a: "(if clean_answers [''Hello there''] \<noteq> [] then ?an (clean_answers [''Hello there'']) (u_native_language ?u) (u_cefr_level ?u)
      else Inr (u_cefr_level ?u)) = Inr ''C1''"
    by (simp add: clean_answers_def py_strip_def py_lstrip_def py_rstrip_def py_isspace_def)
  have i: "\<not> list_all pg_text_ok (clean_placement_interests [[CHR 0x00]])"
    by (simp add: clean_placement_interests_def pg_text_ok_def py_strip_def py_lstrip_def py_rstrip_def py_isspace_def)
  show ?thesis using placement_outcome [OF u s a rt] rt i pb
    by (auto simp: Let_def id CEFR_LEVELS_def)
qed

end
