(* ===== verification/Notebook.thy ===== *)
theory Notebook
  imports Keyset Learner
begin

text \<open>
  The vocabulary notebook (\<^verbatim>\<open>app/features/vocabulary\<close>): the upsert of a card, its capture from a
  debrief, the notebook page and the status of a card. A database session whose statement failed refuses
  every further statement until it is rolled back: a request session is its transaction together with
  the flag that says so.
\<close>

section \<open>Request sessions\<close>

type_synonym sess = "dbtx \<times> bool"

definition sess_exec :: "(dbtx \<Rightarrow> (error + 'a) \<times> dbtx) \<Rightarrow> sess \<Rightarrow> (error + 'a) \<times> sess" where
  "sess_exec f s = (case s of (t, aborted) \<Rightarrow>
     if aborted then (Inl (OtherErr ''InFailedSQLTransactionError''), s)
     else case f t of (Inl e, t') \<Rightarrow> (Inl e, (t', True)) | (Inr x, t') \<Rightarrow> (Inr x, (t', False)))"

definition sess_rollback :: "sess \<Rightarrow> sess" where
  "sess_rollback s = (tx_rollback (fst s), False)"

lemma sess_exec_aborted [simp]: "sess_exec f (t, True) = (Inl (OtherErr ''InFailedSQLTransactionError''), (t, True))"
  by (simp add: sess_exec_def)

lemma sess_exec_live: "sess_exec f (t, False) = (case f t of (Inl e, t') \<Rightarrow> (Inl e, (t', True)) | (Inr x, t') \<Rightarrow> (Inr x, (t', False)))"
  by (simp add: sess_exec_def)

section \<open>Repository\<close>

definition is_card :: "int \<Rightarrow> string \<Rightarrow> vocabulary_entry \<Rightarrow> bool" where
  "is_card uid word v \<longleftrightarrow> v_user_id v = uid \<and> v_word v = word"

definition find_card :: "int \<Rightarrow> string \<Rightarrow> db \<Rightarrow> vocabulary_entry option" where
  "find_card uid word d = List.find (is_card uid word) (vocabulary d)"

definition card_storable :: "string \<Rightarrow> string \<Rightarrow> string \<Rightarrow> string \<Rightarrow> bool" where
  "card_storable word phonetic translation example \<longleftrightarrow>
     list_all pg_text_ok [word, phonetic, translation, example]
     \<and> length word \<le> 120 \<and> length phonetic \<le> 200 \<and> length translation \<le> 300"

definition put_card :: "int \<Rightarrow> int option \<Rightarrow> string \<Rightarrow> string \<Rightarrow> string \<Rightarrow> string \<Rightarrow> db \<Rightarrow> db" where
  "put_card uid sid word phonetic translation example d =
     d\<lparr>vocabulary := (if find_card uid word d = None
         then vocabulary d @ [\<lparr>v_id = seq_vocabulary d, v_user_id = uid, v_session_id = sid, v_word = word,
           v_phonetic = phonetic, v_translation = translation, v_example = example, v_status = STATUS_REVIEW\<rparr>]
         else update_where (is_card uid word) (\<lambda>v. v\<lparr>v_session_id := sid, v_phonetic := phonetic,
           v_translation := translation, v_example := example, v_status := STATUS_REVIEW\<rparr>) (vocabulary d)),
       seq_vocabulary := seq_vocabulary d + 1\<rparr>"

text \<open>The statement, and its commit. The row must fit its columns and its foreign keys must exist.\<close>

definition upsert_card ::
  "int \<Rightarrow> int option \<Rightarrow> string \<Rightarrow> string \<Rightarrow> string \<Rightarrow> string \<Rightarrow> dbtx \<Rightarrow> (error + unit) \<times> dbtx" where
  "upsert_card uid sid word phonetic translation example t =
     (if \<not> card_storable word phonetic translation example then (Inl (DataErr ''vocabulary_entries''), t)
      else if get_user uid (working t) = None
        \<or> (case sid of None \<Rightarrow> False | Some s \<Rightarrow> s \<notin> cs_id ` set (sessions (working t)))
      then (Inl (IntegrityErr ''vocabulary_entries_fkey''), t)
      else (Inr (), tx_commit (tx_modify (put_card uid sid word phonetic translation example) t)))"

definition list_cards :: "int \<Rightarrow> int \<Rightarrow> int option \<Rightarrow> db \<Rightarrow> vocabulary_entry list" where
  "list_cards uid limit before_id d =
     take (nat limit) (sort_key (\<lambda>v. - v_id v)
       (filter (\<lambda>v. v_user_id v = uid \<and> (case before_id of None \<Rightarrow> True | Some b \<Rightarrow> v_id v < b)) (vocabulary d)))"

definition get_owned_card :: "int \<Rightarrow> int \<Rightarrow> db \<Rightarrow> vocabulary_entry option" where
  "get_owned_card eid uid d = List.find (\<lambda>v. v_id v = eid \<and> v_user_id v = uid) (vocabulary d)"

definition put_card_status :: "int \<Rightarrow> string \<Rightarrow> db \<Rightarrow> db" where
  "put_card_status eid status d = vocabulary_update (update_where (\<lambda>v. v_id v = eid) (v_status_update (\<lambda>_. status))) d"

section \<open>Service\<close>

record vocabulary_word =
  vw_word :: string
  vw_phonetic :: string
  vw_translation :: string
  vw_example :: string

fun capture :: "int \<Rightarrow> int option \<Rightarrow> vocabulary_word list \<Rightarrow> sess \<Rightarrow> (error + unit) \<times> sess" where
  "capture uid sid [] s = (Inr (), s)"
| "capture uid sid (w # ws) s =
     (let word = py_lower (py_strip (vw_word w))
      in if word = [] then capture uid sid ws s
         else case sess_exec (upsert_card uid sid word (py_strip (vw_phonetic w)) (py_strip (vw_translation w))
                (py_strip (vw_example w))) s of
             (Inl e, s') \<Rightarrow> (Inl e, s')
           | (Inr _, s') \<Rightarrow> capture uid sid ws s')"

definition list_notebook :: "int \<Rightarrow> int option \<Rightarrow> int option \<Rightarrow> db \<Rightarrow> vocabulary_entry list" where
  "list_notebook uid limit before_id d =
     list_cards uid (resolve_limit limit DEFAULT_PAGE_SIZE MAX_PAGE_SIZE) before_id d"

definition mark :: "int \<Rightarrow> int \<Rightarrow> string \<Rightarrow> dbtx \<Rightarrow> (error + vocabulary_entry) \<times> dbtx" where
  "mark eid uid status t =
     (if status \<notin> {STATUS_REVIEW, STATUS_KNOWN} then (Inl (OtherErr ''ValueError''), t)
      else case get_owned_card eid uid (working t) of
        None \<Rightarrow> (Inl (DomainErr NotFoundError ''Vocabulary entry not found''), t)
      | Some v \<Rightarrow> (Inr (v\<lparr>v_status := status\<rparr>), tx_commit (tx_modify (put_card_status eid status) t)))"

definition list_vocabulary_route :: "int \<Rightarrow> int \<Rightarrow> int option \<Rightarrow> db \<Rightarrow> error + vocabulary_entry list" where
  "list_vocabulary_route uid limit before_id d =
     (if 1 \<le> limit \<and> limit \<le> MAX_PAGE_SIZE \<and> (case before_id of None \<Rightarrow> True | Some b \<Rightarrow> 1 \<le> b)
      then Inr (list_notebook uid (Some limit) before_id d) else Inl (RequestValidationErr []))"

definition update_status_route :: "int \<Rightarrow> int \<Rightarrow> string \<Rightarrow> dbtx \<Rightarrow> (error + vocabulary_entry) \<times> dbtx" where
  "update_status_route eid uid status t =
     (if status \<notin> {''review'', ''known''} then (Inl (RequestValidationErr []), t) else mark eid uid status t)"

section \<open>One card per word\<close>

definition cards_ok :: "db \<Rightarrow> bool" where
  "cards_ok d \<longleftrightarrow> unique_on (\<lambda>v. (v_user_id v, v_word v)) (vocabulary d)
     \<and> unique_on v_id (vocabulary d) \<and> (\<forall>v \<in> set (vocabulary d). v_id v < seq_vocabulary d)"

lemma cards_ok_put_card: "cards_ok d \<Longrightarrow> cards_ok (put_card uid sid w p tr ex d)"
proof -
  assume ok: "cards_ok d"
  show ?thesis
  proof (cases "find_card uid w d")
    case None
    then have "\<forall>v \<in> set (vocabulary d). (v_user_id v, v_word v) \<noteq> (uid, w)"
      by (auto simp: find_card_def find_None_conv is_card_def)
    then show ?thesis using ok None unfolding cards_ok_def
      by (force simp: put_card_def unique_on_snoc)
  next
    case (Some v)
    then show ?thesis using ok unfolding cards_ok_def
      by (auto simp: put_card_def unique_on_update_where elim!: in_update_whereE)
  qed
qed

lemma cards_ok_upsert:
  "upsert_card uid sid w p tr ex t = (r, t') \<Longrightarrow> cards_ok (working t) \<Longrightarrow> cards_ok (committed t) \<Longrightarrow>
   cards_ok (working t') \<and> cards_ok (committed t')"
  by (auto simp: upsert_card_def cards_ok_put_card split: if_split_asm)

lemma capture_keeps_cards_ok:
  "capture uid sid ws s = (r, s') \<Longrightarrow> cards_ok (working (fst s)) \<and> cards_ok (committed (fst s)) \<Longrightarrow>
   cards_ok (working (fst s')) \<and> cards_ok (committed (fst s'))"
proof (induction uid sid ws s arbitrary: r s' rule: capture.induct)
  case (2 uid sid w ws s)
  let ?word = "py_lower (py_strip (vw_word w))"
  let ?up = "upsert_card uid sid ?word (py_strip (vw_phonetic w)) (py_strip (vw_translation w)) (py_strip (vw_example w))"
  show ?case
  proof (cases "?word = []")
    case True
    then show ?thesis using 2 by simp
  next
    case False
    obtain r1 s1 where e: "sess_exec ?up s = (r1, s1)" by (cases "sess_exec ?up s") auto
    have ok: "cards_ok (working (fst s1)) \<and> cards_ok (committed (fst s1))"
      using e 2(4) cards_ok_upsert by (auto simp: sess_exec_def split: prod.splits sum.splits if_split_asm)
    show ?thesis
    proof (cases r1)
      case (Inl e1)
      then show ?thesis using 2(3) e False ok by (simp add: Let_def)
    next
      case (Inr u)
      then have "capture uid sid ws s1 = (r, s')" using 2(3) e False by (simp add: Let_def)
      then show ?thesis using 2(2) [OF refl False e [symmetric] Inr _ ok] by blast
    qed
  qed
qed simp

text \<open>The notebook is a keyset query.\<close>

lemma list_cards_page:
  "list_cards uid (int n) before_id d = keyset_page (\<lambda>v. - v_id v) n (map_option uminus before_id)
     (filter (\<lambda>v. v_user_id v = uid) (vocabulary d))"
  by (cases before_id) (auto simp: list_cards_def keyset_page_def filter_filter conj_commute intro!: arg_cong [of _ _ "take n"] arg_cong [of _ _ "sort_key _"] filter_cong)

interpretation notebook_query: keyset_query "\<lambda>(d, uid, n). unique_on v_id (vocabulary d) \<and> 0 < n"
  "\<lambda>(d, uid, n). n" "\<lambda>(d, uid, n) c. list_cards uid (int n) c d" v_id
  "\<lambda>(d, uid, n). sort_key (\<lambda>v. - v_id v) (filter (\<lambda>v. v_user_id v = uid) (vocabulary d))"
proof (unfold_locales, goal_cases)
  case (3 s xs ys)
  obtain d uid n where s: "s = (d, uid, n)" by (cases s)
  have u: "unique_on (\<lambda>v. - v_id v) (filter (\<lambda>v. v_user_id v = uid) (vocabulary d))"
    using 3(1) by (auto simp: s unique_on_def distinct_map inj_on_def)
  then show ?case using keyset_page_next [OF u 3(2) [unfolded s prod.case] 3(3)] by (simp add: s list_cards_page)
qed (auto simp: list_cards_page keyset_page_first)

lemma notebook_paging_complete:
  assumes "unique_on v_id (vocabulary d)" "0 < n"
  shows "keyset_pages (\<lambda>_ c. list_cards uid (int n) c d) v_id n 0 None
    = Some (sort_key (\<lambda>v. - v_id v) (filter (\<lambda>v. v_user_id v = uid) (vocabulary d)))"
  using notebook_query.pages_complete [of "(d, uid, n)"] assms by simp

lemma mark_other_learners_card:
  "get_owned_card eid uid (working t) = None \<Longrightarrow> status \<in> {STATUS_REVIEW, STATUS_KNOWN} \<Longrightarrow>
   mark eid uid status t = (Inl (DomainErr NotFoundError ''Vocabulary entry not found''), t)"
  by (auto simp: mark_def)

text \<open>A card seen again is due again, whatever its status was.\<close>

lemma upsert_resets_status:
  assumes "find_card uid w d = Some v"
  shows "\<exists>v'. find_card uid w (put_card uid sid w p tr ex d) = Some v' \<and> v_id v' = v_id v \<and> v_status v' = STATUS_REVIEW \<and> v_example v' = ex"
proof -
  have "find_card uid w (put_card uid sid w p tr ex d) = map_option (\<lambda>v. if is_card uid w v
      then v\<lparr>v_session_id := sid, v_phonetic := p, v_translation := tr, v_example := ex, v_status := STATUS_REVIEW\<rparr> else v)
      (find_card uid w d)"
    using assms unfolding find_card_def put_card_def by (simp add: find_update_where_same is_card_def)
  moreover have "is_card uid w v" using assms by (auto simp: find_card_def dest: find_SomeD)
  ultimately show ?thesis using assms by simp
qed

end
