(* ===== verification/Review.thy ===== *)
theory Review
  imports Notebook
begin

text \<open>
  Spaced repetition of recurring errors (\<^verbatim>\<open>app/features/review\<close>): the pure scheduler, the
  repository, \<open>record_session\<close> with its single commit, and the list of what is due. The iteration order
  of the Python set of error types is an argument; \<open>schedule\<close> is the abstract view of the table, one
  scheduler state per error type, on which a session is one pointwise step.
\<close>

section \<open>Scheduler\<close>

definition INTERVAL_DAYS :: "int list" where
  "INTERVAL_DAYS = [1, 3, 7]"

definition MASTERY_STREAK :: int where
  "MASTERY_STREAK = 3"

record review_state =
  rs_stage :: int
  rs_clean_streak :: int
  rs_status :: string
  rs_next_review_at :: "instant option"
  rs_latest_correction :: string

definition new_review_state :: review_state where
  "new_review_state = \<lparr>rs_stage = 0, rs_clean_streak = 0, rs_status = STATUS_DUE,
     rs_next_review_at = None, rs_latest_correction = []\<rparr>"

text \<open>Indexing a tuple by a Python integer: negative indices count from the end.\<close>

definition py_index :: "'a list \<Rightarrow> int \<Rightarrow> error + 'a" where
  "py_index xs i = (let j = (if i < 0 then i + int (length xs) else i)
     in if 0 \<le> j \<and> j < int (length xs) then Inr (xs ! nat j) else Inl (OtherErr ''IndexError''))"

definition on_error_seen :: "review_state \<Rightarrow> string \<Rightarrow> instant \<Rightarrow> review_state" where
  "on_error_seen st correction now =
     \<lparr>rs_stage = 0, rs_clean_streak = 0, rs_status = STATUS_DUE,
      rs_next_review_at = Some (now + us_per_day * INTERVAL_DAYS ! 0),
      rs_latest_correction = (if correction \<noteq> [] then correction else rs_latest_correction st)\<rparr>"

definition not_due_yet :: "review_state \<Rightarrow> instant \<Rightarrow> bool" where
  "not_due_yet st now \<longleftrightarrow> (case rs_next_review_at st of None \<Rightarrow> False | Some n \<Rightarrow> now < n)"

definition on_error_absent :: "review_state \<Rightarrow> instant \<Rightarrow> error + review_state" where
  "on_error_absent st now =
     (if rs_status st = STATUS_MASTERED then Inr st
      else if not_due_yet st now then Inr st
      else let clean_streak = rs_clean_streak st + 1 in
        if MASTERY_STREAK \<le> clean_streak
        then Inr (st\<lparr>rs_clean_streak := clean_streak, rs_status := STATUS_MASTERED, rs_next_review_at := None\<rparr>)
        else let next_stage = min (rs_stage st + 1) (int (length INTERVAL_DAYS) - 1) in
          case py_index INTERVAL_DAYS next_stage of Inl e \<Rightarrow> Inl e
          | Inr days \<Rightarrow> Inr \<lparr>rs_stage = next_stage, rs_clean_streak = clean_streak, rs_status = STATUS_DUE,
              rs_next_review_at = Some (now + us_per_day * days), rs_latest_correction = rs_latest_correction st\<rparr>)"

section \<open>Repository\<close>

definition is_item :: "int \<Rightarrow> string \<Rightarrow> review_item \<Rightarrow> bool" where
  "is_item uid et r \<longleftrightarrow> ri_user_id r = uid \<and> ri_error_type r = et"

definition find_item :: "int \<Rightarrow> string \<Rightarrow> db \<Rightarrow> review_item option" where
  "find_item uid et d = List.find (is_item uid et) (review_items d)"

definition list_items :: "int \<Rightarrow> db \<Rightarrow> review_item list" where
  "list_items uid d = filter (\<lambda>r. ri_user_id r = uid) (review_items d)"

definition item_of :: "int \<Rightarrow> int \<Rightarrow> string \<Rightarrow> review_state \<Rightarrow> review_item" where
  "item_of rid uid et st = \<lparr>ri_id = rid, ri_user_id = uid, ri_error_type = et,
     ri_latest_correction = rs_latest_correction st, ri_stage = rs_stage st,
     ri_clean_streak = rs_clean_streak st, ri_status = rs_status st, ri_next_review_at = rs_next_review_at st\<rparr>"

definition put_item :: "int \<Rightarrow> string \<Rightarrow> review_state \<Rightarrow> db \<Rightarrow> db" where
  "put_item uid et st d =
     d\<lparr>review_items := (if find_item uid et d = None then review_items d @ [item_of (seq_review d) uid et st]
         else update_where (is_item uid et) (\<lambda>r. item_of (ri_id r) uid et st) (review_items d)),
       seq_review := seq_review d + 1\<rparr>"

definition item_storable :: "string \<Rightarrow> review_state \<Rightarrow> bool" where
  "item_storable et st \<longleftrightarrow> pg_text_ok et \<and> length et \<le> 40 \<and> pg_text_ok (rs_latest_correction st)"

text \<open>The statement without its commit.\<close>

definition upsert_item :: "int \<Rightarrow> string \<Rightarrow> review_state \<Rightarrow> dbtx \<Rightarrow> (error + unit) \<times> dbtx" where
  "upsert_item uid et st t =
     (if \<not> item_storable et st then (Inl (DataErr ''review_items''), t)
      else if get_user uid (working t) = None then (Inl (IntegrityErr ''review_items_user_id_fkey''), t)
      else (Inr (), tx_modify (put_item uid et st) t))"

definition due_now :: "int \<Rightarrow> instant \<Rightarrow> review_item \<Rightarrow> bool" where
  "due_now uid now r \<longleftrightarrow> ri_user_id r = uid \<and> ri_status r \<noteq> STATUS_MASTERED
     \<and> (case ri_next_review_at r of None \<Rightarrow> True | Some n \<Rightarrow> n \<le> now)"

text \<open>\<open>ORDER BY next_review_at ASC NULLS FIRST, id ASC\<close>: a stable sort by each column, the last one first.\<close>

definition due_order :: "review_item list \<Rightarrow> review_item list" where
  "due_order rs = (let by_id = sort_key ri_id rs
     in filter (\<lambda>r. ri_next_review_at r = None) by_id
        @ sort_key (\<lambda>r. the (ri_next_review_at r)) (filter (\<lambda>r. ri_next_review_at r \<noteq> None) by_id))"

definition list_due_items :: "int \<Rightarrow> instant \<Rightarrow> int \<Rightarrow> db \<Rightarrow> review_item list" where
  "list_due_items uid now limit d = take (nat limit) (due_order (filter (due_now uid now) (review_items d)))"

section \<open>Service\<close>

definition to_state :: "review_item option \<Rightarrow> review_state" where
  "to_state item = (case item of None \<Rightarrow> new_review_state
    | Some r \<Rightarrow> \<lparr>rs_stage = ri_stage r, rs_clean_streak = ri_clean_streak r, rs_status = ri_status r,
        rs_next_review_at = ri_next_review_at r, rs_latest_correction = ri_latest_correction r\<rparr>)"

definition next_state :: "(string \<times> string) list \<Rightarrow> instant \<Rightarrow> string \<Rightarrow> review_state \<Rightarrow> error + review_state" where
  "next_state errs now et st = (case map_of errs et of
      Some c \<Rightarrow> Inr (on_error_seen st c now) | None \<Rightarrow> on_error_absent st now)"

text \<open>The loop over the types, reading the items loaded before it.\<close>

fun record_types :: "int \<Rightarrow> review_item list \<Rightarrow> (string \<times> string) list \<Rightarrow> instant \<Rightarrow> string list \<Rightarrow> sess
   \<Rightarrow> (error + unit) \<times> sess" where
  "record_types uid existing errs now [] s = (Inr (), s)"
| "record_types uid existing errs now (et # ets) s =
     (if py_strip et = [] then record_types uid existing errs now ets s
      else case next_state errs now et (to_state (List.find (\<lambda>r. ri_error_type r = et) existing)) of
          Inl e \<Rightarrow> (Inl e, s)
        | Inr st \<Rightarrow> (case sess_exec (upsert_item uid et st) s of
            (Inl e, s1) \<Rightarrow> (Inl e, s1)
          | (Inr _, s1) \<Rightarrow> record_types uid existing errs now ets s1))"

definition record_session ::
  "int \<Rightarrow> (string \<times> string) list \<Rightarrow> (string set \<Rightarrow> string list) \<Rightarrow> instant \<Rightarrow> sess \<Rightarrow> (error + unit) \<times> sess" where
  "record_session uid errs order now s =
     (case sess_exec (\<lambda>t. (Inr (list_items uid (working t)), t)) s of
        (Inl e, s1) \<Rightarrow> (Inl e, s1)
      | (Inr existing, s1) \<Rightarrow>
          (case record_types uid existing errs now
                  (order (ri_error_type ` set existing \<union> fst ` set errs)) s1 of
             (Inl e, s2) \<Rightarrow> (Inl e, sess_rollback s2)
           | (Inr _, s2) \<Rightarrow> (Inr (), (tx_commit (fst s2), snd s2))))"

definition list_due :: "int \<Rightarrow> instant \<Rightarrow> int option \<Rightarrow> db \<Rightarrow> review_item list" where
  "list_due uid now limit d = list_due_items uid now (resolve_limit limit DEFAULT_PAGE_SIZE MAX_PAGE_SIZE) d"

definition list_due_reviews :: "int \<Rightarrow> instant \<Rightarrow> int \<Rightarrow> db \<Rightarrow> error + review_item list" where
  "list_due_reviews uid now limit d =
     (if 1 \<le> limit \<and> limit \<le> MAX_PAGE_SIZE then Inr (list_due uid now (Some limit) d)
      else Inl (RequestValidationErr []))"

section \<open>The ladder\<close>

text \<open>A scheduled type is on the rung of its clean streak and has a date; a mastered one has its three clean
  sessions and no date.\<close>

definition ladder_ok :: "review_state \<Rightarrow> bool" where
  "ladder_ok st \<longleftrightarrow>
     rs_status st = STATUS_DUE \<and> rs_stage st = rs_clean_streak st \<and> 0 \<le> rs_stage st \<and> rs_stage st \<le> 2
       \<and> rs_next_review_at st \<noteq> None
     \<or> rs_status st = STATUS_MASTERED \<and> rs_stage st = 2 \<and> rs_clean_streak st = 3 \<and> rs_next_review_at st = None"

definition waiting :: "nat \<Rightarrow> instant \<Rightarrow> string \<Rightarrow> review_state" where
  "waiting k n c = \<lparr>rs_stage = int k, rs_clean_streak = int k, rs_status = STATUS_DUE,
     rs_next_review_at = Some n, rs_latest_correction = c\<rparr>"

definition mastered_state :: "string \<Rightarrow> review_state" where
  "mastered_state c = \<lparr>rs_stage = 2, rs_clean_streak = 3, rs_status = STATUS_MASTERED,
     rs_next_review_at = None, rs_latest_correction = c\<rparr>"

lemma ladder_ok_seen: "ladder_ok (on_error_seen st c now)"
  by (simp add: ladder_ok_def on_error_seen_def)

lemma ladder_ok_waiting: "k < 3 \<Longrightarrow> ladder_ok (waiting k n c)"
  by (simp add: ladder_ok_def waiting_def)

lemma ladder_ok_mastered: "ladder_ok (mastered_state c)"
  by (simp add: ladder_ok_def mastered_state_def)

lemma ladder_ok_cases:
  assumes "ladder_ok st"
  obtains k n c where "st = waiting k n c" "k < 3" | c where "st = mastered_state c"
proof (cases st)
  case (fields stg cs stat n c)
  consider "stat = STATUS_DUE" "stg = cs" "0 \<le> stg" "stg \<le> 2" "n \<noteq> None" | "st = mastered_state c"
    using assms by (auto simp: fields ladder_ok_def mastered_state_def)
  then show thesis
  proof cases
    case 1
    then have "st = waiting (nat stg) (the n) c" "nat stg < 3" by (auto simp: fields waiting_def)
    then show thesis by (rule that(1))
  next
    case 2
    then show thesis by (rule that(2))
  qed
qed

text \<open>One clean session, rung by rung.\<close>

lemma absent_waiting:
  assumes "k < 3"
  shows "on_error_absent (waiting k n c) now = Inr (if now < n then waiting k n c
     else if k = 2 then mastered_state c else waiting (Suc k) (now + us_per_day * INTERVAL_DAYS ! Suc k) c)"
proof -
  consider "k = 0" | "k = 1" | "k = 2" using assms by linarith
  then show ?thesis
    by cases (simp_all add: on_error_absent_def waiting_def not_due_yet_def MASTERY_STREAK_def
        INTERVAL_DAYS_def py_index_def mastered_state_def Let_def)
qed

lemma absent_mastered: "on_error_absent (mastered_state c) now = Inr (mastered_state c)"
  by (simp add: on_error_absent_def mastered_state_def)

lemma rs_latest_sel [simp]: "rs_latest_correction (waiting k n c) = c" "rs_latest_correction (mastered_state c) = c"
  by (simp_all add: waiting_def mastered_state_def)

lemma absent_step:
  assumes "ladder_ok st"
  shows "\<exists>st'. on_error_absent st now = Inr st' \<and> ladder_ok st' \<and> rs_latest_correction st' = rs_latest_correction st"
  using assms
proof (cases rule: ladder_ok_cases)
  case (1 k n c)
  then show ?thesis by (auto simp: absent_waiting ladder_ok_waiting ladder_ok_mastered)
next
  case (2 c)
  then show ?thesis by (simp add: absent_mastered ladder_ok_mastered)
qed

lemma next_state_step:
  assumes "ladder_ok st \<or> map_of errs et \<noteq> None"
  shows "\<exists>st'. next_state errs now et st = Inr st' \<and> ladder_ok st'
    \<and> (rs_latest_correction st' = rs_latest_correction st \<or> map_of errs et = Some (rs_latest_correction st'))"
proof (cases "map_of errs et")
  case None
  then show ?thesis using absent_step [of st now] assms by (auto simp: next_state_def)
next
  case (Some c)
  then show ?thesis using ladder_ok_seen [of st c now] by (auto simp: next_state_def on_error_seen_def)
qed

section \<open>The table as a schedule\<close>

definition schedule :: "int \<Rightarrow> db \<Rightarrow> string \<Rightarrow> review_state option" where
  "schedule uid d et = map_option (\<lambda>r. to_state (Some r)) (find_item uid et d)"

definition session_step ::
  "(string \<times> string) list \<Rightarrow> instant \<Rightarrow> (string \<Rightarrow> review_state option) \<Rightarrow> string \<Rightarrow> review_state option" where
  "session_step errs now m et =
     (if py_strip et = [] then m et
      else case map_of errs et of
        Some c \<Rightarrow> Some (on_error_seen (case m et of None \<Rightarrow> new_review_state | Some st \<Rightarrow> st) c now)
      | None \<Rightarrow> (case m et of None \<Rightarrow> None
          | Some st \<Rightarrow> (case on_error_absent st now of Inl _ \<Rightarrow> Some st | Inr st' \<Rightarrow> Some st')))"

definition review_ok :: "db \<Rightarrow> bool" where
  "review_ok d \<longleftrightarrow> unique_on (\<lambda>r. (ri_user_id r, ri_error_type r)) (review_items d)
     \<and> unique_on ri_id (review_items d)
     \<and> (\<forall>r \<in> set (review_items d). ri_id r < seq_review d \<and> ladder_ok (to_state (Some r))
          \<and> item_storable (ri_error_type r) (to_state (Some r)))"

definition errors_storable :: "(string \<times> string) list \<Rightarrow> bool" where
  "errors_storable errs \<longleftrightarrow> list_all (\<lambda>(et, c). pg_text_ok et \<and> length et \<le> 40 \<and> pg_text_ok c) errs"

lemma to_state_item_of [simp]: "to_state (Some (item_of i uid et st)) = st"
  by (simp add: to_state_def item_of_def)

lemma item_of_sel [simp]: "ri_id (item_of i uid et st) = i" "ri_user_id (item_of i uid et st) = uid"
  "ri_error_type (item_of i uid et st) = et"
  by (simp_all add: item_of_def)

lemma find_filter: "List.find p (filter q xs) = List.find (\<lambda>x. q x \<and> p x) xs"
  by (induction xs) auto

lemma is_item_fields: "is_item uid et r \<Longrightarrow> is_item v e (item_of i uid et st) = is_item v e r"
  by (auto simp: is_item_def)

lemma find_item_put_item:
  "map_option (to_state \<circ> Some) (find_item v e (put_item uid et st d))
   = (if v = uid \<and> e = et then Some st else map_option (to_state \<circ> Some) (find_item v e d))"
proof (cases "find_item uid et d")
  case None
  show ?thesis
  proof (cases "find_item v e d")
    case None
    then show ?thesis using \<open>find_item uid et d = None\<close>
      by (auto simp: find_item_def put_item_def find_append_None is_item_def)
  next
    case (Some r)
    then show ?thesis using None by (auto simp: find_item_def put_item_def find_append_Some is_item_def)
  qed
next
  case (Some r0)
  then have "find_item v e (put_item uid et st d)
      = map_option (\<lambda>r. if is_item uid et r then item_of (ri_id r) uid et st else r) (find_item v e d)"
    unfolding find_item_def put_item_def by (simp add: find_update_where_same [where q = "is_item v e"] is_item_fields)
  moreover have "\<And>r. find_item v e d = Some r \<Longrightarrow> is_item uid et r \<longleftrightarrow> v = uid \<and> e = et"
    by (auto simp: find_item_def is_item_def dest!: find_SomeD)
  ultimately show ?thesis using Some by (cases "find_item v e d") auto
qed

lemma schedule_put_item:
  "schedule v (put_item uid et st d) e = (if v = uid \<and> e = et then Some st else schedule v d e)"
  using find_item_put_item [of v e uid et st d] by (simp add: schedule_def comp_def)

lemma find_item_SomeD: "find_item uid et d = Some r \<Longrightarrow> r \<in> set (review_items d) \<and> ri_user_id r = uid \<and> ri_error_type r = et"
  by (auto simp: find_item_def is_item_def dest!: find_SomeD)

lemma find_existing: "List.find (\<lambda>r. ri_error_type r = et) (list_items uid d) = find_item uid et d"
  unfolding list_items_def find_item_def is_item_def by (simp add: find_filter conj_commute)

lemma review_ok_put_item:
  assumes "review_ok d" "ladder_ok st" "item_storable et st"
  shows "review_ok (put_item uid et st d)"
proof (cases "find_item uid et d")
  case None
  then have "\<forall>r \<in> set (review_items d). (ri_user_id r, ri_error_type r) \<noteq> (uid, et)"
    by (auto simp: find_item_def is_item_def find_None_conv)
  then show ?thesis using assms None unfolding review_ok_def put_item_def
    by (force simp: unique_on_snoc)
next
  case (Some r)
  let ?f = "\<lambda>r. item_of (ri_id r) uid et st" and ?key = "\<lambda>r. (ri_user_id r, ri_error_type r)"
  have "unique_on ?key (update_where (is_item uid et) ?f (review_items d)) = unique_on ?key (review_items d)"
    by (rule unique_on_update_where) (simp add: is_item_def)
  then show ?thesis using assms Some unfolding review_ok_def put_item_def
    by (auto simp: unique_on_update_where [where key = ri_id] elim!: in_update_whereE)
qed

lemma put_item_users [simp]: "users (put_item uid et st d) = users d" "get_user v (put_item uid et st d) = get_user v d"
  by (simp_all add: put_item_def get_user_def)

section \<open>A session is one step of the schedule\<close>

text \<open>What the loop writes for a type.\<close>

definition written :: "review_item list \<Rightarrow> (string \<times> string) list \<Rightarrow> instant \<Rightarrow> string \<Rightarrow> review_state option" where
  "written ex errs now et =
     (case next_state errs now et (to_state (List.find (\<lambda>r. ri_error_type r = et) ex)) of Inr st \<Rightarrow> Some st | Inl _ \<Rightarrow> None)"

lemma record_types_committed:
  "record_types uid ex errs now ets s = (r, s') \<Longrightarrow> committed (fst s') = committed (fst s)"
proof (induction ets arbitrary: s)
  case (Cons et ets)
  obtain t ab where s: "s = (t, ab)" by (cases s)
  show ?case
    using Cons.prems Cons.IH
    by (cases "next_state errs now et (to_state (List.find (\<lambda>r. ri_error_type r = et) ex))")
      (auto simp: s sess_exec_def upsert_item_def split: if_split_asm)
qed simp

lemma record_types_success:
  assumes "record_types uid ex errs now ets (t, False) = (Inr (), s')"
  shows "\<exists>t'. s' = (t', False) \<and> (\<forall>v et. schedule v (working t') et
     = (if v = uid \<and> et \<in> set ets \<and> py_strip et \<noteq> [] then written ex errs now et else schedule v (working t) et))"
  using assms
proof (induction ets arbitrary: t)
  case (Cons et ets)
  show ?case
  proof (cases "py_strip et = []")
    case True
    then show ?thesis using Cons by force
  next
    case False
    obtain st where st: "next_state errs now et (to_state (List.find (\<lambda>r. ri_error_type r = et) ex)) = Inr st"
      using Cons.prems False by (cases "next_state errs now et (to_state (List.find (\<lambda>r. ri_error_type r = et) ex))") auto
    then have rest: "record_types uid ex errs now ets (tx_modify (put_item uid et st) t, False) = (Inr (), s')"
      using Cons.prems False by (auto simp: sess_exec_def upsert_item_def split: if_split_asm)
    have "written ex errs now et = Some st" by (simp add: written_def st)
    then show ?thesis using Cons.IH [OF rest] False by (auto simp: schedule_put_item)
  qed
qed auto

text \<open>The rows the loop may write fit their columns.\<close>

definition fits :: "review_item list \<Rightarrow> (string \<times> string) list \<Rightarrow> instant \<Rightarrow> string \<Rightarrow> bool" where
  "fits ex errs now et \<longleftrightarrow> (\<exists>st. written ex errs now et = Some st \<and> ladder_ok st \<and> item_storable et st)"

lemma record_types_runs:
  assumes "\<forall>et \<in> set ets. fits ex errs now et" "get_user uid (working t) \<noteq> None" "review_ok (working t)"
  shows "\<exists>t'. record_types uid ex errs now ets (t, False) = (Inr (), (t', False)) \<and> review_ok (working t')"
  using assms
proof (induction ets arbitrary: t)
  case (Cons et ets)
  show ?case
  proof (cases "py_strip et = []")
    case False
    obtain st where st: "next_state errs now et (to_state (List.find (\<lambda>r. ri_error_type r = et) ex)) = Inr st"
      "ladder_ok st" "item_storable et st"
      using Cons.prems(1) by (auto simp: fits_def written_def split: sum.splits)
    let ?t = "tx_modify (put_item uid et st) t"
    have "get_user uid (working ?t) \<noteq> None" "review_ok (working ?t)"
      using Cons.prems st by (simp_all add: review_ok_put_item)
    then show ?thesis using Cons.IH [of ?t] Cons.prems st False by (simp add: sess_exec_def upsert_item_def)
  qed (use Cons in simp)
qed simp

lemma review_types_ok:
  assumes "review_ok (working t)" "record_types uid ex errs now ets (t, False) = (Inr (), s')"
    "\<forall>et \<in> set ets. \<exists>st. written ex errs now et = Some st \<and> ladder_ok st"
  shows "review_ok (working (fst s'))"
  using assms
proof (induction ets arbitrary: t)
  case (Cons et ets)
  obtain st where st: "next_state errs now et (to_state (List.find (\<lambda>r. ri_error_type r = et) ex)) = Inr st" "ladder_ok st"
    using Cons.prems(3) by (auto simp: written_def split: sum.splits)
  show ?case using Cons.prems Cons.IH [of t] Cons.IH [of "tx_modify (put_item uid et st) t"] st review_ok_put_item [of "working t" st et uid]
    by (auto simp: sess_exec_def upsert_item_def split: if_split_asm)
qed auto

lemma written_next:
  assumes "review_ok d" "et \<in> ri_error_type ` set (list_items uid d) \<union> fst ` set errs"
  shows "\<exists>st. written (list_items uid d) errs now et = Some st \<and> ladder_ok st
    \<and> (rs_latest_correction st = [] \<or> (\<exists>r. find_item uid et d = Some r \<and> rs_latest_correction st = ri_latest_correction r)
       \<or> map_of errs et = Some (rs_latest_correction st))"
proof -
  let ?st = "to_state (find_item uid et d)"
  have "find_item uid et d \<noteq> None \<or> map_of errs et \<noteq> None"
    using assms(2) by (auto simp: list_items_def find_item_def is_item_def find_None_conv map_of_eq_None_iff)
  moreover have "\<And>r. find_item uid et d = Some r \<Longrightarrow> ladder_ok (to_state (Some r))"
    using assms(1) by (auto simp: review_ok_def dest!: find_item_SomeD)
  ultimately have "ladder_ok ?st \<or> map_of errs et \<noteq> None" by auto
  from next_state_step [OF this, of now] obtain st where "next_state errs now et ?st = Inr st" "ladder_ok st"
    "rs_latest_correction st = rs_latest_correction ?st \<or> map_of errs et = Some (rs_latest_correction st)" by auto
  then show ?thesis unfolding written_def find_existing
    by (cases "find_item uid et d") (auto simp: to_state_def new_review_state_def)
qed

lemma written_fits:
  assumes "review_ok d" "errors_storable errs" "et \<in> ri_error_type ` set (list_items uid d) \<union> fst ` set errs"
  shows "fits (list_items uid d) errs now et"
proof -
  obtain st where st: "written (list_items uid d) errs now et = Some st" "ladder_ok st"
    "rs_latest_correction st = [] \<or> (\<exists>r. find_item uid et d = Some r \<and> rs_latest_correction st = ri_latest_correction r)
       \<or> map_of errs et = Some (rs_latest_correction st)"
    using written_next [OF assms(1, 3), of now] by auto
  have item: "item_storable (ri_error_type r) (to_state (Some r))" if "r \<in> set (review_items d)" for r
    using assms(1) that by (auto simp: review_ok_def)
  have err: "pg_text_ok e \<and> length e \<le> 40 \<and> pg_text_ok c" if "(e, c) \<in> set errs" for e c
    using assms(2) that by (auto simp: errors_storable_def list_all_iff)
  have "pg_text_ok et \<and> length et \<le> 40"
    using assms(3) item err by (fastforce simp: list_items_def item_storable_def)
  moreover have "pg_text_ok (rs_latest_correction st)"
    using st(3) item err by (auto simp: item_storable_def to_state_def pg_text_ok_def dest!: find_item_SomeD map_of_SomeD)
  ultimately show ?thesis using st(1, 2) by (auto simp: fits_def item_storable_def)
qed

lemma written_step:
  assumes "review_ok d" "et \<in> ri_error_type ` set (list_items uid d) \<union> fst ` set errs" "py_strip et \<noteq> []"
  shows "written (list_items uid d) errs now et = session_step errs now (schedule uid d) et"
proof -
  obtain st where "written (list_items uid d) errs now et = Some st" using written_next [OF assms(1, 2), of now] by blast
  moreover have "find_item uid et d \<noteq> None \<or> map_of errs et \<noteq> None"
    using assms(2) by (auto simp: list_items_def find_item_def is_item_def find_None_conv map_of_eq_None_iff)
  ultimately show ?thesis using assms(3) unfolding written_def find_existing session_step_def schedule_def next_state_def
    by (cases "find_item uid et d"; cases "map_of errs et") (auto simp: to_state_def split: sum.splits)
qed

lemma untracked_step:
  assumes "et \<notin> ri_error_type ` set (list_items uid d) \<union> fst ` set errs"
  shows "session_step errs now (schedule uid d) et = schedule uid d et"
proof -
  have "find_item uid et d = None" "map_of errs et = None"
    using assms by (auto simp: list_items_def find_item_def is_item_def find_None_conv map_of_eq_None_iff)
  then show ?thesis by (simp add: session_step_def schedule_def)
qed

lemma record_session_outcome:
  assumes ok: "review_ok (working t)" and user: "get_user uid (working t) \<noteq> None"
    and order: "set (order (ri_error_type ` set (list_items uid (working t)) \<union> fst ` set errs))
        = ri_error_type ` set (list_items uid (working t)) \<union> fst ` set errs"
  shows "case record_session uid errs order now (t, False) of
      (Inr _, (t', aborted)) \<Rightarrow> \<not> aborted \<and> working t' = committed t' \<and> review_ok (committed t')
        \<and> schedule uid (committed t') = session_step errs now (schedule uid (working t))
        \<and> (\<forall>v. v \<noteq> uid \<longrightarrow> schedule v (committed t') = schedule v (working t))
    | (Inl _, (t', aborted)) \<Rightarrow> \<not> aborted \<and> t' = tx_begin (committed t) \<and> \<not> errors_storable errs"
proof -
  define ex where "ex = list_items uid (working t)"
  define types where "types = ri_error_type ` set ex \<union> fst ` set errs"
  note names = ex_def [symmetric] types_def [symmetric]
  have order': "set (order types) = types" using order unfolding names .
  have ran: "record_session uid errs order now (t, False) = (case record_types uid ex errs now (order types) (t, False) of
      (Inl e, s2) \<Rightarrow> (Inl e, sess_rollback s2) | (Inr _, s2) \<Rightarrow> (Inr (), (tx_commit (fst s2), snd s2)))"
    by (simp add: record_session_def sess_exec_live types_def ex_def)
  obtain r s where run: "record_types uid ex errs now (order types) (t, False) = (r, s)"
    by (cases "record_types uid ex errs now (order types) (t, False)")
  have comm: "committed (fst s) = committed t" using record_types_committed [OF run] by simp
  show ?thesis
  proof (cases r)
    case (Inl e)
    then obtain et where et: "et \<in> types" "\<not> fits ex errs now et"
      using record_types_runs [of "order types" ex errs now uid t] run user ok order' by auto
    have "\<not> errors_storable errs"
      using written_fits [OF ok _ et(1) [unfolded types_def ex_def], of now] et(2) ex_def by blast
    then show ?thesis unfolding ran run Inl using comm by (simp add: sess_rollback_def tx_rollback_def tx_begin_def)
  next
    case (Inr u)
    have run': "record_types uid ex errs now (order types) (t, False) = (Inr (), s)" using run Inr by simp
    have wr: "et \<in> types \<Longrightarrow> \<exists>st. written ex errs now et = Some st \<and> ladder_ok st" for et
      using written_next [OF ok, of et uid errs now] unfolding names by blast
    have rok: "review_ok (working (fst s))"
      by (rule review_types_ok [OF ok run']) (simp add: order' wr)
    obtain t' where t': "s = (t', False)" "\<And>v et. schedule v (working t') et
       = (if v = uid \<and> et \<in> types \<and> py_strip et \<noteq> [] then written ex errs now et else schedule v (working t) et)"
      using record_types_success [OF run'] order' by auto
    have "schedule uid (working t') et = session_step errs now (schedule uid (working t)) et" for et
      using written_step [OF ok, of et uid errs now] untracked_step [of et uid "working t" errs now] unfolding names
      by (cases "et \<in> types"; cases "py_strip et = []") (auto simp: t'(2) session_step_def)
    then show ?thesis unfolding ran run Inr using rok t' by (auto simp: fun_eq_iff)
  qed
qed

text \<open>C8: Recording a session refines the pure scheduler. Read as a schedule (one state per error type), the
  learner's table after \<open>record_session\<close> is exactly one scheduler step of the table before it: every seen type
  restarts its ladder, every tracked type that was not seen takes one clean step, whatever the order in which
  the set of types is visited; other learners' schedules and the table invariant (one item per type, every
  item on a rung of the ladder) are kept. When it fails nothing of the session's schedule is kept, the
  database session is usable again, and some seen type or correction did not fit its column.\<close>

theorem record_session_refines_scheduler:
  assumes "review_ok (working t)" "get_user uid (working t) \<noteq> None"
    "set (order (ri_error_type ` set (list_items uid (working t)) \<union> fst ` set errs))
        = ri_error_type ` set (list_items uid (working t)) \<union> fst ` set errs"
  shows "case record_session uid errs order now (t, False) of
      (Inr _, (t', aborted)) \<Rightarrow> \<not> aborted \<and> working t' = committed t' \<and> review_ok (committed t')
        \<and> schedule uid (committed t') = session_step errs now (schedule uid (working t))
        \<and> (\<forall>v. v \<noteq> uid \<longrightarrow> schedule v (committed t') = schedule v (working t))
    | (Inl _, (t', aborted)) \<Rightarrow> \<not> aborted \<and> t' = tx_begin (committed t) \<and> \<not> errors_storable errs"
  using record_session_outcome [of t uid order errs now] assms by simp

definition demo_review_db :: db where
  "demo_review_db = empty_db\<lparr>users := [new_user 1 ''a'' ''h'' ''fr''], seq_users := 2,
     review_items := [item_of 1 1 ''article'' (waiting 0 0 ''an apple'')], seq_review := 2\<rparr>"

lemma demo_review_ok: "review_ok demo_review_db" "get_user 1 demo_review_db \<noteq> None"
  by (simp_all add: demo_review_db_def empty_db_def review_ok_def unique_on_def ladder_ok_waiting item_storable_def
      pg_text_ok_def get_user_def new_user_def)

theorem record_session_refines_scheduler_witness:
  "case record_session 1 [(''plural'', ''two cats'')] (\<lambda>_. [''plural'', ''article'']) 5 (tx_begin demo_review_db, False) of
      (Inr _, (t', aborted)) \<Rightarrow> \<not> aborted \<and> working t' = committed t' \<and> review_ok (committed t')
        \<and> schedule 1 (committed t') = session_step [(''plural'', ''two cats'')] 5 (schedule 1 demo_review_db)
        \<and> (\<forall>v. v \<noteq> 1 \<longrightarrow> schedule v (committed t') = schedule v demo_review_db)
    | (Inl _, (t', aborted)) \<Rightarrow> False"
proof -
  have types: "ri_error_type ` set (list_items 1 demo_review_db) \<union> fst ` set [(''plural'', ''two cats'')] = {''plural'', ''article''}"
    by (auto simp: demo_review_db_def list_items_def)
  have "errors_storable [(''plural'', ''two cats'')]" by (simp add: errors_storable_def pg_text_ok_def)
  then show ?thesis
    using record_session_refines_scheduler [of "tx_begin demo_review_db" 1 "\<lambda>_. [''plural'', ''article'']"
        "[(''plural'', ''two cats'')]" 5] types demo_review_ok by (auto split: prod.splits sum.splits)
qed

section \<open>Mastery\<close>

text \<open>A history of recorded sessions in none of which the type appeared, with their times.\<close>

inductive clean_run :: "int \<Rightarrow> string \<Rightarrow> instant list \<Rightarrow> db \<Rightarrow> db \<Rightarrow> bool" for uid et where
  clean_none: "clean_run uid et [] d d"
| clean_more: "clean_run uid et ts d' d'' \<Longrightarrow> map_of errs et = None \<Longrightarrow>
    set (order (ri_error_type ` set (list_items uid d) \<union> fst ` set errs))
        = ri_error_type ` set (list_items uid d) \<union> fst ` set errs \<Longrightarrow>
    record_session uid errs order now (tx_begin d, False) = (Inr (), (t', aborted)) \<Longrightarrow> d' = committed t' \<Longrightarrow>
    clean_run uid et (now # ts) d d''"

text \<open>The dates of reviews that follow \<open>t\<close> at least the given numbers of days apart.\<close>

fun spaced_by :: "int list \<Rightarrow> instant \<Rightarrow> instant list \<Rightarrow> bool" where
  "spaced_by [] t us \<longleftrightarrow> us = []"
| "spaced_by (g # gs) t us \<longleftrightarrow> (\<exists>u vs. us = u # vs \<and> t + us_per_day * g \<le> u \<and> spaced_by gs u vs)"

lemma spaced_by_earlier: "spaced_by gs t us \<Longrightarrow> t' \<le> t \<Longrightarrow> spaced_by gs t' us"
  by (cases gs) auto

lemma spaced_by_step:
  assumes "\<forall>y \<in> set xs. x \<le> y"
  shows "(\<exists>us. subseq us (x # xs) \<and> spaced_by (g # gs) t us)
    \<longleftrightarrow> (if x < t + us_per_day * g then \<exists>us. subseq us xs \<and> spaced_by (g # gs) t us
         else \<exists>us. subseq us xs \<and> spaced_by gs x us)" (is "?L \<longleftrightarrow> ?R")
proof
  assume ?L
  then obtain u vs where u: "subseq (u # vs) (x # xs)" "t + us_per_day * g \<le> u" "spaced_by gs u vs" by auto
  show ?R
  proof (cases "u = x")
    case True
    then show ?thesis using u by (auto simp: subseq_Cons2_iff)
  next
    case False
    then have s: "subseq (u # vs) xs" using u(1) by (simp add: subseq_Cons2_iff)
    then have "u \<in> set xs" using subseq_order.dual_order.trans list_emb_set by (fastforce dest: list_emb_set)
    then have "x \<le> u" using assms by blast
    then have "spaced_by gs x vs" by (rule spaced_by_earlier [OF u(3)])
    moreover have "subseq vs xs" using s by (rule subseq_Cons')
    ultimately show ?thesis using s u by auto
  qed
next
  assume R: ?R
  show ?L
  proof (cases "x < t + us_per_day * g")
    case True
    then show ?thesis using R by (meson list_emb_Cons)
  next
    case False
    then obtain us where us: "subseq us xs" "spaced_by gs x us" using R by auto
    then have "subseq (x # us) (x # xs)" by simp
    moreover have "spaced_by (g # gs) t (x # us)" using us(2) False by simp
    ultimately show ?thesis by blast
  qed
qed

definition clean_step :: "instant \<Rightarrow> review_state \<Rightarrow> review_state" where
  "clean_step now st = (case on_error_absent st now of Inl _ \<Rightarrow> st | Inr st' \<Rightarrow> st')"

lemma clean_step_waiting: "k < 3 \<Longrightarrow> clean_step now (waiting k n c) = (if now < n then waiting k n c
     else if k = 2 then mastered_state c else waiting (Suc k) (now + us_per_day * INTERVAL_DAYS ! Suc k) c)"
  by (simp add: clean_step_def absent_waiting)

lemma mastered_stays: "fold clean_step ts (mastered_state c) = mastered_state c"
  by (induction ts) (simp_all add: clean_step_def absent_mastered)

lemma mastery_from_rung:
  assumes "sorted ts" "k < 3"
  shows "rs_status (fold clean_step ts (waiting k (t + us_per_day * INTERVAL_DAYS ! k) c)) = STATUS_MASTERED
    \<longleftrightarrow> (\<exists>us. subseq us ts \<and> spaced_by (drop k INTERVAL_DAYS) t us)"
  using assms
proof (induction ts arbitrary: k t)
  case Nil
  then have "drop k INTERVAL_DAYS \<noteq> []" by (simp add: INTERVAL_DAYS_def)
  then obtain g gs where "drop k INTERVAL_DAYS = g # gs" by (cases "drop k INTERVAL_DAYS") auto
  then show ?case by (auto simp: waiting_def)
next
  case (Cons x xs)
  let ?g = "INTERVAL_DAYS ! k"
  have gs: "drop k INTERVAL_DAYS = ?g # drop (Suc k) INTERVAL_DAYS"
    by (rule Cons_nth_drop_Suc [symmetric]) (use Cons.prems(2) in \<open>simp add: INTERVAL_DAYS_def\<close>)
  have le: "\<forall>y \<in> set xs. x \<le> y" and sorted: "sorted xs" using Cons.prems(1) by auto
  note step = spaced_by_step [OF le, of ?g "drop (Suc k) INTERVAL_DAYS" t]
  show ?case
  proof (cases "x < t + us_per_day * ?g")
    case True
    then show ?thesis using step Cons.IH [OF sorted Cons.prems(2), of t] Cons.prems(2) gs
      by (simp add: clean_step_waiting)
  next
    case late: False
    show ?thesis
    proof (cases "k = 2")
      case True
      have "spaced_by (drop (Suc k) INTERVAL_DAYS) x []" using True by (simp add: INTERVAL_DAYS_def)
      then have "\<exists>us. subseq us (x # xs) \<and> spaced_by (drop k INTERVAL_DAYS) t us"
        unfolding gs step using late by (auto intro!: exI [of _ "[]"])
      moreover have "rs_status (fold clean_step (x # xs) (waiting k (t + us_per_day * ?g) c)) = STATUS_MASTERED"
        using late True by (simp add: clean_step_waiting mastered_stays) (simp add: mastered_state_def)
      ultimately show ?thesis by blast
    next
      case False
      then show ?thesis using step late Cons.IH [OF sorted, of "Suc k" x] Cons.prems(2) gs
        by (simp add: clean_step_waiting)
    qed
  qed
qed

lemma record_types_users:
  "record_types uid ex errs now ets s = (r, s') \<Longrightarrow> users (working (fst s')) = users (working (fst s))"
proof (induction ets arbitrary: s)
  case (Cons et ets)
  obtain t ab where s: "s = (t, ab)" by (cases s)
  show ?case
    using Cons.prems Cons.IH
    by (cases "next_state errs now et (to_state (List.find (\<lambda>r. ri_error_type r = et) ex))")
      (auto simp: s sess_exec_def upsert_item_def split: if_split_asm)
qed simp

lemma record_session_users:
  assumes "record_session uid errs order now (t, False) = (Inr u, (t', ab))"
  shows "users (committed t') = users (working t)"
proof -
  let ?ets = "order (ri_error_type ` set (list_items uid (working t)) \<union> fst ` set errs)"
  obtain r s where run: "record_types uid (list_items uid (working t)) errs now ?ets (t, False) = (r, s)"
    by (cases "record_types uid (list_items uid (working t)) errs now ?ets (t, False)")
  then show ?thesis using assms record_types_users [OF run]
    by (cases r) (auto simp: record_session_def sess_exec_live)
qed

lemma clean_run_state:
  assumes "clean_run uid et ts d d'" "review_ok d" "get_user uid d \<noteq> None" "py_strip et \<noteq> []"
    "schedule uid d et = Some st"
  shows "schedule uid d' et = Some (fold clean_step ts st)"
  using assms
proof (induction arbitrary: st rule: clean_run.induct)
  case (clean_more ts d' d'' errs order d now t' aborted)
  have out: "review_ok d'" "schedule uid d' = session_step errs now (schedule uid d)"
    using record_session_outcome [of "tx_begin d" uid order errs now] clean_more by simp_all
  have "schedule uid d' et = Some (clean_step now st)"
    using clean_more.hyps(2) clean_more.prems unfolding out(2) session_step_def clean_step_def
    by (simp split: sum.splits)
  moreover have "get_user uid d' \<noteq> None"
    using record_session_users [OF clean_more.hyps(4)] clean_more.prems(2) clean_more.hyps(5) by (simp add: get_user_def)
  ultimately show ?case using clean_more.IH [OF out(1) _ clean_more.prems(3)] by simp
qed simp

text \<open>C12: Mastery is reached exactly by spaced practice. After an error type was seen at time \<open>t0\<close>, take any
  history of recorded sessions, in time order, in which it did not reappear: the type is mastered at the end
  if and only if three of those sessions came, in order, at least 1 day after \<open>t0\<close>, at least 3 days after the
  first of them and at least 7 days after the second. So mastery needs three clean sessions over eleven days,
  sessions held earlier neither help nor hurt, and spaced practice is always rewarded.\<close>

theorem mastery_iff_spaced_sessions:
  assumes "review_ok d" "get_user uid d \<noteq> None" "py_strip et \<noteq> []"
    "schedule uid d et = Some (on_error_seen st c t0)" "clean_run uid et ts d d'" "sorted ts"
  shows "map_option rs_status (schedule uid d' et) = Some STATUS_MASTERED
    \<longleftrightarrow> (\<exists>t1 t2 t3. subseq [t1, t2, t3] ts \<and> t0 + 1 * us_per_day \<le> t1 \<and> t1 + 3 * us_per_day \<le> t2 \<and> t2 + 7 * us_per_day \<le> t3)"
proof -
  obtain c' where "on_error_seen st c t0 = waiting 0 (t0 + us_per_day * INTERVAL_DAYS ! 0) c'"
    by (auto simp: on_error_seen_def waiting_def)
  then have "schedule uid d' et = Some (fold clean_step ts (waiting 0 (t0 + us_per_day * INTERVAL_DAYS ! 0) c'))"
    using clean_run_state [OF assms(5, 1-3)] assms(4) by simp
  then have "map_option rs_status (schedule uid d' et) = Some STATUS_MASTERED
      \<longleftrightarrow> (\<exists>us. subseq us ts \<and> spaced_by INTERVAL_DAYS t0 us)"
    using mastery_from_rung [OF assms(6), of 0 t0 c'] by simp
  also have "\<dots> \<longleftrightarrow> (\<exists>t1 t2 t3. subseq [t1, t2, t3] ts \<and> t0 + 1 * us_per_day \<le> t1
      \<and> t1 + 3 * us_per_day \<le> t2 \<and> t2 + 7 * us_per_day \<le> t3)"
    by (fastforce simp: INTERVAL_DAYS_def mult.commute)
  finally show ?thesis .
qed

lemma clean_run_exists:
  assumes "review_ok d" "get_user uid d \<noteq> None"
  shows "\<exists>d'. clean_run uid et ts d d'"
  using assms
proof (induction ts arbitrary: d)
  case Nil
  then show ?case by (blast intro: clean_none)
next
  case (Cons now ts)
  obtain ets where ets: "set ets = ri_error_type ` set (list_items uid d)" by (meson finite_imageI finite_list finite_set)
  then have order: "set ((\<lambda>_. ets) (ri_error_type ` set (list_items uid d) \<union> fst ` set [])) = ri_error_type ` set (list_items uid d) \<union> fst ` set []"
    by simp
  obtain r t' ab where run: "record_session uid [] (\<lambda>_. ets) now (tx_begin d, False) = (r, (t', ab))"
    by (cases "record_session uid [] (\<lambda>_. ets) now (tx_begin d, False)") auto
  have out: "r = Inr ()" "review_ok (committed t')"
    using record_session_outcome [of "tx_begin d" uid "\<lambda>_. ets" "[]" now] Cons.prems order run
    by (cases r; simp add: errors_storable_def)+
  have "get_user uid (committed t') \<noteq> None"
    using record_session_users [OF run [unfolded out(1)]] Cons.prems(2) by (simp add: get_user_def)
  with Cons.IH [OF out(2)] obtain d'' where "clean_run uid et ts (committed t') d''" by auto
  then show ?case using clean_more [OF _ _ order run [unfolded out(1)] refl] by auto
qed

theorem mastery_iff_spaced_sessions_witness:
  "\<exists>d'. clean_run 1 ''article'' [1 * us_per_day, 2 * us_per_day, 4 * us_per_day, 11 * us_per_day]
      (put_item 1 ''article'' (on_error_seen new_review_state ''an apple'' 0) demo_review_db) d'
    \<and> map_option rs_status (schedule 1 d' ''article'') = Some STATUS_MASTERED"
proof -
  let ?d = "put_item 1 ''article'' (on_error_seen new_review_state ''an apple'' 0) demo_review_db"
  let ?ts = "[1 * us_per_day, 2 * us_per_day, 4 * us_per_day, 11 * us_per_day]"
  have ok: "review_ok ?d" "get_user 1 ?d \<noteq> None"
    using demo_review_ok by (auto intro!: review_ok_put_item ladder_ok_seen)
      (simp add: item_storable_def pg_text_ok_def on_error_seen_def)
  have sched: "schedule 1 ?d ''article'' = Some (on_error_seen new_review_state ''an apple'' 0)"
    by (simp add: schedule_put_item)
  have word: "py_strip ''article'' \<noteq> []" by code_simp
  obtain d' where run: "clean_run 1 ''article'' ?ts ?d d'" using clean_run_exists [OF ok] by blast
  have sub: "subseq [1 * us_per_day, 4 * us_per_day, 11 * us_per_day] ?ts" by simp
  have "map_option rs_status (schedule 1 d' ''article'') = Some STATUS_MASTERED"
    by (rule iffD2 [OF mastery_iff_spaced_sessions [OF ok word sched run]], simp, intro exI conjI, rule sub) simp_all
  then show ?thesis using run by blast
qed

text \<open>What the review list shows.\<close>

lemma list_due_sound:
  assumes "r \<in> set (list_due uid now limit d)"
  shows "r \<in> set (review_items d)" "due_now uid now r"
proof -
  have "set (due_order xs) = set xs" for xs by (auto simp: due_order_def Let_def)
  then show "r \<in> set (review_items d)" "due_now uid now r"
    using assms by (auto simp: list_due_def list_due_items_def dest!: in_set_takeD)
qed

lemma list_due_bounded: "int (length (list_due uid now limit d)) \<le> MAX_PAGE_SIZE"
  using resolve_limit_bounds [of limit] by (simp add: list_due_def list_due_items_def)

end
