(* ===== verification/Sessions.thy ===== *)
theory Sessions
  imports Quota Keyset
begin

text \<open>
  Conversation sessions (\<^verbatim>\<open>app/features/sessions\<close>): the activity helpers, the ownership rule,
  the repository and the service with its quota metering, lazy reaper, explicit end and history. The
  user row is locked for the whole of \<open>start\<close> and for the second half of \<open>end\<close> and
  \<open>record_turn_activity\<close>; what these two read before they hold the lock is a definition of its
  own, so that a request may be interleaved between the read and the locked half. A service call runs
  on a transaction and returns its result and the transaction. The successive readings of the clock
  inside \<open>start\<close> are \<open>clk 0, clk 1, ...\<close>.
\<close>

section \<open>Activity helpers\<close>

definition as_utc :: "datetime \<Rightarrow> datetime" where
  "as_utc dt = (if tzinfo dt \<noteq> None then dt else dt\<lparr>tzinfo := Some 0\<rparr>)"

definition elapsed_minutes :: "datetime \<Rightarrow> datetime \<Rightarrow> real option \<Rightarrow> real" where
  "elapsed_minutes mark now cap =
     (let delta = of_int (instant (as_utc now) - instant (as_utc mark)) / of_int us_per_minute;
          minutes = max 0 delta
      in case cap of None \<Rightarrow> minutes | Some c \<Rightarrow> min minutes c)"

definition is_stale :: "datetime \<Rightarrow> datetime \<Rightarrow> real \<Rightarrow> bool" where
  "is_stale last_activity now timeout_minutes \<longleftrightarrow>
     elapsed_minutes last_activity now None > timeout_minutes"

definition MAX_PRACTICE_SKEW :: int where "MAX_PRACTICE_SKEW = 48 * us_per_hour"

definition clamp_practiced_at :: "datetime option \<Rightarrow> instant \<Rightarrow> datetime" where
  "clamp_practiced_at raw now = (case raw of None \<Rightarrow> utc now
     | Some r \<Rightarrow>
         let r1 = (if tzinfo r = None then r\<lparr>tzinfo := Some 0\<rparr> else r);
             r2 = astimezone_utc r1
         in if instant r2 > now \<or> now - instant r2 > MAX_PRACTICE_SKEW then utc now else r2)"

lemma as_utc_idem [simp]: "as_utc (as_utc dt) = as_utc dt"
  by (simp add: as_utc_def)

lemma as_utc_utc [simp]: "as_utc (utc i) = utc i"
  by (simp add: as_utc_def utc_def)

lemma instant_as_utc [simp]: "instant (as_utc dt) = instant dt"
  by (auto simp: as_utc_def instant_def)

lemma elapsed_minutes_nonneg: "0 \<le> c \<Longrightarrow> 0 \<le> elapsed_minutes mark now (Some c)"
  by (simp add: elapsed_minutes_def)

lemma elapsed_minutes_cap: "elapsed_minutes mark now (Some c) \<le> c"
  by (simp add: elapsed_minutes_def)

lemma elapsed_minutes_le:
  "instant mark \<le> instant now \<Longrightarrow>
   elapsed_minutes mark now (Some c) \<le> of_int (instant now - instant mark) / of_int us_per_minute"
  by (simp add: elapsed_minutes_def Let_def del: divide_le_eq_numeral1 le_divide_eq_numeral1)

text \<open>The practice instant a client supplies is trusted only inside the last 48 hours: whatever is
  sent (any instant, any UTC offset, no offset at all, or nothing), the instant used is an aware UTC
  datetime in [now - 48 h, now], it is the client's own instant whenever that lies in the window, and
  it is the server's clock otherwise.\<close>

theorem clamp_practiced_at_window:
  "(let r = clamp_practiced_at raw now in
     r = utc (instant r) \<and> now - MAX_PRACTICE_SKEW \<le> instant r \<and> instant r \<le> now
     \<and> instant r = (case raw of None \<Rightarrow> now
         | Some c \<Rightarrow> if now - MAX_PRACTICE_SKEW \<le> instant c \<and> instant c \<le> now then instant c else now))"
proof (cases raw)
  case None
  then show ?thesis by (simp add: clamp_practiced_at_def MAX_PRACTICE_SKEW_def)
next
  case (Some c)
  have "instant (if tzinfo c = None then c\<lparr>tzinfo := Some 0\<rparr> else c) = instant c"
    by (simp add: instant_def)
  then show ?thesis using Some
    by (auto simp: clamp_practiced_at_def MAX_PRACTICE_SKEW_def astimezone_utc_def Let_def)
qed

section \<open>Repository\<close>

definition get_session :: "int \<Rightarrow> db \<Rightarrow> conv_session option" where
  "get_session sid d = List.find (\<lambda>s. cs_id s = sid) (sessions d)"

definition put_session :: "int \<Rightarrow> (conv_session \<Rightarrow> conv_session) \<Rightarrow> db \<Rightarrow> db" where
  "put_session sid f d = sessions_update (update_where (\<lambda>s. cs_id s = sid) f) d"

definition is_active_of :: "int \<Rightarrow> conv_session \<Rightarrow> bool" where
  "is_active_of uid s \<longleftrightarrow> cs_user_id s = uid \<and> cs_ended_at s = None"

definition get_active_for_user :: "int \<Rightarrow> db \<Rightarrow> conv_session option" where
  "get_active_for_user uid d = List.find (is_active_of uid) (sessions d)"

text \<open>The flushed \<open>INSERT\<close>: the row takes the next id of the sequence; the partial unique index
  on the active sessions of a user refuses a second one.\<close>

definition insert_session :: "conv_session \<Rightarrow> db \<Rightarrow> db" where
  "insert_session s d = d\<lparr>sessions := sessions d @ [s], seq_sessions := seq_sessions d + 1\<rparr>"

definition add_session :: "conv_session \<Rightarrow> dbtx \<Rightarrow> (error + conv_session) \<times> dbtx" where
  "add_session s t =
     (let s' = s\<lparr>cs_id := seq_sessions (working t)\<rparr> in
      if get_active_for_user (cs_user_id s) (working t) \<noteq> None
      then (Inl (IntegrityErr ''uq_sessions_one_active_per_user''), tx_rollback t)
      else (Inr s', tx_modify (insert_session s') t))"

definition get_owned_mission :: "int \<Rightarrow> int \<Rightarrow> db \<Rightarrow> mission option" where
  "get_owned_mission mid uid d = List.find (\<lambda>m. ms_id m = mid \<and> ms_user_id m = uid) (missions d)"

definition get_owned_session :: "int \<Rightarrow> int \<Rightarrow> db \<Rightarrow> error + conv_session" where
  "get_owned_session sid uid d = (case get_session sid d of
      None \<Rightarrow> Inl (DomainErr NotFoundError ''Session not found'')
    | Some s \<Rightarrow> if cs_user_id s \<noteq> uid then Inl (DomainErr NotFoundError ''Session not found'')
        else Inr s)"

section \<open>Service\<close>

record session_cfg =
  sc_free_daily :: int
  sc_voice_engine :: string
  sc_history_page_size :: int
  sc_inactivity_timeout :: real
  sc_turn_meter_cap :: real
  sc_has_missions :: bool
  sc_has_transcripts :: bool

definition or_zero :: "real option \<Rightarrow> real" where
  "or_zero x = (case x of None \<Rightarrow> 0 | Some m \<Rightarrow> m)"

text \<open>\<open>s\<close> is the loaded session object, \<open>u\<close> the locked user, if there is one.\<close>

definition residual_of :: "session_cfg \<Rightarrow> conv_session \<Rightarrow> instant \<Rightarrow> real" where
  "residual_of cfg s now =
     elapsed_minutes (as_utc (cs_last_activity_at s)) (utc now) (Some (sc_turn_meter_cap cfg))"

definition close_session ::
  "session_cfg \<Rightarrow> conv_session \<Rightarrow> user option \<Rightarrow> instant \<Rightarrow> db \<Rightarrow> db" where
  "close_session cfg s u now d =
     (let residual = residual_of cfg s now;
          d1 = put_session (cs_id s) (\<lambda>r. r\<lparr>cs_ended_at := Some now,
                 cs_duration_minutes := Some (or_zero (cs_duration_minutes s) + residual)\<rparr>) d
      in case u of None \<Rightarrow> d1
         | Some v \<Rightarrow> if residual > 0
             then put_user (u_id v) (record_usage residual (date_of (utc now))) d1 else d1)"

definition owns_mission :: "session_cfg \<Rightarrow> int \<Rightarrow> int \<Rightarrow> db \<Rightarrow> bool" where
  "owns_mission cfg mid uid d \<longleftrightarrow> sc_has_missions cfg \<and> get_owned_mission mid uid d \<noteq> None"

text \<open>The second half of \<open>start\<close>: the mission check, the insert and the commit.\<close>

definition create_session ::
  "session_cfg \<Rightarrow> (nat \<Rightarrow> instant) \<Rightarrow> int \<Rightarrow> string \<Rightarrow> string option \<Rightarrow> int option \<Rightarrow> dbtx
   \<Rightarrow> (error + conv_session) \<times> dbtx" where
  "create_session cfg clk uid mode scenario_id mission_id t =
     (if mission_id \<noteq> None \<and> \<not> owns_mission cfg (the mission_id) uid (working t)
      then (Inl (DomainErr NotFoundError ''Mission not found''), t)
      else case add_session
             \<lparr>cs_id = 0, cs_user_id = uid, cs_mode = mode, cs_scenario_id = scenario_id,
              cs_mission_id = mission_id, cs_voice_engine = sc_voice_engine cfg,
              cs_started_at = clk 2, cs_last_activity_at = utc (clk 3),
              cs_ended_at = None, cs_duration_minutes = None\<rparr> t of
           (Inl e, t') \<Rightarrow> (Inl e, t')
         | (Inr s, t') \<Rightarrow> (Inr s, tx_commit t'))"

definition start_session ::
  "session_cfg \<Rightarrow> (nat \<Rightarrow> instant) \<Rightarrow> int \<Rightarrow> string \<Rightarrow> string option \<Rightarrow> int option \<Rightarrow> dbtx
   \<Rightarrow> (error + conv_session) \<times> dbtx" where
  "start_session cfg clk uid mode scenario_id mission_id t =
     (case get_user uid (working t) of
        None \<Rightarrow> (Inl (DomainErr NotFoundError ''User not found''), t)
      | Some u \<Rightarrow>
         if float_le_zero (remaining_minutes u (sc_free_daily cfg) (date_of (utc (clk 0))))
         then (Inl (DomainErr QuotaExhaustedError ''Daily free quota exhausted''), t)
         else (case get_active_for_user uid (working t) of
             None \<Rightarrow> create_session cfg clk uid mode scenario_id mission_id t
           | Some active \<Rightarrow>
              let now = clk 1 in
              if is_stale (as_utc (cs_last_activity_at active)) (utc now) (sc_inactivity_timeout cfg)
              then
                let t1 = tx_modify (close_session cfg active (Some u) now) t in
                if (case get_user uid (working t1) of None \<Rightarrow> False
                    | Some u1 \<Rightarrow> float_le_zero
                        (remaining_minutes u1 (sc_free_daily cfg) (date_of (utc now))))
                then (Inl (DomainErr QuotaExhaustedError ''Daily free quota exhausted''),
                      tx_commit t1)
                else create_session cfg clk uid mode scenario_id mission_id t1
              else (Inl (DomainErr ActiveSessionExistsError ''A session is already in progress''),
                    t)))"

definition active_session :: "session_cfg \<Rightarrow> int \<Rightarrow> db \<Rightarrow> (conv_session \<times> message list) option" where
  "active_session cfg uid d = (case get_active_for_user uid d of None \<Rightarrow> None
     | Some s \<Rightarrow> Some (s,
         if sc_has_transcripts cfg
         then (case List.find (\<lambda>x. tr_session_id x = cs_id s) (transcripts d) of
                 None \<Rightarrow> [] | Some x \<Rightarrow> tr_turns x)
         else []))"

text \<open>\<open>end\<close>: the owned read, then the half that runs under the lock on a refreshed row. A row
  that is gone when it is refreshed raises SQLAlchemy's \<open>InvalidRequestError\<close>.\<close>

definition end_locked ::
  "session_cfg \<Rightarrow> int \<Rightarrow> int \<Rightarrow> instant \<Rightarrow> dbtx \<Rightarrow> (error + conv_session) \<times> dbtx" where
  "end_locked cfg sid uid now t = (case get_session sid (working t) of
      None \<Rightarrow> (Inl (OtherErr ''InvalidRequestError''), t)
    | Some s \<Rightarrow> if cs_ended_at s \<noteq> None then (Inr s, t)
        else let t' = tx_commit (tx_modify
                        (close_session cfg s (get_user uid (working t)) now) t)
             in (Inr (s\<lparr>cs_ended_at := Some now,
                   cs_duration_minutes :=
                     Some (or_zero (cs_duration_minutes s) + residual_of cfg s now)\<rparr>), t'))"

definition end_session ::
  "session_cfg \<Rightarrow> int \<Rightarrow> int \<Rightarrow> instant \<Rightarrow> dbtx \<Rightarrow> (error + conv_session) \<times> dbtx" where
  "end_session cfg sid uid now t = (case get_owned_session sid uid (working t) of
      Inl e \<Rightarrow> (Inl e, t)
    | Inr s \<Rightarrow> if cs_ended_at s \<noteq> None then (Inr s, t) else end_locked cfg sid uid now t)"

text \<open>\<open>record_turn_activity\<close>: the unlocked read gives the minutes to bill, or None for the early
  return; the locked half writes them.\<close>

definition turn_read :: "session_cfg \<Rightarrow> int \<Rightarrow> int \<Rightarrow> instant \<Rightarrow> db \<Rightarrow> real option" where
  "turn_read cfg sid uid now d = (case get_session sid d of None \<Rightarrow> None
     | Some s \<Rightarrow> if cs_user_id s \<noteq> uid \<or> cs_ended_at s \<noteq> None then None
         else Some (elapsed_minutes (as_utc (cs_last_activity_at s)) (utc now)
                      (Some (sc_turn_meter_cap cfg))))"

definition turn_session_update :: "real \<Rightarrow> instant \<Rightarrow> conv_session \<Rightarrow> conv_session" where
  "turn_session_update minutes now s =
     (let s1 = s\<lparr>cs_last_activity_at := utc now\<rparr>
      in if minutes > 0
         then s1\<lparr>cs_duration_minutes := Some (or_zero (cs_duration_minutes s) + minutes)\<rparr> else s1)"

definition turn_user_update :: "real \<Rightarrow> date \<Rightarrow> user \<Rightarrow> user" where
  "turn_user_update minutes today u =
     apply_active_day today (if minutes > 0 then record_usage minutes today u else u)"

definition turn_locked ::
  "int \<Rightarrow> int \<Rightarrow> instant \<Rightarrow> real \<Rightarrow> dbtx \<Rightarrow> (error + unit) \<times> dbtx" where
  "turn_locked sid uid now minutes t = (case get_session sid (working t) of
      None \<Rightarrow> (Inl (OtherErr ''InvalidRequestError''), t)
    | Some s \<Rightarrow> if cs_ended_at s \<noteq> None then (Inr (), t)
        else (Inr (), tx_commit (tx_modify (\<lambda>d.
               put_user uid (turn_user_update minutes (date_of (utc now)))
                 (put_session sid (turn_session_update minutes now) d)) t)))"

definition record_turn_activity ::
  "session_cfg \<Rightarrow> int \<Rightarrow> int \<Rightarrow> instant \<Rightarrow> dbtx \<Rightarrow> (error + unit) \<times> dbtx" where
  "record_turn_activity cfg sid uid now t = (case turn_read cfg sid uid now (working t) of
      None \<Rightarrow> (Inr (), t) | Some minutes \<Rightarrow> turn_locked sid uid now minutes t)"

section \<open>Laws of the session table\<close>

interpretation session_table: seq_table sessions sessions_update cs_id seq_sessions insert_session
  by unfold_locales (auto simp: insert_session_def)

lemma get_session_row: "get_session = session_table.get_row"
  by (simp add: fun_eq_iff get_session_def session_table.get_row_def)

lemma put_session_row: "put_session = session_table.put_row"
  by (simp add: fun_eq_iff put_session_def session_table.put_row_def)

lemma get_session_SomeD: "get_session sid d = Some s \<Longrightarrow> s \<in> set (sessions d) \<and> cs_id s = sid"
  by (simp add: get_session_row session_table.get_row_SomeD)

lemma put_session_frame [simp]:
  "users (put_session sid f d) = users d" "seq_sessions (put_session sid f d) = seq_sessions d"
  "seq_users (put_session sid f d) = seq_users d" "missions (put_session sid f d) = missions d"
  "transcripts (put_session sid f d) = transcripts d" "debriefs (put_session sid f d) = debriefs d"
  "get_user uid (put_session sid f d) = get_user uid d"
  by (simp_all add: put_session_def get_user_def)

lemma insert_session_frame [simp]:
  "users (insert_session s d) = users d" "get_user uid (insert_session s d) = get_user uid d"
  by (simp_all add: insert_session_def get_user_def)

lemma get_session_put_user [simp]: "get_session sid (put_user uid f d) = get_session sid d"
  by (simp add: get_session_def)

lemma sessions_put_session:
  "sessions (put_session sid f d) = update_where (\<lambda>s. cs_id s = sid) f (sessions d)"
  by (simp add: put_session_def)

lemma turn_session_update_sel [simp]:
  "cs_id (turn_session_update m now s) = cs_id s"
  "cs_user_id (turn_session_update m now s) = cs_user_id s"
  "cs_ended_at (turn_session_update m now s) = cs_ended_at s"
  "cs_started_at (turn_session_update m now s) = cs_started_at s"
  "cs_last_activity_at (turn_session_update m now s) = utc now"
  "or_zero (cs_duration_minutes (turn_session_update m now s))
     = or_zero (cs_duration_minutes s) + max 0 m"
  by (auto simp: turn_session_update_def or_zero_def Let_def)

lemma turn_user_update_sel [simp]:
  "u_id (turn_user_update m d u) = u_id u"
  "used_on d (turn_user_update m d u) = used_on d u + max 0 m"
  by (auto simp: turn_user_update_def used_on_record_usage)
    (auto simp: apply_active_day_def used_on_def record_usage_def Let_def)

lemma sessions_close_session:
  "sessions (close_session cfg s u now d) = update_where (\<lambda>r. cs_id r = cs_id s)
     (\<lambda>r. r\<lparr>cs_ended_at := Some now,
        cs_duration_minutes := Some (or_zero (cs_duration_minutes s) + residual_of cfg s now)\<rparr>)
     (sessions d)"
  "seq_sessions (close_session cfg s u now d) = seq_sessions d"
  "missions (close_session cfg s u now d) = missions d"
  by (auto simp: close_session_def sessions_put_session Let_def split: option.splits)

section \<open>One active session per user\<close>

definition sessions_ok :: "db \<Rightarrow> bool" where
  "sessions_ok d \<longleftrightarrow> session_table.keys_ok d
     \<and> unique_on cs_user_id (filter (\<lambda>s. cs_ended_at s = None) (sessions d))"

lemma unique_filter_update_where:
  assumes "\<And>r. key (f r) = key r" and "\<And>r. q (f r) \<Longrightarrow> q r"
  shows "unique_on key (filter q rows) \<Longrightarrow> unique_on key (filter q (update_where p f rows))"
proof (induction rows)
  case (Cons r rows)
  have "key ` set (filter q (update_where p f rows)) \<subseteq> key ` set (filter q rows)"
    using assms by (auto elim!: in_update_whereE split: if_splits)
  then show ?case using Cons assms by (auto simp: unique_on_Cons split: if_splits)
qed simp

lemma sessions_ok_put:
  assumes "sessions_ok d" and "\<And>r. cs_id (f r) = cs_id r" "\<And>r. cs_user_id (f r) = cs_user_id r"
    and "\<And>r. cs_ended_at (f r) = None \<Longrightarrow> cs_ended_at r = None"
  shows "sessions_ok (put_session sid f d)"
proof -
  have "session_table.keys_ok (put_session sid f d)"
    unfolding put_session_row
    by (rule session_table.keys_ok_put_row) (use assms in \<open>auto simp: sessions_ok_def\<close>)
  moreover have "unique_on cs_user_id
      (filter (\<lambda>s. cs_ended_at s = None) (sessions (put_session sid f d)))"
    unfolding sessions_put_session
    by (rule unique_filter_update_where) (use assms in \<open>auto simp: sessions_ok_def\<close>)
  ultimately show ?thesis by (simp add: sessions_ok_def)
qed

lemma sessions_ok_cong:
  "sessions d' = sessions d \<Longrightarrow> seq_sessions d' = seq_sessions d \<Longrightarrow> sessions_ok d' = sessions_ok d"
  by (simp add: sessions_ok_def session_table.keys_ok_def)

lemma sessions_ok_close: "sessions_ok d \<Longrightarrow> sessions_ok (close_session cfg s u now d)"
proof -
  assume ok: "sessions_ok d"
  let ?f = "\<lambda>r. r\<lparr>cs_ended_at := Some now,
    cs_duration_minutes := Some (or_zero (cs_duration_minutes s) + residual_of cfg s now)\<rparr>"
  have "sessions_ok (put_session (cs_id s) ?f d)" by (rule sessions_ok_put [OF ok]) auto
  moreover have "sessions (close_session cfg s u now d) = sessions (put_session (cs_id s) ?f d)"
    "seq_sessions (close_session cfg s u now d) = seq_sessions (put_session (cs_id s) ?f d)"
    by (simp_all add: sessions_close_session sessions_put_session)
  ultimately show ?thesis using sessions_ok_cong by blast
qed

lemma sessions_ok_insert:
  assumes "sessions_ok d" "cs_id s = seq_sessions d" "get_active_for_user (cs_user_id s) d = None"
  shows "sessions_ok (insert_session s d)"
  using assms session_table.keys_ok_ins [of d s]
  by (auto simp: sessions_ok_def get_active_for_user_def find_None_conv is_active_of_def unique_on_snoc)

lemma sessions_ok_delete:
  assumes "sessions_ok d" "sessions d' = delete_where p (sessions d)" "seq_sessions d' = seq_sessions d"
  shows "sessions_ok d'"
proof -
  let ?act = "\<lambda>s. cs_ended_at s = None"
  have "filter ?act (delete_where p (sessions d)) = delete_where p (filter ?act (sessions d))"
    by (simp add: delete_where_def conj_commute)
  then have "unique_on cs_user_id (filter ?act (sessions d'))"
    using assms by (simp add: sessions_ok_def unique_on_delete_where)
  then show ?thesis using assms
    by (auto simp: sessions_ok_def session_table.keys_ok_def unique_on_delete_where table_simps)
qed

lemma create_session_Inl:
  "create_session cfg clk uid mode scen mid t = (Inl e, t') \<Longrightarrow> committed t' = committed t"
  by (auto simp: create_session_def add_session_def Let_def split: if_split_asm)

definition created_session ::
  "session_cfg \<Rightarrow> (nat \<Rightarrow> instant) \<Rightarrow> int \<Rightarrow> string \<Rightarrow> string option \<Rightarrow> int option \<Rightarrow> int \<Rightarrow> conv_session" where
  "created_session cfg clk uid mode scen mid sid =
     \<lparr>cs_id = sid, cs_user_id = uid, cs_mode = mode, cs_scenario_id = scen,
      cs_mission_id = mid, cs_voice_engine = sc_voice_engine cfg,
      cs_started_at = clk 2, cs_last_activity_at = utc (clk 3),
      cs_ended_at = None, cs_duration_minutes = None\<rparr>"

lemma created_session_sel [simp]:
  "cs_id (created_session cfg clk uid mode scen mid sid) = sid"
  "cs_user_id (created_session cfg clk uid mode scen mid sid) = uid"
  "cs_started_at (created_session cfg clk uid mode scen mid sid) = clk 2"
  "cs_last_activity_at (created_session cfg clk uid mode scen mid sid) = utc (clk 3)"
  "cs_ended_at (created_session cfg clk uid mode scen mid sid) = None"
  "cs_duration_minutes (created_session cfg clk uid mode scen mid sid) = None"
  by (simp_all add: created_session_def)

lemma create_session_Inr:
  assumes "create_session cfg clk uid mode scen mid t = (Inr s, t')"
  shows "s = created_session cfg clk uid mode scen mid (seq_sessions (working t))"
    and "get_active_for_user uid (working t) = None"
    and "committed t' = insert_session s (working t)"
  using assms
  by (auto simp: create_session_def add_session_def created_session_def Let_def split: if_split_asm)

text \<open>What a call to \<open>start\<close> does to the committed database, branch by branch.\<close>

lemma start_session_cases:
  assumes "start_session cfg clk uid mode scen mid (tx_begin d) = (r, t)"
  obtains (rejected) e where "r = Inl e" "committed t = d"
  | (reaped) u a where "r = Inl (DomainErr QuotaExhaustedError ''Daily free quota exhausted'')"
      "get_user uid d = Some u" "get_active_for_user uid d = Some a"
      "is_stale (as_utc (cs_last_activity_at a)) (utc (clk 1)) (sc_inactivity_timeout cfg)"
      "committed t = close_session cfg a (Some u) (clk 1) d"
  | (fresh) u s where "r = Inr s" "get_user uid d = Some u" "get_active_for_user uid d = None"
      "\<not> float_le_zero (remaining_minutes u (sc_free_daily cfg) (date_of (utc (clk 0))))"
      "create_session cfg clk uid mode scen mid (tx_begin d) = (r, t)"
  | (replaced) u a s where "r = Inr s" "get_user uid d = Some u" "get_active_for_user uid d = Some a"
      "\<not> float_le_zero (remaining_minutes u (sc_free_daily cfg) (date_of (utc (clk 0))))"
      "is_stale (as_utc (cs_last_activity_at a)) (utc (clk 1)) (sc_inactivity_timeout cfg)"
      "create_session cfg clk uid mode scen mid
         (tx_modify (close_session cfg a (Some u) (clk 1)) (tx_begin d)) = (r, t)"
proof (cases "\<exists>e. r = Inl e \<and> committed t = d")
  case True
  then show thesis using rejected by blast
next
  case False
  then obtain u where u: "get_user uid d = Some u"
    "\<not> float_le_zero (remaining_minutes u (sc_free_daily cfg) (date_of (utc (clk 0))))"
    using assms by (auto simp: start_session_def split: option.splits if_splits)
  show thesis
  proof (cases "get_active_for_user uid d")
    case None
    with u assms have c: "create_session cfg clk uid mode scen mid (tx_begin d) = (r, t)"
      by (simp add: start_session_def)
    show thesis
    proof (cases r)
      case (Inl e)
      with c False show thesis using create_session_Inl by fastforce
    qed (use fresh None u c in blast)
  next
    case (Some a)
    let ?t1 = "tx_modify (close_session cfg a (Some u) (clk 1)) (tx_begin d)"
    have stale: "is_stale (as_utc (cs_last_activity_at a)) (utc (clk 1)) (sc_inactivity_timeout cfg)"
      using False u Some assms by (auto simp: start_session_def Let_def split: if_splits)
    have "(r, t) = (Inl (DomainErr QuotaExhaustedError ''Daily free quota exhausted''), tx_commit ?t1)
        \<or> create_session cfg clk uid mode scen mid ?t1 = (r, t)"
      using u Some stale assms by (auto simp: start_session_def Let_def split: if_splits)
    then show thesis
    proof
      assume "(r, t) = (Inl (DomainErr QuotaExhaustedError ''Daily free quota exhausted''),
        tx_commit ?t1)"
      then show thesis using reaped u Some stale by simp
    next
      assume c: "create_session cfg clk uid mode scen mid ?t1 = (r, t)"
      show thesis
      proof (cases r)
        case (Inl e)
        with c False show thesis using create_session_Inl by fastforce
      qed (use replaced u Some stale c in blast)
    qed
  qed
qed

lemma sessions_ok_start:
  assumes "sessions_ok d"
  shows "sessions_ok (committed (snd (start_session cfg clk uid mode scen mid (tx_begin d))))"
proof -
  obtain r t where e: "start_session cfg clk uid mode scen mid (tx_begin d) = (r, t)" by force
  have "sessions_ok (committed t)"
    using e
  proof (cases rule: start_session_cases)
    case (fresh u s)
    note c = create_session_Inr [OF fresh(5) [unfolded fresh(1)]]
    show ?thesis using assms c(2)
      by (simp add: c(3), subst c(1)) (auto intro!: sessions_ok_insert)
  next
    case (replaced u a s)
    note c = create_session_Inr [OF replaced(6) [unfolded replaced(1)]]
    show ?thesis using assms c(2)
      by (simp add: c(3), subst c(1)) (auto intro!: sessions_ok_insert sessions_ok_close)
  qed (use assms sessions_ok_close in auto)
  then show ?thesis by (simp add: e)
qed

lemma sessions_ok_end_locked:
  "sessions_ok d \<Longrightarrow> sessions_ok (committed (snd (end_locked cfg sid uid now (tx_begin d))))"
  by (auto simp: end_locked_def Let_def sessions_ok_close split: option.splits)

lemma sessions_ok_turn_locked:
  assumes "sessions_ok d"
  shows "sessions_ok (committed (snd (turn_locked sid uid now m (tx_begin d))))"
proof -
  have "sessions_ok (put_session sid (turn_session_update m now) d)"
    by (rule sessions_ok_put [OF assms]) auto
  then have "sessions_ok (put_user uid f (put_session sid (turn_session_update m now) d))" for f
    using sessions_ok_cong [of "put_user uid f (put_session sid (turn_session_update m now) d)"]
    by simp
  then show ?thesis using assms by (auto simp: turn_locked_def split: option.splits)
qed

text \<open>
  The states the sessions table goes through: any interleaving of starts, of the locked halves of
  \<open>end\<close> and of a turn (whose minutes were computed from an earlier read and so are arbitrary
  here), and of other requests, which may delete sessions but neither add nor change them.
\<close>

inductive session_reach :: "session_cfg \<Rightarrow> db \<Rightarrow> bool" for cfg where
  reach_init: "sessions d = [] \<Longrightarrow> session_reach cfg d"
| reach_start: "session_reach cfg d \<Longrightarrow>
    session_reach cfg (committed (snd (start_session cfg clk uid mode scen mid (tx_begin d))))"
| reach_end: "session_reach cfg d \<Longrightarrow>
    session_reach cfg (committed (snd (end_locked cfg sid uid now (tx_begin d))))"
| reach_turn: "session_reach cfg d \<Longrightarrow>
    session_reach cfg (committed (snd (turn_locked sid uid now minutes (tx_begin d))))"
| reach_other: "session_reach cfg d \<Longrightarrow> sessions d' = delete_where p (sessions d) \<Longrightarrow>
    seq_sessions d' = seq_sessions d \<Longrightarrow> session_reach cfg d'"

lemma sessions_ok_reach: "session_reach cfg d \<Longrightarrow> sessions_ok d"
proof (induction rule: session_reach.induct)
  case (reach_init d)
  then show ?case by (simp add: sessions_ok_def session_table.keys_ok_def)
next
  case (reach_other d d' p)
  then show ?case by (rule_tac sessions_ok_delete) auto
qed (simp_all add: sessions_ok_start sessions_ok_end_locked sessions_ok_turn_locked)

lemma unique_on_filter_le_1:
  "unique_on key (filter q rows) \<Longrightarrow> length (filter (\<lambda>r. key r = k \<and> q r) rows) \<le> 1"
proof (induction rows)
  case (Cons r rows)
  show ?case
  proof (cases "q r \<and> key r = k")
    case True
    then have "k \<notin> key ` set (filter q rows)" using Cons.prems by (auto simp: unique_on_Cons)
    then have "filter (\<lambda>r. key r = k \<and> q r) rows = []" by (auto simp: filter_empty_conv)
    then show ?thesis using True by simp
  next
    case False
    then show ?thesis using Cons by (auto simp: unique_on_Cons split: if_splits)
  qed
qed simp

text \<open>C5: A user never has two sessions in progress: in every state reached by any interleaving of starts,
  turns and ends (a turn or an end may be cut between its unlocked read and its locked half by any
  other request), at most one session of each user has no end.\<close>

theorem one_active_session:
  assumes "session_reach cfg d"
  shows "length (filter (is_active_of uid) (sessions d)) \<le> 1"
  using unique_on_filter_le_1 [of cs_user_id "\<lambda>s. cs_ended_at s = None" "sessions d" uid]
    sessions_ok_reach [OF assms] unfolding sessions_ok_def is_active_of_def by blast

definition demo_cfg :: session_cfg where
  "demo_cfg = \<lparr>sc_free_daily = 15, sc_voice_engine = ''fake'', sc_history_page_size = 20,
     sc_inactivity_timeout = 30, sc_turn_meter_cap = 5, sc_has_missions = True,
     sc_has_transcripts = True\<rparr>"

definition demo_db :: db where
  "demo_db = empty_db\<lparr>users := [new_user 1 ''a@b.c'' ''h'' ''fr''], seq_users := 2\<rparr>"

definition demo_started :: db where
  "demo_started = demo_db\<lparr>sessions := [created_session demo_cfg (\<lambda>_. 0) 1 ''free'' None None 1],
     seq_sessions := 2\<rparr>"

lemma demo_start:
  "start_session demo_cfg (\<lambda>_. 0) 1 ''free'' None None (tx_begin demo_db)
   = (Inr (created_session demo_cfg (\<lambda>_. 0) 1 ''free'' None None 1),
      tx_begin demo_started)"
  by (simp add: start_session_def demo_db_def demo_started_def empty_db_def get_user_def
      new_user_def remaining_minutes_def demo_cfg_def used_on_def get_active_for_user_def
      create_session_def add_session_def insert_session_def created_session_def tx_commit_def
      tx_modify_def tx_begin_def Let_def)

theorem one_active_session_witness:
  "session_reach demo_cfg demo_started \<and> get_active_for_user 1 demo_started \<noteq> None
   \<and> length (filter (is_active_of 1) (sessions demo_started)) \<le> 1"
proof -
  have "session_reach demo_cfg demo_db"
    by (rule reach_init) (simp add: demo_db_def empty_db_def)
  from reach_start [OF this, of "\<lambda>_. 0" 1 "''free''" None None]
  have r: "session_reach demo_cfg demo_started" by (simp add: demo_start)
  moreover have "get_active_for_user 1 demo_started \<noteq> None"
    by (simp add: demo_started_def get_active_for_user_def is_active_of_def)
  ultimately show ?thesis using one_active_session [OF r] by blast
qed

section \<open>Metering never exceeds the wall clock\<close>

text \<open>The requests of the service one after the other, under a clock that does not run backwards.\<close>

inductive timed_reach :: "session_cfg \<Rightarrow> db \<Rightarrow> instant \<Rightarrow> bool" for cfg where
  timed_init: "sessions d = [] \<Longrightarrow> timed_reach cfg d c"
| timed_start: "timed_reach cfg d c \<Longrightarrow>
    c \<le> clk 0 \<Longrightarrow> clk 0 \<le> clk 1 \<Longrightarrow> clk 1 \<le> clk 2 \<Longrightarrow> clk 2 \<le> clk 3 \<Longrightarrow>
    timed_reach cfg (committed (snd (start_session cfg clk uid mode scen mid (tx_begin d)))) (clk 3)"
| timed_end: "timed_reach cfg d c \<Longrightarrow> c \<le> now \<Longrightarrow>
    timed_reach cfg (committed (snd (end_session cfg sid uid now (tx_begin d)))) now"
| timed_turn: "timed_reach cfg d c \<Longrightarrow> c \<le> now \<Longrightarrow>
    timed_reach cfg (committed (snd (record_turn_activity cfg sid uid now (tx_begin d)))) now"
| timed_other: "timed_reach cfg d c \<Longrightarrow> sessions d' = delete_where p (sessions d) \<Longrightarrow>
    seq_sessions d' = seq_sessions d \<Longrightarrow> timed_reach cfg d' c"

definition minutes_between :: "instant \<Rightarrow> instant \<Rightarrow> real" where
  "minutes_between a b = of_int (b - a) / of_int us_per_minute"

definition metered_ok :: "instant \<Rightarrow> conv_session \<Rightarrow> bool" where
  "metered_ok c s \<longleftrightarrow>
     (let last_seen = (case cs_ended_at s of None \<Rightarrow> instant (cs_last_activity_at s) | Some e \<Rightarrow> e)
      in cs_started_at s \<le> last_seen \<and> last_seen \<le> c \<and> 0 \<le> or_zero (cs_duration_minutes s)
       \<and> or_zero (cs_duration_minutes s) \<le> minutes_between (cs_started_at s) last_seen)"

lemma minutes_between_add: "minutes_between a b + minutes_between b c = minutes_between a c"
  by (simp add: minutes_between_def field_simps)

lemma metered_ok_mono: "metered_ok c s \<Longrightarrow> c \<le> c' \<Longrightarrow> metered_ok c' s"
  by (auto simp: metered_ok_def Let_def)

lemma residual_bounds:
  assumes "0 \<le> sc_turn_meter_cap cfg" "instant (cs_last_activity_at s) \<le> now"
  shows "0 \<le> residual_of cfg s now"
    and "residual_of cfg s now \<le> minutes_between (instant (cs_last_activity_at s)) now"
  using assms elapsed_minutes_nonneg elapsed_minutes_le
    [of "as_utc (cs_last_activity_at s)" "utc now" "sc_turn_meter_cap cfg"]
  by (simp_all add: residual_of_def minutes_between_def)

lemma metered_ok_closed:
  assumes "metered_ok c s" "cs_ended_at s = None" "c \<le> now" "0 \<le> sc_turn_meter_cap cfg"
  shows "metered_ok now (s\<lparr>cs_ended_at := Some now,
    cs_duration_minutes := Some (or_zero (cs_duration_minutes s) + residual_of cfg s now)\<rparr>)"
proof -
  have le: "instant (cs_last_activity_at s) \<le> now" using assms by (auto simp: metered_ok_def Let_def)
  note b = residual_bounds [OF assms(4) le]
  have "or_zero (cs_duration_minutes s) + residual_of cfg s now \<le> minutes_between (cs_started_at s) now"
    using assms(1,2) b minutes_between_add [of "cs_started_at s" "instant (cs_last_activity_at s)" now]
    by (auto simp: metered_ok_def Let_def)
  then show ?thesis using assms b le by (auto simp: metered_ok_def Let_def or_zero_def)
qed

lemma metered_ok_turn:
  assumes "metered_ok c s" "cs_ended_at s = None" "c \<le> now" "0 \<le> sc_turn_meter_cap cfg"
  shows "metered_ok now (turn_session_update (residual_of cfg s now) now s)"
proof -
  have le: "instant (cs_last_activity_at s) \<le> now" using assms by (auto simp: metered_ok_def Let_def)
  note b = residual_bounds [OF assms(4) le]
  have "or_zero (cs_duration_minutes s) + residual_of cfg s now \<le> minutes_between (cs_started_at s) now"
    using assms(1,2) b minutes_between_add [of "cs_started_at s" "instant (cs_last_activity_at s)" now]
    by (auto simp: metered_ok_def Let_def)
  then show ?thesis using assms b le by (auto simp: metered_ok_def Let_def)
qed

definition metered :: "db \<Rightarrow> instant \<Rightarrow> bool" where
  "metered d c \<longleftrightarrow> session_table.keys_ok d \<and> (\<forall>s \<in> set (sessions d). metered_ok c s)"

lemma metered_put:
  assumes m: "metered d c" and g: "get_session sid d = Some s" and le: "c \<le> c'"
    and f: "metered_ok c' (f s)" "\<And>r. cs_id (f r) = cs_id r"
  shows "metered (put_session sid f d) c'"
proof -
  have s: "s \<in> set (sessions d)" "cs_id s = sid" using get_session_SomeD [OF g] by auto
  have "metered_ok c' r" if r: "r \<in> set (sessions (put_session sid f d))" for r
  proof -
    obtain r0 where r0: "r0 \<in> set (sessions d)" "r = (if cs_id r0 = sid then f r0 else r0)"
      using r unfolding sessions_put_session by (elim in_update_whereE)
    show ?thesis
    proof (cases "cs_id r0 = sid")
      case True
      then have "r0 = s"
        using unique_on_eq [of cs_id "sessions d" r0 s] r0 s m session_table.keys_ok_unique
        by (auto simp: metered_def)
      then show ?thesis using r0 True f by simp
    next
      case False
      then show ?thesis using r0 m le metered_ok_mono by (auto simp: metered_def)
    qed
  qed
  moreover have "session_table.keys_ok (put_session sid f d)"
    using session_table.keys_ok_put_row f(2) m by (simp add: metered_def put_session_row)
  ultimately show ?thesis by (simp add: metered_def)
qed

lemma metered_mono: "metered d c \<Longrightarrow> c \<le> c' \<Longrightarrow> metered d c'"
  using metered_ok_mono by (auto simp: metered_def)

lemma metered_cong:
  "sessions d' = sessions d \<Longrightarrow> seq_sessions d' = seq_sessions d \<Longrightarrow> metered d' c = metered d c"
  by (simp add: metered_def session_table.keys_ok_def)

lemma metered_close:
  assumes m: "metered d c" and g: "get_session (cs_id s) d = Some s" and e: "cs_ended_at s = None"
    and le: "c \<le> now" and cap: "0 \<le> sc_turn_meter_cap cfg"
  shows "metered (close_session cfg s u now d) now"
proof -
  let ?f = "\<lambda>r. r\<lparr>cs_ended_at := Some now,
    cs_duration_minutes := Some (or_zero (cs_duration_minutes s) + residual_of cfg s now)\<rparr>"
  have "metered_ok c s" using m get_session_SomeD [OF g] by (simp add: metered_def)
  then have "metered (put_session (cs_id s) ?f d) now"
    by (intro metered_put [OF m g le]) (simp_all add: metered_ok_closed e le cap)
  moreover have "sessions (close_session cfg s u now d) = sessions (put_session (cs_id s) ?f d)"
    "seq_sessions (close_session cfg s u now d) = seq_sessions (put_session (cs_id s) ?f d)"
    by (simp_all add: sessions_close_session sessions_put_session)
  ultimately show ?thesis using metered_cong by blast
qed

lemma metered_insert:
  assumes "metered d c" "c \<le> c'" "cs_id s = seq_sessions d" "metered_ok c' s"
  shows "metered (insert_session s d) c'"
  using assms session_table.keys_ok_ins [of d s] metered_ok_mono
  by (auto simp: metered_def)

lemma get_active_SomeD:
  "get_active_for_user uid d = Some a \<Longrightarrow>
   a \<in> set (sessions d) \<and> cs_user_id a = uid \<and> cs_ended_at a = None"
  by (auto simp: get_active_for_user_def is_active_of_def dest: find_SomeD)

lemma get_session_of_active:
  "session_table.keys_ok d \<Longrightarrow> get_active_for_user uid d = Some a \<Longrightarrow> get_session (cs_id a) d = Some a"
  using get_active_SomeD session_table.get_row_eq session_table.keys_ok_unique
  by (simp add: get_session_row)

lemma metered_ok_created:
  "clk 2 \<le> clk 3 \<Longrightarrow> metered_ok (clk 3) (created_session cfg clk uid mode scen mid sid)"
  by (simp add: metered_ok_def or_zero_def minutes_between_def)

lemma metered_start:
  assumes m: "metered d c" and cap: "0 \<le> sc_turn_meter_cap cfg"
    and clk: "c \<le> clk 0" "clk 0 \<le> clk 1" "clk 1 \<le> clk 2" "clk 2 \<le> clk 3"
  shows "metered (committed (snd (start_session cfg clk uid mode scen mid (tx_begin d)))) (clk 3)"
proof -
  obtain r t where e: "start_session cfg clk uid mode scen mid (tx_begin d) = (r, t)" by force
  have close: "metered (close_session cfg a (Some u) (clk 1) d) (clk 1)"
    if "get_active_for_user uid d = Some a" for a u
    by (rule metered_close [OF m])
      (use that m clk cap get_session_of_active get_active_SomeD in \<open>auto simp: metered_def\<close>)
  have "metered (committed t) (clk 3)"
    using e
  proof (cases rule: start_session_cases)
    case (rejected e)
    then show ?thesis using metered_mono [OF m] clk by simp
  next
    case (reaped u a)
    then show ?thesis using metered_mono [OF close] clk by simp
  next
    case (fresh u s)
    note c = create_session_Inr [OF fresh(5) [unfolded fresh(1)]]
    show ?thesis using clk unfolding c(3) tx_begin_sel
      by (intro metered_insert [OF m]) (simp_all add: c(1) metered_ok_created)
  next
    case (replaced u a s)
    note c = create_session_Inr [OF replaced(6) [unfolded replaced(1)]]
    show ?thesis using clk unfolding c(3) tx_modify_sel tx_begin_sel
      by (intro metered_insert [of _ "clk 1"]) (simp_all add: close [OF replaced(3), unfolded One_nat_def] c(1) metered_ok_created)
  qed
  then show ?thesis by (simp add: e)
qed

lemma metered_end:
  assumes "metered d c" "c \<le> now" "0 \<le> sc_turn_meter_cap cfg"
  shows "metered (committed (snd (end_session cfg sid uid now (tx_begin d)))) now"
  using assms metered_mono [OF assms(1,2)]
  by (auto simp: end_session_def end_locked_def get_owned_session_def Let_def
      intro!: metered_close split: option.splits dest: get_session_SomeD)

lemma metered_turn:
  assumes m: "metered d c" and le: "c \<le> now" and cap: "0 \<le> sc_turn_meter_cap cfg"
  shows "metered (committed (snd (record_turn_activity cfg sid uid now (tx_begin d)))) now"
proof (cases "turn_read cfg sid uid now d")
  case None
  then show ?thesis using metered_mono [OF m le] by (simp add: record_turn_activity_def)
next
  case (Some minutes)
  then obtain s where s: "get_session sid d = Some s" "cs_ended_at s = None"
      "minutes = residual_of cfg s now"
    by (auto simp: turn_read_def residual_of_def split: option.splits if_splits)
  have "metered_ok c s" using m get_session_SomeD [OF s(1)] by (simp add: metered_def)
  then have "metered (put_session sid (turn_session_update minutes now) d) now"
    using s by (intro metered_put [OF m _ le]) (auto simp: metered_ok_turn le cap)
  then show ?thesis using Some s
    by (simp add: record_turn_activity_def turn_locked_def
        metered_cong [of "put_user uid f (put_session sid g d)" "put_session sid g d" for f g])
qed

lemma metered_reach: "timed_reach cfg d c \<Longrightarrow> 0 \<le> sc_turn_meter_cap cfg \<Longrightarrow> metered d c"
proof (induction rule: timed_reach.induct)
  case (timed_init d c)
  then show ?case by (simp add: metered_def session_table.keys_ok_def)
next
  case (timed_other d c d' p)
  then show ?case
    by (auto simp: metered_def session_table.keys_ok_def unique_on_delete_where table_simps)
qed (simp_all add: metered_start metered_end metered_turn)



section \<open>What one request bills\<close>

lemma get_session_after_turn:
  assumes "get_session sid d = Some s" "cs_ended_at s = None"
  shows "get_session sid (committed (snd (turn_locked sid uid now m (tx_begin d))))
    = Some (turn_session_update m now s)"
  using assms
  by (simp add: turn_locked_def get_session_row put_session_row session_table.get_put_same
      get_session_put_user [unfolded get_session_row])

lemma get_user_after_turn:
  assumes "get_session sid d = Some s" "cs_ended_at s = None" "get_user uid d = Some u"
  shows "get_user uid (committed (snd (turn_locked sid uid now m (tx_begin d))))
    = Some (turn_user_update m (date_of (utc now)) u)"
  using assms by (simp add: turn_locked_def get_user_put_user_same)

text \<open>A turn bills exactly the gap since the last activity, capped, once and to the right account: the
  same amount is added to the session's metered minutes and to the owner's usage of the day, it is
  between zero and the cap, the session is marked active now, the day is registered in the streak, and
  no other session and no other user changes.\<close>

theorem turn_bills_the_gap:
  assumes "get_session sid d = Some s" "cs_user_id s = uid" "cs_ended_at s = None"
    and "get_user uid d = Some u" "0 \<le> sc_turn_meter_cap cfg"
  shows "let d' = committed (snd (record_turn_activity cfg sid uid now (tx_begin d)));
             today = date_of (utc now);
             gap = max 0 (minutes_between (instant (cs_last_activity_at s)) now);
             bill = min gap (sc_turn_meter_cap cfg)
    in 0 \<le> bill \<and> bill \<le> sc_turn_meter_cap cfg
     \<and> (\<exists>s'. get_session sid d' = Some s' \<and> cs_last_activity_at s' = utc now
          \<and> or_zero (cs_duration_minutes s') = or_zero (cs_duration_minutes s) + bill)
     \<and> (\<exists>u'. get_user uid d' = Some u' \<and> used_on today u' = used_on today u + bill
          \<and> u_current_streak u' = st_current (register_active_day
               \<lparr>st_current = u_current_streak u, st_longest = u_longest_streak u,
                st_last_active = u_last_active_date u\<rparr> today))
     \<and> (\<forall>k. k = sid \<or> get_session k d' = get_session k d)
     \<and> (\<forall>v. v = uid \<or> get_user v d' = get_user v d)"
proof -
  let ?b = "min (max 0 (minutes_between (instant (cs_last_activity_at s)) now)) (sc_turn_meter_cap cfg)"
  let ?d' = "committed (snd (record_turn_activity cfg sid uid now (tx_begin d)))"
  have read: "turn_read cfg sid uid now d = Some ?b"
    using assms by (simp add: turn_read_def elapsed_minutes_def minutes_between_def)
  then have d': "?d' = committed (snd (turn_locked sid uid now ?b (tx_begin d)))"
    by (simp add: record_turn_activity_def)
  have b: "0 \<le> ?b" "?b \<le> sc_turn_meter_cap cfg" using assms(5) by auto
  have s': "get_session sid ?d' = Some (turn_session_update ?b now s)"
    unfolding d' by (rule get_session_after_turn [OF assms(1,3)])
  have u': "get_user uid ?d' = Some (turn_user_update ?b (date_of (utc now)) u)"
    unfolding d' by (rule get_user_after_turn [OF assms(1,3,4)])
  have "get_session k ?d' = get_session k d" if "k \<noteq> sid" for k
    unfolding d' using assms(1,3) that
    by (simp add: turn_locked_def) (simp add: get_session_row put_session_row session_table.get_put_other)
  moreover have "get_user v ?d' = get_user v d" if "v \<noteq> uid" for v
    unfolding d' using assms(1,3) that by (simp add: turn_locked_def get_user_put_user_other)
  moreover have "u_current_streak (turn_user_update ?b (date_of (utc now)) u) = st_current
      (register_active_day \<lparr>st_current = u_current_streak u, st_longest = u_longest_streak u,
         st_last_active = u_last_active_date u\<rparr> (date_of (utc now)))"
    by (simp add: turn_user_update_def apply_active_day_def Let_def)
  ultimately show ?thesis using s' u' b unfolding Let_def
    by (auto simp: max_absorb2)
qed

theorem turn_bills_the_gap_witness:
  "let d' = committed (snd (record_turn_activity demo_cfg 1 1 (9 * us_per_minute)
              (tx_begin demo_started)))
   in (\<exists>s'. get_session 1 d' = Some s' \<and> or_zero (cs_duration_minutes s') = 5)
    \<and> (\<exists>u'. get_user 1 d' = Some u' \<and> used_on 0 u' = 5 \<and> u_current_streak u' = 1)"
proof -
  let ?s = "created_session demo_cfg (\<lambda>_. 0) 1 ''free'' None None 1"
  let ?u = "new_user 1 ''a@b.c'' ''h'' ''fr''"
  have p: "get_session 1 demo_started = Some ?s" "cs_user_id ?s = 1" "cs_ended_at ?s = None"
      "get_user 1 demo_started = Some ?u" "0 \<le> sc_turn_meter_cap demo_cfg"
    by (simp_all add: demo_started_def demo_db_def demo_cfg_def get_session_def get_user_def
        new_user_def)
  have day: "date_of (utc (9 * us_per_minute)) = 0" by (simp add: date_of_utc)
  show ?thesis using turn_bills_the_gap [OF p, of "9 * us_per_minute"] unfolding day
    by (auto simp: minutes_between_def demo_cfg_def or_zero_def used_on_def new_user_def
        register_active_day_def Let_def)
qed

text \<open>The minutes of a turn are computed before the user row is locked, so two turns of one session
  that both read before either writes bill the same gap twice: from a session idle for a positive time
  within the cap, the two interleaved turns add twice the elapsed minutes to the session and to the
  user's day, where the same two turns run one after the other add them once.\<close>

theorem interleaved_turns_bill_twice:
  assumes "get_session sid d = Some s" "cs_user_id s = uid" "cs_ended_at s = None"
    and "get_user uid d = Some u"
    and "gap = minutes_between (instant (cs_last_activity_at s)) now"
    and "0 < gap" "gap \<le> sc_turn_meter_cap cfg"
  shows "turn_read cfg sid uid now d = Some gap \<and>
    (let first = committed (snd (turn_locked sid uid now gap (tx_begin d)));
         second = committed (snd (turn_locked sid uid now gap (tx_begin first)));
         serial = committed (snd (record_turn_activity cfg sid uid now (tx_begin first)))
     in map_option (or_zero \<circ> cs_duration_minutes) (get_session sid second)
          = Some (or_zero (cs_duration_minutes s) + 2 * gap)
      \<and> map_option (used_on (date_of (utc now))) (get_user uid second)
          = Some (used_on (date_of (utc now)) u + 2 * gap)
      \<and> map_option (or_zero \<circ> cs_duration_minutes) (get_session sid serial)
          = Some (or_zero (cs_duration_minutes s) + gap))"
proof -
  let ?first = "committed (snd (turn_locked sid uid now gap (tx_begin d)))"
  let ?s1 = "turn_session_update gap now s"
  let ?u1 = "turn_user_update gap (date_of (utc now)) u"
  have read: "turn_read cfg sid uid now d = Some gap"
    using assms by (auto simp: turn_read_def elapsed_minutes_def minutes_between_def Let_def)
  have s1: "get_session sid ?first = Some ?s1" by (rule get_session_after_turn [OF assms(1,3)])
  have u1: "get_user uid ?first = Some ?u1" by (rule get_user_after_turn [OF assms(1,3,4)])
  have e1: "cs_ended_at ?s1 = None" using assms(3) by simp
  have "turn_read cfg sid uid now ?first = Some 0"
    using s1 assms by (simp add: turn_read_def elapsed_minutes_def)
  then have serial: "committed (snd (record_turn_activity cfg sid uid now (tx_begin ?first)))
      = committed (snd (turn_locked sid uid now 0 (tx_begin ?first)))"
    by (simp add: record_turn_activity_def)
  show ?thesis
    unfolding Let_def serial get_session_after_turn [OF s1 e1] get_user_after_turn [OF s1 e1 u1]
    using read assms(6) by (simp add: max_def)
qed

theorem interleaved_turns_bill_twice_witness:
  "turn_read demo_cfg 1 1 (3 * us_per_minute) demo_started = Some 3 \<and>
   (let first = committed (snd (turn_locked 1 1 (3 * us_per_minute) 3 (tx_begin demo_started)));
        second = committed (snd (turn_locked 1 1 (3 * us_per_minute) 3 (tx_begin first)))
    in map_option (or_zero \<circ> cs_duration_minutes) (get_session 1 second) = Some 6)"
proof -
  let ?s = "created_session demo_cfg (\<lambda>_. 0) 1 ''free'' None None 1"
  let ?u = "new_user 1 ''a@b.c'' ''h'' ''fr''"
  have p: "get_session 1 demo_started = Some ?s" "cs_user_id ?s = 1" "cs_ended_at ?s = None"
      "get_user 1 demo_started = Some ?u"
      "3 = minutes_between (instant (cs_last_activity_at ?s)) (3 * us_per_minute)"
      "0 < (3::real)" "3 \<le> sc_turn_meter_cap demo_cfg"
    by (simp_all add: demo_started_def demo_db_def demo_cfg_def get_session_def get_user_def
        new_user_def minutes_between_def)
  show ?thesis using interleaved_turns_bill_twice [OF p] by (simp add: Let_def or_zero_def)
qed

section \<open>Starting and ending\<close>

text \<open>A refused start leaves no trace, with one deliberate exception: the committed database is
  unchanged, or the refusal is a quota error after an abandoned session was reaped, and then exactly
  that session was closed and its residual billed to its owner, so that the lock-out it caused is gone.\<close>

theorem refused_start_effect:
  assumes "start_session cfg clk uid mode scen mid (tx_begin d) = (Inl e, t)"
  shows "committed t = d \<or>
    (\<exists>u a. get_user uid d = Some u \<and> get_active_for_user uid d = Some a
       \<and> is_stale (as_utc (cs_last_activity_at a)) (utc (clk 1)) (sc_inactivity_timeout cfg)
       \<and> e = DomainErr QuotaExhaustedError ''Daily free quota exhausted''
       \<and> committed t = close_session cfg a (Some u) (clk 1) d)"
  using assms by (cases rule: start_session_cases) auto

definition exhausted_user :: user where
  "exhausted_user = (new_user 1 ''a@b.c'' ''h'' ''fr'')\<lparr>u_quota_date := Some 0,
     u_minutes_used_today := 11\<rparr>"

definition exhausted_db :: db where
  "exhausted_db = demo_started\<lparr>users := [exhausted_user]\<rparr>"

theorem refused_start_effect_witness:
  "\<exists>t. start_session demo_cfg (\<lambda>_. 40 * us_per_minute) 1 ''free'' None None (tx_begin exhausted_db)
        = (Inl (DomainErr QuotaExhaustedError ''Daily free quota exhausted''), t)
    \<and> committed t \<noteq> exhausted_db \<and> get_active_for_user 1 (committed t) = None"
proof -
  let ?clk = "\<lambda>_. 40 * us_per_minute"
  let ?e = "DomainErr QuotaExhaustedError ''Daily free quota exhausted''"
  let ?a = "created_session demo_cfg (\<lambda>_. 0) 1 ''free'' None None 1"
  obtain t where t: "start_session demo_cfg ?clk 1 ''free'' None None (tx_begin exhausted_db)
      = (Inl ?e, t)" and ne: "get_active_for_user 1 (committed t) = None"
    by (simp add: start_session_def exhausted_db_def exhausted_user_def demo_started_def demo_db_def
        get_user_def new_user_def remaining_minutes_def used_on_def demo_cfg_def date_of_utc
        get_active_for_user_def is_active_of_def is_stale_def elapsed_minutes_def Let_def
        close_session_def residual_of_def users_put_user record_usage_def sessions_put_session
        max_def)
  have g: "get_active_for_user 1 exhausted_db = Some ?a"
    by (simp add: exhausted_db_def demo_started_def get_active_for_user_def is_active_of_def)
  then have "committed t \<noteq> exhausted_db" using ne by auto
  then show ?thesis using refused_start_effect [OF t] t ne by blast
qed

text \<open>A start that succeeds was allowed and is well-formed: the user exists and had quota left; the
  returned session carries a fresh id, is stored, belongs to the user, has no end and no minutes and is
  the user's active session; and every other user's sessions are as they were.\<close>

theorem started_session_effect:
  assumes "sessions_ok d" "start_session cfg clk uid mode scen mid (tx_begin d) = (Inr s, t)"
  shows "(\<exists>u. get_user uid d = Some u
        \<and> \<not> float_le_zero (remaining_minutes u (sc_free_daily cfg) (date_of (utc (clk 0)))))
    \<and> s = created_session cfg clk uid mode scen mid (seq_sessions d)
    \<and> get_session (cs_id s) d = None \<and> get_session (cs_id s) (committed t) = Some s
    \<and> get_active_for_user uid (committed t) = Some s
    \<and> filter (\<lambda>r. cs_user_id r \<noteq> uid) (sessions (committed t))
        = filter (\<lambda>r. cs_user_id r \<noteq> uid) (sessions d)"
  using assms(2)
proof (cases rule: start_session_cases)
  case (fresh u s')
  note c = create_session_Inr [OF fresh(5) [unfolded fresh(1)]]
  have k: "session_table.keys_ok d" using assms(1) by (simp add: sessions_ok_def)
  show ?thesis using fresh c session_table.get_row_next_None [OF k]
      session_table.get_row_ins_new [OF k, of s]
    by (auto simp: get_session_row get_active_for_user_def insert_session_def is_active_of_def
        find_append_None)
next
  case (replaced u a s')
  note c = create_session_Inr [OF replaced(6) [unfolded replaced(1)]]
  let ?d1 = "close_session cfg a (Some u) (clk 1) d"
  have k: "session_table.keys_ok d" and k1: "session_table.keys_ok ?d1"
    using assms(1) sessions_ok_close [OF assms(1)] by (auto simp: sessions_ok_def)
  have "filter (\<lambda>r. cs_user_id r \<noteq> uid) (sessions ?d1) = filter (\<lambda>r. cs_user_id r \<noteq> uid) (sessions d)"
    unfolding sessions_close_session
  proof -
    have own: "cs_id r \<noteq> cs_id a" if "r \<in> set (sessions d)" "cs_user_id r \<noteq> uid" for r
      using that unique_on_eq [of cs_id "sessions d" r a] k get_active_SomeD [OF replaced(3)]
      by (auto simp: session_table.keys_ok_def)
    show "filter (\<lambda>r. cs_user_id r \<noteq> uid) (update_where (\<lambda>r. cs_id r = cs_id a)
        (\<lambda>r. r\<lparr>cs_ended_at := Some (clk 1), cs_duration_minutes :=
           Some (or_zero (cs_duration_minutes a) + residual_of cfg a (clk 1))\<rparr>) (sessions d))
      = filter (\<lambda>r. cs_user_id r \<noteq> uid) (sessions d)"
      using own get_active_SomeD [OF replaced(3)]
      by (auto simp: update_where_def filter_map o_def intro!: map_idI filter_cong)
  qed
  then show ?thesis using replaced c session_table.get_row_next_None [OF k]
      session_table.get_row_ins_new [OF k1, of s]
    by (auto simp: get_session_row get_active_for_user_def is_active_of_def sessions_close_session
        find_append_None)
qed (use assms in auto)

theorem started_session_effect_witness:
  "get_active_for_user 1 demo_db = None \<and> (\<exists>s. get_active_for_user 1 demo_started = Some s
     \<and> get_session (cs_id s) demo_started = Some s)"
proof -
  have "sessions_ok demo_db"
    by (simp add: sessions_ok_def session_table.keys_ok_def demo_db_def empty_db_def)
  from started_session_effect [OF this demo_start] show ?thesis
    by (simp add: demo_db_def empty_db_def get_active_for_user_def)
qed

text \<open>Ending a session is idempotent and bills once: the first call closes an open session of its
  owner, at its clock, adding the capped gap since the last activity; any later call, at any time,
  returns the very same session and leaves the database as it is, so nothing is billed twice.\<close>

theorem end_session_once:
  assumes "get_session sid d = Some s" "cs_user_id s = uid" "cs_ended_at s = None"
    and "end_session cfg sid uid now (tx_begin d) = (r, t)"
  shows "\<exists>s'. r = Inr s' \<and> get_session sid (committed t) = Some s' \<and> cs_ended_at s' = Some now
    \<and> or_zero (cs_duration_minutes s') = or_zero (cs_duration_minutes s) + residual_of cfg s now
    \<and> end_session cfg sid uid later (tx_begin (committed t)) = (Inr s', tx_begin (committed t))"
proof -
  let ?s' = "s\<lparr>cs_ended_at := Some now,
     cs_duration_minutes := Some (or_zero (cs_duration_minutes s) + residual_of cfg s now)\<rparr>"
  let ?d' = "close_session cfg s (get_user uid d) now d"
  have r: "r = Inr ?s'" and t: "committed t = ?d'"
    using assms by (auto simp: end_session_def get_owned_session_def end_locked_def Let_def)
  have id: "cs_id s = sid" using get_session_SomeD [OF assms(1)] by simp
  have g: "get_session sid ?d' = Some ?s'"
    using assms(1) id by (simp add: get_session_def sessions_close_session find_update_where_same)
  then have "end_session cfg sid uid later (tx_begin ?d') = (Inr ?s', tx_begin ?d')"
    using assms(2) by (simp add: end_session_def get_owned_session_def)
  then show ?thesis using r t g by (simp add: or_zero_def)
qed

theorem end_session_once_witness:
  "\<exists>s' t. end_session demo_cfg 1 1 (2 * us_per_minute) (tx_begin demo_started) = (Inr s', t)
    \<and> or_zero (cs_duration_minutes s') = 2
    \<and> end_session demo_cfg 1 1 (900 * us_per_minute) (tx_begin (committed t))
        = (Inr s', tx_begin (committed t))"
proof -
  let ?s = "created_session demo_cfg (\<lambda>_. 0) 1 ''free'' None None 1"
  obtain r t where e: "end_session demo_cfg 1 1 (2 * us_per_minute) (tx_begin demo_started) = (r, t)"
    by force
  have p: "get_session 1 demo_started = Some ?s" "cs_user_id ?s = 1" "cs_ended_at ?s = None"
    by (simp_all add: demo_started_def get_session_def)
  have "residual_of demo_cfg ?s (2 * us_per_minute) = 2"
    by (simp add: residual_of_def elapsed_minutes_def demo_cfg_def)
  then show ?thesis using end_session_once [OF p e, of "900 * us_per_minute"] e
    by (auto simp: or_zero_def)
qed

lemma end_session_foreign:
  "get_session sid d = Some s \<Longrightarrow> cs_user_id s \<noteq> uid \<Longrightarrow>
   end_session cfg sid uid now (tx_begin d)
   = (Inl (DomainErr NotFoundError ''Session not found''), tx_begin d)"
  by (simp add: end_session_def get_owned_session_def)

end
