(* ===== verification/History.thy ===== *)
theory History
  imports Sessions
begin

text \<open>
  The session history, its routes and the request schema (\<^verbatim>\<open>app/features/sessions\<close>: the
  listing query of the repository, \<open>history\<close> of the service, \<open>router.py\<close> and
  \<open>schemas.py\<close>). The listing is a keyset query whose cursor is a session id.
\<close>

section \<open>History\<close>

text \<open>The outer join with the debriefs: a session without one appears once, with no estimate.\<close>

definition session_debriefs :: "int \<Rightarrow> db \<Rightarrow> (conv_session \<times> string option) list" where
  "session_debriefs uid d = concat (map (\<lambda>s.
     (case filter (\<lambda>b. db_session_id b = cs_id s) (debriefs d) of [] \<Rightarrow> [(s, None)]
      | bs \<Rightarrow> map (\<lambda>b. (s, Some (db_cefr_estimate b))) bs))
     (filter (\<lambda>s. cs_user_id s = uid) (sessions d)))"

text \<open>\<open>ORDER BY started_at DESC, id DESC\<close>.\<close>

definition recent_key :: "conv_session \<times> string option \<Rightarrow> int \<times> int" where
  "recent_key r = (- cs_started_at (fst r), - cs_id (fst r))"

definition list_recent_for_user ::
  "int \<Rightarrow> int \<Rightarrow> int option \<Rightarrow> db \<Rightarrow> (conv_session \<times> string option) list" where
  "list_recent_for_user uid limit before_id d =
     (let older = (case before_id of None \<Rightarrow> (\<lambda>_. True)
        | Some b \<Rightarrow> (case get_session b d of None \<Rightarrow> (\<lambda>_. True)
            | Some cur \<Rightarrow> if cs_user_id cur = uid
                then (\<lambda>r. cs_started_at (fst r) < cs_started_at cur
                    \<or> cs_started_at (fst r) = cs_started_at cur \<and> cs_id (fst r) < cs_id cur)
                else (\<lambda>_. True)))
      in take (nat limit) (sort_key recent_key (filter older (session_debriefs uid d))))"

record history_item =
  hi_id :: int
  hi_mode :: string
  hi_scenario_id :: "string option"
  hi_started_at :: instant
  hi_duration_minutes :: "real option"
  hi_cefr_estimate :: "string option"

definition history_item_of :: "conv_session \<times> string option \<Rightarrow> history_item" where
  "history_item_of r = (case r of (s, cefr) \<Rightarrow>
     \<lparr>hi_id = cs_id s, hi_mode = cs_mode s, hi_scenario_id = cs_scenario_id s,
      hi_started_at = cs_started_at s, hi_duration_minutes = cs_duration_minutes s,
      hi_cefr_estimate = cefr\<rparr>)"

definition history ::
  "session_cfg \<Rightarrow> int \<Rightarrow> int option \<Rightarrow> int option \<Rightarrow> db \<Rightarrow> history_item list" where
  "history cfg uid limit before_id d =
     (let page_size = (case limit of Some l \<Rightarrow> l | None \<Rightarrow> sc_history_page_size cfg)
      in map history_item_of (list_recent_for_user uid page_size before_id d))"

text \<open>The request schema of a start: the mode, and a mission id exactly with the mission mode.\<close>

definition session_start_valid :: "string \<Rightarrow> int option \<Rightarrow> bool" where
  "session_start_valid mode mission_id \<longleftrightarrow>
     mode \<in> {''scenario'', ''free'', ''mission''}
     \<and> \<not> (mode = ''mission'' \<and> mission_id = None)
     \<and> \<not> (mode \<noteq> ''mission'' \<and> mission_id \<noteq> None)"

definition start_session_route ::
  "session_cfg \<Rightarrow> (nat \<Rightarrow> instant) \<Rightarrow> int \<Rightarrow> string \<Rightarrow> string option \<Rightarrow> int option \<Rightarrow> dbtx
   \<Rightarrow> (error + int) \<times> dbtx" where
  "start_session_route cfg clk uid mode scenario_id mission_id t =
     (if \<not> session_start_valid mode mission_id then (Inl (RequestValidationErr []), t)
      else case start_session cfg clk uid mode scenario_id mission_id t of
        (Inl e, t') \<Rightarrow> (Inl e, t') | (Inr s, t') \<Rightarrow> (Inr (cs_id s), t'))"

definition active_session_route ::
  "session_cfg \<Rightarrow> int \<Rightarrow> db \<Rightarrow> error + (int \<times> string \<times> string option \<times> message list)" where
  "active_session_route cfg uid d = (case active_session cfg uid d of
      None \<Rightarrow> Inl (DomainErr NotFoundError ''No active session'')
    | Some (s, turns) \<Rightarrow> Inr (cs_id s, cs_mode s, cs_scenario_id s, turns))"

definition list_sessions_route ::
  "session_cfg \<Rightarrow> int \<Rightarrow> int \<Rightarrow> int option \<Rightarrow> db \<Rightarrow> error + history_item list" where
  "list_sessions_route cfg uid limit before_id d =
     (if 1 \<le> limit \<and> limit \<le> MAX_PAGE_SIZE \<and> (case before_id of None \<Rightarrow> True | Some b \<Rightarrow> 1 \<le> b)
      then Inr (history cfg uid (Some limit) before_id d)
      else Inl (RequestValidationErr []))"

section \<open>The history is a keyset query\<close>

lemma session_debriefs_unique:
  assumes "unique_on db_session_id (debriefs d)"
  shows "session_debriefs uid d = map (\<lambda>s. (s,
      map_option db_cefr_estimate (List.find (\<lambda>b. db_session_id b = cs_id s) (debriefs d))))
    (filter (\<lambda>s. cs_user_id s = uid) (sessions d))"
proof -
  have one: "(case filter (\<lambda>b. db_session_id b = k) bs of [] \<Rightarrow> [(s, None)]
      | cs \<Rightarrow> map (\<lambda>b. (s, Some (db_cefr_estimate b))) cs)
    = [(s, map_option db_cefr_estimate (List.find (\<lambda>b. db_session_id b = k) bs))]"
    if "unique_on db_session_id bs" for k bs and s :: conv_session
    using that
  proof (induction bs)
    case (Cons b bs)
    then show ?case using filter_key_tail_Nil [OF Cons.prems, of k] by (auto simp: unique_on_Cons)
  qed simp
  show ?thesis unfolding session_debriefs_def by (simp add: one [OF assms])
qed

lemma unique_recent_key:
  assumes "unique_on cs_id (sessions d)" "unique_on db_session_id (debriefs d)"
  shows "unique_on recent_key (session_debriefs uid d)"
proof -
  have "distinct (map (\<lambda>s. (- cs_started_at s, - cs_id s)) (filter (\<lambda>s. cs_user_id s = uid) (sessions d)))"
    using assms(1) by (auto simp: unique_on_def distinct_map inj_on_def)
  then show ?thesis
    unfolding session_debriefs_unique [OF assms(2)] unique_on_def
    by (simp add: recent_key_def comp_def)
qed

lemma session_debriefs_row:
  "r \<in> set (session_debriefs uid d) \<Longrightarrow> fst r \<in> set (sessions d) \<and> cs_user_id (fst r) = uid"
proof -
  assume "r \<in> set (session_debriefs uid d)"
  then obtain s where s: "s \<in> set (sessions d)" "cs_user_id s = uid"
      "r \<in> set (case filter (\<lambda>b. db_session_id b = cs_id s) (debriefs d) of [] \<Rightarrow> [(s, None)]
        | bs \<Rightarrow> map (\<lambda>b. (s, Some (db_cefr_estimate b))) bs)"
    unfolding session_debriefs_def by (fastforce simp del: list.case)
  then have "fst r = s"
    by (cases "filter (\<lambda>b. db_session_id b = cs_id s) (debriefs d)") auto
  then show ?thesis using s by simp
qed

lemma list_recent_first:
  "list_recent_for_user uid limit None d = keyset_page recent_key (nat limit) None (session_debriefs uid d)"
  by (simp add: list_recent_for_user_def keyset_page_def)

lemma list_recent_next:
  assumes "unique_on cs_id (sessions d)" "r \<in> set (session_debriefs uid d)"
  shows "list_recent_for_user uid limit (Some (cs_id (fst r))) d
    = keyset_page recent_key (nat limit) (Some (recent_key r)) (session_debriefs uid d)"
proof -
  have "get_session (cs_id (fst r)) d = Some (fst r)" "cs_user_id (fst r) = uid"
    using session_debriefs_row [OF assms(2)] session_table.get_row_eq [of d "fst r"] assms(1)
    by (auto simp: get_session_row)
  moreover have "recent_key r < recent_key x \<longleftrightarrow> cs_started_at (fst x) < cs_started_at (fst r)
      \<or> cs_started_at (fst x) = cs_started_at (fst r) \<and> cs_id (fst x) < cs_id (fst r)" for x
    by (auto simp: recent_key_def)
  ultimately show ?thesis by (simp add: list_recent_for_user_def keyset_page_def)
qed

interpretation history_query: keyset_query
  "\<lambda>(d, uid, n). unique_on cs_id (sessions d) \<and> unique_on db_session_id (debriefs d) \<and> 0 < n"
  "\<lambda>(d, uid, n). n" "\<lambda>(d, uid, n) c. list_recent_for_user uid (int n) c d" "\<lambda>r. cs_id (fst r)"
  "\<lambda>(d, uid, n). sort_key recent_key (session_debriefs uid d)"
proof (unfold_locales, goal_cases)
  case (3 s xs ys)
  obtain d uid n where s: "s = (d, uid, n)" by (cases s)
  have u: "unique_on recent_key (session_debriefs uid d)" "unique_on cs_id (sessions d)"
    using 3(1) unique_recent_key by (auto simp: s)
  have "last xs \<in> set (sort_key recent_key (session_debriefs uid d))" using 3(2,3) by (simp add: s)
  then have "last xs \<in> set (session_debriefs uid d)" by simp
  then show ?case
    using keyset_page_next [OF u(1) 3(2) [unfolded s prod.case] 3(3)]
    by (simp add: s list_recent_next [OF u(2)])
qed (auto simp: list_recent_first keyset_page_first)

text \<open>Paging through the history loses nothing and repeats nothing: following the cursor (the id of
  the last session seen) page by page ends and gives exactly the user's sessions, newest first with ties
  broken by id, each with the estimate of its debrief, whatever the page size.\<close>

theorem history_paging_complete:
  assumes "unique_on cs_id (sessions d)" "unique_on db_session_id (debriefs d)" "0 < n"
  shows "keyset_pages (\<lambda>_ c. list_recent_for_user uid (int n) c d) (\<lambda>r. cs_id (fst r)) n 0 None
    = Some (sort_key recent_key (map (\<lambda>s. (s, map_option db_cefr_estimate
        (List.find (\<lambda>b. db_session_id b = cs_id s) (debriefs d))))
        (filter (\<lambda>s. cs_user_id s = uid) (sessions d))))"
  using history_query.pages_complete [of "(d, uid, n)"] assms
  by (simp add: session_debriefs_unique [OF assms(2), symmetric])

theorem history_paging_complete_witness:
  "keyset_pages (\<lambda>_ c. list_recent_for_user 1 (int 1) c demo_started) (\<lambda>r. cs_id (fst r)) 1 0 None
   = Some [(created_session demo_cfg (\<lambda>_. 0) 1 ''free'' None None 1, None)]"
proof -
  have p: "unique_on cs_id (sessions demo_started)" "unique_on db_session_id (debriefs demo_started)"
    by (simp_all add: demo_started_def demo_db_def empty_db_def unique_on_def)
  show ?thesis using history_paging_complete [OF p, of 1 1]
    by (simp add: demo_started_def demo_db_def empty_db_def sort_key_simps)
qed

lemma list_sessions_bounded:
  "list_sessions_route cfg uid limit b d = Inr items \<Longrightarrow> int (length items) \<le> MAX_PAGE_SIZE"
  by (auto simp: list_sessions_route_def history_def list_recent_for_user_def split: if_splits)

lemma start_route_mission_consistent:
  "session_start_valid mode mid \<Longrightarrow> mid \<noteq> None \<longleftrightarrow> mode = ''mission''"
  by (auto simp: session_start_valid_def)

end
