(* ===== verification/VoiceData.thy ===== *)
theory VoiceData
  imports History Learner
begin

text \<open>
  Export and erasure of a learner's voice-derived data (\<^verbatim>\<open>app/features/voice_data\<close>) and the
  periodic purge of expired rows (\<^verbatim>\<open>app/features/purge/task.py\<close>). A cascade of statements in
  one transaction is a list of named statements, each with the row count the driver reports; the
  number of the statement at which the connection fails, if it does, is an argument. The export
  opens a new database session for every page, so page \<open>i\<close> sees its own state of the database.
  Timestamps stay instants (their ISO text is not modelled), and so does the JSON text of the export:
  the document is its four lists.
\<close>

section \<open>Statements of a transaction\<close>

type_synonym stmt = "string \<times> (db \<Rightarrow> nat \<times> db)"

text \<open>The counts reported so far, the error if one was raised, and the transaction.\<close>

fun run_stmts :: "stmt list \<Rightarrow> nat option \<Rightarrow> dbtx \<Rightarrow> (string \<times> nat) list \<times> error option \<times> dbtx" where
  "run_stmts [] fault t = ([], None, t)"
| "run_stmts ((name, st) # rest) fault t =
     (if fault = Some 0 then ([], Some (OtherErr ''OperationalError''), tx_rollback t)
      else case st (working t) of (n, d') \<Rightarrow>
        (case run_stmts rest (map_option (\<lambda>k. k - 1) fault) (tx_modify (\<lambda>_. d') t) of
           (counts, e, t') \<Rightarrow> ((name, n) # counts, e, t')))"

definition delete_stmt ::
  "(db \<Rightarrow> 'r list) \<Rightarrow> (('r list \<Rightarrow> 'r list) \<Rightarrow> db \<Rightarrow> db) \<Rightarrow> ('r \<Rightarrow> bool) \<Rightarrow> db \<Rightarrow> nat \<times> db" where
  "delete_stmt rows upd p d = (rowcount p (rows d), upd (delete_where p) d)"

definition update_stmt ::
  "(db \<Rightarrow> 'r list) \<Rightarrow> (('r list \<Rightarrow> 'r list) \<Rightarrow> db \<Rightarrow> db) \<Rightarrow> ('r \<Rightarrow> bool) \<Rightarrow> ('r \<Rightarrow> 'r) \<Rightarrow> db \<Rightarrow> nat \<times> db" where
  "update_stmt rows upd p f d = (rowcount p (rows d), upd (update_where p f) d)"

section \<open>Erasure\<close>

definition own_sids :: "int \<Rightarrow> db \<Rightarrow> int set" where
  "own_sids uid d = set (map cs_id (filter (\<lambda>s. cs_user_id s = uid) (sessions d)))"

definition DEFAULT_CEFR :: string where "DEFAULT_CEFR = ''A1''"

definition stats_not_default :: "user \<Rightarrow> bool" where
  "stats_not_default u \<longleftrightarrow> u_cefr_level u \<noteq> DEFAULT_CEFR \<or> u_current_streak u \<noteq> 0
     \<or> u_longest_streak u \<noteq> 0 \<or> u_last_active_date u \<noteq> None"

definition reset_stats :: "user \<Rightarrow> user" where
  "reset_stats u = u\<lparr>u_cefr_level := DEFAULT_CEFR, u_current_streak := 0, u_longest_streak := 0,
     u_last_active_date := None\<rparr>"

text \<open>Deleting sessions and missions: the foreign keys that point to them are set to null (the
  children that cascade were deleted by the statements before).\<close>

definition delete_sessions_stmt :: "int \<Rightarrow> db \<Rightarrow> nat \<times> db" where
  "delete_sessions_stmt uid d =
     (rowcount (\<lambda>s. cs_user_id s = uid) (sessions d),
      d\<lparr>sessions := delete_where (\<lambda>s. cs_user_id s = uid) (sessions d),
        vocabulary := update_where (\<lambda>v. \<exists>sid \<in> own_sids uid d. v_session_id v = Some sid)
          (v_session_id_update (\<lambda>_. None)) (vocabulary d)\<rparr>)"

definition delete_missions_stmt :: "int \<Rightarrow> db \<Rightarrow> nat \<times> db" where
  "delete_missions_stmt uid d =
     (rowcount (\<lambda>m. ms_user_id m = uid) (missions d),
      d\<lparr>missions := delete_where (\<lambda>m. ms_user_id m = uid) (missions d),
        sessions := update_where (\<lambda>s. \<exists>m \<in> set (missions d). ms_user_id m = uid \<and> cs_mission_id s = Some (ms_id m))
          (cs_mission_id_update (\<lambda>_. None)) (sessions d)\<rparr>)"

definition purge_steps :: "int \<Rightarrow> stmt list" where
  "purge_steps uid =
    [(''transcripts'', \<lambda>d. delete_stmt transcripts transcripts_update (\<lambda>x. tr_session_id x \<in> own_sids uid d) d),
     (''debriefs'', \<lambda>d. delete_stmt debriefs debriefs_update (\<lambda>x. db_session_id x \<in> own_sids uid d) d),
     (''vocabulary'', delete_stmt vocabulary vocabulary_update (\<lambda>v. v_user_id v = uid)),
     (''review_items'', delete_stmt review_items review_items_update (\<lambda>r. ri_user_id r = uid)),
     (''sessions'', delete_sessions_stmt uid),
     (''missions'', delete_missions_stmt uid),
     (''analytics_events'', delete_stmt analytics analytics_update (\<lambda>e. ae_user_id e = uid)),
     (''memory_summary'', update_stmt profiles profiles_update
        (\<lambda>p. lp_user_id p = uid \<and> lp_memory_summary p \<noteq> []) (lp_memory_summary_update (\<lambda>_. []))),
     (''user_stats'', update_stmt users users_update (\<lambda>u. u_id u = uid \<and> stats_not_default u) reset_stats),
     (''idempotency_keys'', delete_stmt idempotency idempotency_update (\<lambda>k. ik_user_id k = uid))]"

text \<open>A fault after the last statement is a commit that fails.\<close>

definition purge :: "int \<Rightarrow> nat option \<Rightarrow> dbtx \<Rightarrow> (error + (string \<times> nat) list) \<times> dbtx" where
  "purge uid fault t = (case run_stmts (purge_steps uid) fault t of
      (counts, Some e, t') \<Rightarrow> (Inl e, t')
    | (counts, None, t') \<Rightarrow> if fault = Some (length (purge_steps uid))
        then (Inl (OtherErr ''OperationalError''), tx_rollback t') else (Inr counts, tx_commit t'))"

section \<open>Export\<close>

definition EXPORT_PAGE_SIZE :: nat where "EXPORT_PAGE_SIZE = 200"

definition session_transcripts :: "int \<Rightarrow> db \<Rightarrow> (conv_session \<times> transcript) list" where
  "session_transcripts uid d = concat (map (\<lambda>s. map (Pair s)
     (filter (\<lambda>x. tr_session_id x = cs_id s) (transcripts d)))
     (filter (\<lambda>s. cs_user_id s = uid) (sessions d)))"

definition session_debrief_rows :: "int \<Rightarrow> db \<Rightarrow> (conv_session \<times> debrief_row) list" where
  "session_debrief_rows uid d = concat (map (\<lambda>s. map (Pair s)
     (filter (\<lambda>b. db_session_id b = cs_id s) (debriefs d)))
     (filter (\<lambda>s. cs_user_id s = uid) (sessions d)))"

definition started_key :: "conv_session \<times> 'x \<Rightarrow> int \<times> int" where
  "started_key r = (cs_started_at (fst r), cs_id (fst r))"

record utterance =
  ut_session_id :: int
  ut_started_at :: instant
  ut_text :: string

definition utterances_of :: "conv_session \<times> transcript \<Rightarrow> utterance list" where
  "utterances_of r = map (\<lambda>m. \<lparr>ut_session_id = cs_id (fst r), ut_started_at = cs_started_at (fst r), ut_text = m_content m\<rparr>)
     (filter (\<lambda>m. m_role m = ROLE_USER) (tr_turns (snd r)))"

definition export_utterances :: "int \<Rightarrow> (nat \<Rightarrow> db) \<Rightarrow> utterance list option" where
  "export_utterances uid ds = map_option (\<lambda>rows. concat (map utterances_of rows))
     (keyset_pages (\<lambda>i c. keyset_page started_key EXPORT_PAGE_SIZE c (session_transcripts uid (ds i)))
        started_key EXPORT_PAGE_SIZE 0 None)"

definition export_vocabulary :: "int \<Rightarrow> (nat \<Rightarrow> db) \<Rightarrow> (string \<times> string \<times> string) list option" where
  "export_vocabulary uid ds = map_option (map (\<lambda>e. (v_word e, v_translation e, v_example e)))
     (keyset_pages (\<lambda>i c. keyset_page v_id EXPORT_PAGE_SIZE c (filter (\<lambda>e. v_user_id e = uid) (vocabulary (ds i))))
        v_id EXPORT_PAGE_SIZE 0 None)"

record debrief_item =
  dx_session_id :: int
  dx_started_at :: instant
  dx_cefr_estimate :: string
  dx_summary :: string
  dx_errors :: "debrief_error list"

definition debrief_item_of :: "conv_session \<times> debrief_row \<Rightarrow> debrief_item" where
  "debrief_item_of r = \<lparr>dx_session_id = cs_id (fst r), dx_started_at = cs_started_at (fst r),
     dx_cefr_estimate = db_cefr_estimate (snd r), dx_summary = db_summary (snd r), dx_errors = db_errors (snd r)\<rparr>"

definition export_debriefs :: "int \<Rightarrow> (nat \<Rightarrow> db) \<Rightarrow> debrief_item list option" where
  "export_debriefs uid ds = map_option (map debrief_item_of)
     (keyset_pages (\<lambda>i c. keyset_page started_key EXPORT_PAGE_SIZE c (session_debrief_rows uid (ds i)))
        started_key EXPORT_PAGE_SIZE 0 None)"

type_synonym review_export = "string \<times> string \<times> int \<times> string \<times> instant option"

definition review_export_of :: "review_item \<Rightarrow> review_export" where
  "review_export_of r = (ri_error_type r, ri_latest_correction r, ri_stage r, ri_status r, ri_next_review_at r)"

definition export_review_items :: "int \<Rightarrow> (nat \<Rightarrow> db) \<Rightarrow> review_export list option" where
  "export_review_items uid ds = map_option (map review_export_of)
     (keyset_pages (\<lambda>i c. keyset_page ri_id EXPORT_PAGE_SIZE c (filter (\<lambda>r. ri_user_id r = uid) (review_items (ds i))))
        ri_id EXPORT_PAGE_SIZE 0 None)"

section \<open>Periodic purge\<close>

definition EVENT_ACTIVATION :: string where "EVENT_ACTIVATION = ''activation''"

definition ANALYTICS_RETENTION_EXEMPT_NAMES :: "string list" where
  "ANALYTICS_RETENTION_EXEMPT_NAMES = [EVENT_ACTIVATION]"

definition expired_steps :: "instant \<Rightarrow> stmt list" where
  "expired_steps now =
    [(''refresh_tokens'', delete_stmt refresh_tokens refresh_tokens_update (\<lambda>r. instant (rt_expires_at r) < now)),
     (''idempotency_keys'', delete_stmt idempotency idempotency_update (\<lambda>k. ik_created_at k < now - 24 * us_per_hour)),
     (''analytics_events'', delete_stmt analytics analytics_update
        (\<lambda>e. ae_created_at e < now - 30 * us_per_day \<and> ae_name e \<notin> set ANALYTICS_RETENTION_EXEMPT_NAMES))]"

text \<open>The result starts with zeros and is filled statement by statement; a failure rolls back and
  returns what was filled so far.\<close>

definition purge_expired_entries :: "instant \<Rightarrow> nat option \<Rightarrow> dbtx \<Rightarrow> (string \<times> nat) list \<times> dbtx" where
  "purge_expired_entries now fault t = (case run_stmts (expired_steps now) fault t of
      (counts, e, t') \<Rightarrow>
        (counts @ map (\<lambda>s. (fst s, 0)) (drop (length counts) (expired_steps now)),
         if e \<noteq> None \<or> fault = Some (length (expired_steps now)) then tx_rollback t' else tx_commit t'))"

section \<open>Laws of a statement list\<close>

fun stmts_effect :: "stmt list \<Rightarrow> db \<Rightarrow> (string \<times> nat) list \<times> db" where
  "stmts_effect [] d = ([], d)"
| "stmts_effect ((name, st) # rest) d = (case st d of (n, d') \<Rightarrow>
     (case stmts_effect rest d' of (counts, d'') \<Rightarrow> ((name, n) # counts, d'')))"

lemma run_stmts_fault: "k < length steps \<Longrightarrow>
   \<exists>counts. run_stmts steps (Some k) t = (counts, Some (OtherErr ''OperationalError''), tx_begin (committed t))"
proof (induction steps arbitrary: k t)
  case (Cons s steps)
  obtain name st where s: "s = (name, st)" by (cases s)
  show ?case
  proof (cases k)
    case 0
    then show ?thesis by (simp add: s tx_rollback_def tx_begin_def)
  next
    case (Suc j)
    obtain n d' where "st (working t) = (n, d')" by force
    then show ?thesis using Cons.IH [of j "tx_modify (\<lambda>_. d') t"] Cons.prems Suc by (auto simp: s)
  qed
qed simp

lemma run_stmts_ok:
  assumes "case fault of None \<Rightarrow> True | Some k \<Rightarrow> length steps \<le> k"
  shows "run_stmts steps fault t = (fst (stmts_effect steps (working t)), None,
    tx_modify (\<lambda>_. snd (stmts_effect steps (working t))) t)"
  using assms
proof (induction steps arbitrary: fault t)
  case Nil
  then show ?case by (cases t) (simp add: tx_modify_def)
next
  case (Cons s steps)
  obtain name st where s: "s = (name, st)" by (cases s)
  obtain n d' where d': "st (working t) = (n, d')" by force
  have "case map_option (\<lambda>k. k - 1) fault of None \<Rightarrow> True | Some k \<Rightarrow> length steps \<le> k" "fault \<noteq> Some 0"
    using Cons.prems by (auto split: option.splits)
  then show ?case using Cons.IH [of "map_option (\<lambda>k. k - 1) fault" "tx_modify (\<lambda>_. d') t"] d'
    by (auto simp: s tx_modify_def split: prod.splits)
qed

text \<open>The transaction of a purge: the whole effect, or nothing.\<close>

lemma purge_cases:
  "purge uid fault (tx_begin d) =
    (if \<exists>k \<le> length (purge_steps uid). fault = Some k
     then (Inl (OtherErr ''OperationalError''), tx_begin d)
     else (Inr (fst (stmts_effect (purge_steps uid) d)), tx_begin (snd (stmts_effect (purge_steps uid) d))))"
proof (cases fault)
  case None
  then show ?thesis
    by (simp add: purge_def run_stmts_ok tx_modify_def tx_commit_def tx_begin_def)
next
  case (Some k)
  consider "k < length (purge_steps uid)" | "k = length (purge_steps uid)" | "length (purge_steps uid) < k" by linarith
  then show ?thesis
  proof cases
    case 1
    then show ?thesis using run_stmts_fault [OF 1, of "tx_begin d"] Some by (auto simp: purge_def)
  qed (use Some in \<open>auto simp: purge_def run_stmts_ok tx_modify_def tx_commit_def tx_begin_def tx_rollback_def\<close>)
qed

section \<open>Erasure is complete, exact and atomic\<close>

text \<open>Rows that refer to a session or a mission belong to its owner.\<close>

definition owner_consistent :: "db \<Rightarrow> bool" where
  "owner_consistent d \<longleftrightarrow>
     (\<forall>s \<in> set (sessions d). \<forall>m \<in> set (missions d). cs_mission_id s = Some (ms_id m) \<longrightarrow> ms_user_id m = cs_user_id s)
     \<and> (\<forall>v \<in> set (vocabulary d). \<forall>s \<in> set (sessions d). v_session_id v = Some (cs_id s) \<longrightarrow> v_user_id v = cs_user_id s)"

text \<open>The specification of an erasure.\<close>

definition erased :: "int \<Rightarrow> db \<Rightarrow> db" where
  "erased uid d = d\<lparr>
     transcripts := delete_where (\<lambda>x. tr_session_id x \<in> own_sids uid d) (transcripts d),
     debriefs := delete_where (\<lambda>x. db_session_id x \<in> own_sids uid d) (debriefs d),
     vocabulary := delete_where (\<lambda>v. v_user_id v = uid) (vocabulary d),
     review_items := delete_where (\<lambda>r. ri_user_id r = uid) (review_items d),
     sessions := delete_where (\<lambda>s. cs_user_id s = uid) (sessions d),
     missions := delete_where (\<lambda>m. ms_user_id m = uid) (missions d),
     analytics := delete_where (\<lambda>e. ae_user_id e = uid) (analytics d),
     profiles := update_where (\<lambda>p. lp_user_id p = uid) (lp_memory_summary_update (\<lambda>_. [])) (profiles d),
     users := update_where (\<lambda>u. u_id u = uid) reset_stats (users d),
     idempotency := delete_where (\<lambda>k. ik_user_id k = uid) (idempotency d)\<rparr>"

definition erase_counts :: "int \<Rightarrow> db \<Rightarrow> (string \<times> nat) list" where
  "erase_counts uid d =
    [(''transcripts'', rowcount (\<lambda>x. tr_session_id x \<in> own_sids uid d) (transcripts d)),
     (''debriefs'', rowcount (\<lambda>x. db_session_id x \<in> own_sids uid d) (debriefs d)),
     (''vocabulary'', rowcount (\<lambda>v. v_user_id v = uid) (vocabulary d)),
     (''review_items'', rowcount (\<lambda>r. ri_user_id r = uid) (review_items d)),
     (''sessions'', rowcount (\<lambda>s. cs_user_id s = uid) (sessions d)),
     (''missions'', rowcount (\<lambda>m. ms_user_id m = uid) (missions d)),
     (''analytics_events'', rowcount (\<lambda>e. ae_user_id e = uid) (analytics d)),
     (''memory_summary'', rowcount (\<lambda>p. lp_user_id p = uid \<and> lp_memory_summary p \<noteq> []) (profiles d)),
     (''user_stats'', rowcount (\<lambda>u. u_id u = uid \<and> stats_not_default u) (users d)),
     (''idempotency_keys'', rowcount (\<lambda>k. ik_user_id k = uid) (idempotency d))]"

lemma update_where_conj:
  assumes "\<And>r. p r \<Longrightarrow> \<not> q r \<Longrightarrow> f r = r"
  shows "update_where (\<lambda>r. p r \<and> q r) f rows = update_where p f rows"
  using assms by (auto simp: update_where_def)

lemma own_sids_cong: "sessions d' = sessions d \<Longrightarrow> own_sids uid d' = own_sids uid d"
  by (simp add: own_sids_def)

lemma erase_effect:
  assumes "owner_consistent d"
  shows "stmts_effect (purge_steps uid) d = (erase_counts uid d, erased uid d)"
proof -
  let ?v = "delete_where (\<lambda>v. v_user_id v = uid) (vocabulary d)"
  let ?s = "delete_where (\<lambda>s. cs_user_id s = uid) (sessions d)"
  have v: "update_where (\<lambda>v. \<exists>sid \<in> own_sids uid d. v_session_id v = Some sid) f ?v = ?v" for f
    by (rule update_where_id) (use assms in \<open>auto simp: owner_consistent_def own_sids_def delete_where_def\<close>)
  have m: "update_where (\<lambda>s. \<exists>m \<in> set (missions d). ms_user_id m = uid \<and> cs_mission_id s = Some (ms_id m)) f ?s = ?s" for f
    by (rule update_where_id) (use assms in \<open>auto simp: owner_consistent_def delete_where_def\<close>)
  have p: "update_where (\<lambda>p. lp_user_id p = uid \<and> lp_memory_summary p \<noteq> []) (lp_memory_summary_update (\<lambda>_. [])) (profiles d)
      = update_where (\<lambda>p. lp_user_id p = uid) (lp_memory_summary_update (\<lambda>_. [])) (profiles d)"
    by (rule update_where_conj) simp
  have u: "update_where (\<lambda>u. u_id u = uid \<and> stats_not_default u) reset_stats (users d)
      = update_where (\<lambda>u. u_id u = uid) reset_stats (users d)"
    by (rule update_where_conj) (simp add: stats_not_default_def reset_stats_def)
  have o: "own_sids uid (transcripts_update f d) = own_sids uid d"
    "own_sids uid (debriefs_update g (transcripts_update f d)) = own_sids uid d"
    "own_sids uid (vocabulary_update h (debriefs_update g (transcripts_update f d))) = own_sids uid d"
    "own_sids uid (review_items_update i (vocabulary_update h (debriefs_update g (transcripts_update f d)))) = own_sids uid d"
    for f g h i by (simp_all add: own_sids_def)
  show ?thesis
    unfolding purge_steps_def erase_counts_def erased_def
    by (simp add: delete_stmt_def update_stmt_def delete_sessions_stmt_def delete_missions_stmt_def o v m p u)
qed

text \<open>What must be gone and what must stay.\<close>

definition no_voice_trace :: "int \<Rightarrow> int set \<Rightarrow> db \<Rightarrow> bool" where
  "no_voice_trace uid sids d \<longleftrightarrow>
     (\<forall>s \<in> set (sessions d). cs_user_id s \<noteq> uid) \<and> (\<forall>x \<in> set (transcripts d). tr_session_id x \<notin> sids)
     \<and> (\<forall>b \<in> set (debriefs d). db_session_id b \<notin> sids) \<and> (\<forall>v \<in> set (vocabulary d). v_user_id v \<noteq> uid)
     \<and> (\<forall>r \<in> set (review_items d). ri_user_id r \<noteq> uid) \<and> (\<forall>m \<in> set (missions d). ms_user_id m \<noteq> uid)
     \<and> (\<forall>e \<in> set (analytics d). ae_user_id e \<noteq> uid) \<and> (\<forall>k \<in> set (idempotency d). ik_user_id k \<noteq> uid)
     \<and> (\<forall>p \<in> set (profiles d). lp_user_id p = uid \<longrightarrow> lp_memory_summary p = [])
     \<and> (\<forall>u \<in> set (users d). u_id u = uid \<longrightarrow> \<not> stats_not_default u)"

definition others_kept :: "int \<Rightarrow> int set \<Rightarrow> db \<Rightarrow> db \<Rightarrow> bool" where
  "others_kept uid sids d d' \<longleftrightarrow>
     sessions d' = filter (\<lambda>s. cs_user_id s \<noteq> uid) (sessions d)
     \<and> transcripts d' = filter (\<lambda>x. tr_session_id x \<notin> sids) (transcripts d)
     \<and> debriefs d' = filter (\<lambda>b. db_session_id b \<notin> sids) (debriefs d)
     \<and> vocabulary d' = filter (\<lambda>v. v_user_id v \<noteq> uid) (vocabulary d)
     \<and> review_items d' = filter (\<lambda>r. ri_user_id r \<noteq> uid) (review_items d)
     \<and> missions d' = filter (\<lambda>m. ms_user_id m \<noteq> uid) (missions d)
     \<and> analytics d' = filter (\<lambda>e. ae_user_id e \<noteq> uid) (analytics d)
     \<and> idempotency d' = filter (\<lambda>k. ik_user_id k \<noteq> uid) (idempotency d)
     \<and> refresh_tokens d' = refresh_tokens d \<and> consents d' = consents d
     \<and> map (lp_memory_summary_update (\<lambda>_. [])) (profiles d') = map (lp_memory_summary_update (\<lambda>_. [])) (profiles d)
     \<and> filter (\<lambda>p. lp_user_id p \<noteq> uid) (profiles d') = filter (\<lambda>p. lp_user_id p \<noteq> uid) (profiles d)
     \<and> map reset_stats (users d') = map reset_stats (users d)
     \<and> filter (\<lambda>u. u_id u \<noteq> uid) (users d') = filter (\<lambda>u. u_id u \<noteq> uid) (users d)"

lemma reset_stats_sel [simp]: "u_id (reset_stats u) = u_id u" "reset_stats (reset_stats u) = reset_stats u"
  "\<not> stats_not_default (reset_stats u)"
  by (simp_all add: reset_stats_def stats_not_default_def)

lemma erased_no_trace: "no_voice_trace uid (own_sids uid d) (erased uid d)"
  by (auto simp: no_voice_trace_def erased_def delete_where_def split: if_split_asm elim!: in_update_whereE)

lemma erased_others_kept: "others_kept uid (own_sids uid d) d (erased uid d)"
proof -
  have "map (lp_memory_summary_update (\<lambda>_. [])) (update_where p (lp_memory_summary_update (\<lambda>_. [])) ps)
      = map (lp_memory_summary_update (\<lambda>_. [])) ps" for p ps
    by (rule map_update_where) simp
  moreover have "map reset_stats (update_where p reset_stats us) = map reset_stats us" for p us
    by (rule map_update_where) simp
  ultimately show ?thesis unfolding others_kept_def erased_def delete_where_def
    by (simp add: filter_update_where_frame)
qed

lemma rowcount_none: "\<forall>r \<in> set rows. \<not> p r \<Longrightarrow> rowcount p rows = 0"
  by (simp add: rowcount_def filter_empty_conv)

lemma own_sids_erased [simp]: "own_sids uid (erased uid d) = {}"
  by (auto simp: own_sids_def erased_def delete_where_def)

lemma erased_twice: "erased uid (erased uid d) = erased uid d"
proof -
  have e: "own_sids uid (erased uid d) = {}" by simp
  have nd: "delete_where (\<lambda>_. False) rows = rows" for rows :: "'x list" by (simp add: delete_where_def)
  show ?thesis unfolding erased_def [of uid "erased uid d"] e
    by (simp add: nd) (simp add: erased_def update_where_idem)
qed

lemma erase_counts_erased: "erase_counts uid (erased uid d) = map (\<lambda>(k, n). (k, 0)) (erase_counts uid d)"
  using erased_no_trace [of uid d] unfolding erase_counts_def no_voice_trace_def
  by (simp add: rowcount_none)

lemma owner_consistent_erased: "owner_consistent d \<Longrightarrow> owner_consistent (erased uid d)"
  by (auto simp: owner_consistent_def erased_def delete_where_def)

text \<open>C3: Erasing a learner's voice data is complete, exact and atomic. If the transaction fails at any of its
  statements or at the commit, nothing has changed. Otherwise no session, transcript, debrief, vocabulary
  entry, review item, mission, analytics event or cached reply of the learner is left, the memory summary
  and the speech-derived statistics are at their defaults; every row of the others, the refresh tokens,
  the consents and all other columns of the profile and the account are untouched; the reported counts
  are the numbers of rows affected; and a second erasure changes nothing and reports zeros.\<close>

theorem erasure_complete_and_atomic:
  assumes "owner_consistent d" "purge uid fault (tx_begin d) = (r, t)"
  shows "case r of
      Inl e \<Rightarrow> committed t = d \<and> fault \<noteq> None
    | Inr counts \<Rightarrow> no_voice_trace uid (own_sids uid d) (committed t)
        \<and> others_kept uid (own_sids uid d) d (committed t)
        \<and> counts = erase_counts uid d
        \<and> purge uid None (tx_begin (committed t)) = (Inr (map (\<lambda>(k, n). (k, 0)) counts), tx_begin (committed t))"
proof (cases "\<exists>k \<le> length (purge_steps uid). fault = Some k")
  case True
  then have "r = Inl (OtherErr ''OperationalError'')" "t = tx_begin d" using assms(2) by (simp_all add: purge_cases)
  then show ?thesis using True by auto
next
  case False
  have rt: "r = Inr (erase_counts uid d)" "t = tx_begin (erased uid d)"
    using assms(2) unfolding purge_cases erase_effect [OF assms(1)] if_not_P [OF False] by auto
  have "purge uid None (tx_begin (erased uid d))
      = (Inr (map (\<lambda>(k, n). (k, 0)) (erase_counts uid d)), tx_begin (erased uid d))"
    by (simp add: purge_cases erase_effect [OF owner_consistent_erased [OF assms(1)]] erased_twice erase_counts_erased)
  then show ?thesis using rt erased_no_trace erased_others_kept by simp
qed

definition demo_voice_db :: db where
  "demo_voice_db = demo_started\<lparr>
     transcripts := [\<lparr>tr_session_id = 1, tr_turns = [\<lparr>m_role = ROLE_USER, m_content = ''hi''\<rparr>]\<rparr>],
     vocabulary := [\<lparr>v_id = 1, v_user_id = 1, v_session_id = Some 1, v_word = ''cat'', v_phonetic = [],
       v_translation = ''chat'', v_example = ''a cat'', v_status = STATUS_REVIEW\<rparr>]\<rparr>"

theorem erasure_complete_and_atomic_witness:
  "\<exists>counts t. purge 1 None (tx_begin demo_voice_db) = (Inr counts, t)
     \<and> map_of counts ''transcripts'' = Some 1 \<and> map_of counts ''sessions'' = Some 1 \<and> map_of counts ''user_stats'' = Some 0
     \<and> sessions (committed t) = [] \<and> transcripts (committed t) = []"
proof -
  have oc: "owner_consistent demo_voice_db"
    by (simp add: owner_consistent_def demo_voice_db_def demo_started_def demo_db_def empty_db_def)
  obtain r t where rt: "purge 1 None (tx_begin demo_voice_db) = (r, t)" by force
  note e = erasure_complete_and_atomic [OF oc rt]
  then obtain counts where r: "r = Inr counts" by (cases r) auto
  have os: "own_sids 1 demo_voice_db = {1}"
    by (simp add: own_sids_def demo_voice_db_def demo_started_def)
  have c: "counts = erase_counts 1 demo_voice_db"
    "sessions (committed t) = filter (\<lambda>s. cs_user_id s \<noteq> 1) (sessions demo_voice_db)"
    "transcripts (committed t) = filter (\<lambda>x. tr_session_id x \<notin> {1}) (transcripts demo_voice_db)"
    using e unfolding r os by (simp_all add: others_kept_def)
  have "sessions (committed t) = []" "transcripts (committed t) = []"
    unfolding c by (simp_all add: demo_voice_db_def demo_started_def)
  moreover have "map_of counts ''transcripts'' = Some 1" "map_of counts ''sessions'' = Some 1" "map_of counts ''user_stats'' = Some 0"
    unfolding c(1) by (simp_all add: erase_counts_def own_sids_def rowcount_def demo_voice_db_def demo_started_def demo_db_def
        stats_not_default_def new_user_def DEFAULT_CEFR_def)
  ultimately show ?thesis using rt r by blast
qed

section \<open>The export\<close>

lemma export_page_pos: "0 < EXPORT_PAGE_SIZE"
  by (simp add: EXPORT_PAGE_SIZE_def)

interpretation utterance_query: keyset_query "unique_on started_key" "\<lambda>_. EXPORT_PAGE_SIZE"
  "\<lambda>rows c. keyset_page started_key EXPORT_PAGE_SIZE c rows" started_key "sort_key started_key"
  by (rule keyset_page_query [OF export_page_pos])

interpretation vocabulary_query: keyset_query "unique_on v_id" "\<lambda>_. EXPORT_PAGE_SIZE"
  "\<lambda>rows c. keyset_page v_id EXPORT_PAGE_SIZE c rows" v_id "sort_key v_id"
  by (rule keyset_page_query [OF export_page_pos])

interpretation review_query: keyset_query "unique_on ri_id" "\<lambda>_. EXPORT_PAGE_SIZE"
  "\<lambda>rows c. keyset_page ri_id EXPORT_PAGE_SIZE c rows" ri_id "sort_key ri_id"
  by (rule keyset_page_query [OF export_page_pos])

text \<open>One child row per session: the keys of the joined rows are unique.\<close>

lemma unique_started_key_join:
  assumes "unique_on cs_id ss" "unique_on owner rows"
  shows "unique_on started_key (concat (map (\<lambda>s. map (Pair s) (filter (\<lambda>x. owner x = cs_id s) rows)) ss))"
  using assms(1)
proof (induction ss)
  case (Cons s ss)
  have "length (filter (\<lambda>x. owner x = cs_id s) rows) \<le> 1" using assms(2)
  proof (induction rows)
    case (Cons r rows)
    then show ?case using filter_key_tail_Nil [of owner r rows "cs_id s"] by (auto simp: unique_on_Cons)
  qed simp
  then have "distinct (map started_key (map (Pair s) (filter (\<lambda>x. owner x = cs_id s) rows)))"
    by (cases "filter (\<lambda>x. owner x = cs_id s) rows") auto
  moreover have "cs_id s \<notin> cs_id ` set ss" using Cons.prems by (simp add: unique_on_Cons)
  then have "started_key ` set (map (Pair s) (filter (\<lambda>x. owner x = cs_id s) rows))
      \<inter> started_key ` set (concat (map (\<lambda>s. map (Pair s) (filter (\<lambda>x. owner x = cs_id s) rows)) ss)) = {}"
    by (auto simp: started_key_def)
  ultimately show ?case using Cons by (auto simp: unique_on_def unique_on_Cons)
qed simp

lemma unique_filter: "unique_on key rows \<Longrightarrow> unique_on key (filter p rows)"
  by (simp add: unique_on_def distinct_map_filter)

definition export_ok :: "db \<Rightarrow> bool" where
  "export_ok d \<longleftrightarrow> unique_on cs_id (sessions d) \<and> unique_on tr_session_id (transcripts d)
     \<and> unique_on db_session_id (debriefs d) \<and> unique_on v_id (vocabulary d) \<and> unique_on ri_id (review_items d)"

lemma export_ok_unique:
  assumes "export_ok d"
  shows "unique_on started_key (session_transcripts uid d)" "unique_on started_key (session_debrief_rows uid d)"
    "unique_on v_id (filter (\<lambda>e. v_user_id e = uid) (vocabulary d))"
    "unique_on ri_id (filter (\<lambda>r. ri_user_id r = uid) (review_items d))"
  using assms unfolding export_ok_def session_transcripts_def session_debrief_rows_def
  by (auto intro!: unique_started_key_join unique_filter)

text \<open>While nothing is written the export is the whole of the learner's data in order.\<close>

lemma export_quiescent:
  assumes "export_ok d"
  shows "export_utterances uid (\<lambda>_. d) = Some (concat (map utterances_of (sort_key started_key (session_transcripts uid d))))"
    and "export_vocabulary uid (\<lambda>_. d) = Some (map (\<lambda>e. (v_word e, v_translation e, v_example e))
           (sort_key v_id (filter (\<lambda>e. v_user_id e = uid) (vocabulary d))))"
    and "export_debriefs uid (\<lambda>_. d) = Some (map debrief_item_of (sort_key started_key (session_debrief_rows uid d)))"
    and "export_review_items uid (\<lambda>_. d) = Some (map review_export_of
           (sort_key ri_id (filter (\<lambda>r. ri_user_id r = uid) (review_items d))))"
proof -
  note u = export_ok_unique [OF assms, of uid]
  show "export_utterances uid (\<lambda>_. d) = Some (concat (map utterances_of (sort_key started_key (session_transcripts uid d))))"
    using utterance_query.pages_complete [OF u(1)] by (simp add: export_utterances_def)
  show "export_vocabulary uid (\<lambda>_. d) = Some (map (\<lambda>e. (v_word e, v_translation e, v_example e))
      (sort_key v_id (filter (\<lambda>e. v_user_id e = uid) (vocabulary d))))"
    using vocabulary_query.pages_complete [OF u(3)] by (simp add: export_vocabulary_def)
  have "keyset_pages (\<lambda>i c. keyset_page started_key EXPORT_PAGE_SIZE c (session_debrief_rows uid d)) started_key
      EXPORT_PAGE_SIZE 0 None = Some (sort_key started_key (session_debrief_rows uid d))"
    using keyset_query.pages_complete [OF keyset_page_query [OF export_page_pos] u(2)] by simp
  then show "export_debriefs uid (\<lambda>_. d) = Some (map debrief_item_of (sort_key started_key (session_debrief_rows uid d)))"
    by (simp add: export_debriefs_def)
  show "export_review_items uid (\<lambda>_. d) = Some (map review_export_of
      (sort_key ri_id (filter (\<lambda>r. ri_user_id r = uid) (review_items d))))"
    using review_query.pages_complete [OF u(4)] by (simp add: export_review_items_def)
qed

text \<open>C20: An export that is downloaded while the learner keeps practising is still faithful: as long as the
  download sees only finitely many rows in all, each of the four lists is produced (the paging ends), in
  strictly increasing order of its key, so without a duplicate; every row listed was the learner's in some
  state seen; and every row that was there during the whole download is listed, whatever was inserted,
  changed or deleted around it.\<close>

theorem export_survives_concurrent_writes:
  assumes ok: "\<And>i. export_ok (ds i)"
    and fin: "finite (\<Union>i. set (sessions (ds i)))" "finite (\<Union>i. set (vocabulary (ds i)))"
      "finite (\<Union>i. set (review_items (ds i)))"
  shows "\<exists>us vs bs rs.
     export_utterances uid ds = Some (concat (map utterances_of us))
       \<and> faithful_listing started_key (\<lambda>i. session_transcripts uid (ds i)) us
   \<and> export_vocabulary uid ds = Some (map (\<lambda>e. (v_word e, v_translation e, v_example e)) vs)
       \<and> faithful_listing v_id (\<lambda>i. filter (\<lambda>e. v_user_id e = uid) (vocabulary (ds i))) vs
   \<and> export_debriefs uid ds = Some (map debrief_item_of bs)
       \<and> faithful_listing started_key (\<lambda>i. session_debrief_rows uid (ds i)) bs
   \<and> export_review_items uid ds = Some (map review_export_of rs)
       \<and> faithful_listing ri_id (\<lambda>i. filter (\<lambda>r. ri_user_id r = uid) (review_items (ds i))) rs"
proof -
  note u = export_ok_unique [OF ok, of uid]
  let ?K = "(\<lambda>s. (cs_started_at s, cs_id s)) ` (\<Union>i. set (sessions (ds i)))"
  have kt: "started_key ` set (session_transcripts uid (ds i)) \<subseteq> ?K"
    and kd: "started_key ` set (session_debrief_rows uid (ds i)) \<subseteq> ?K" for i
    by (auto simp: session_transcripts_def session_debrief_rows_def started_key_def intro!: imageI)
  have kv: "v_id ` set (filter (\<lambda>e. v_user_id e = uid) (vocabulary (ds i))) \<subseteq> v_id ` (\<Union>i. set (vocabulary (ds i)))"
    and kr: "ri_id ` set (filter (\<lambda>r. ri_user_id r = uid) (review_items (ds i))) \<subseteq> ri_id ` (\<Union>i. set (review_items (ds i)))" for i
    by auto
  have K: "finite ?K" using fin(1) by simp
  obtain us where us: "keyset_pages (\<lambda>i c. keyset_page started_key EXPORT_PAGE_SIZE c (session_transcripts uid (ds i)))
      started_key EXPORT_PAGE_SIZE 0 None = Some us" "faithful_listing started_key (\<lambda>i. session_transcripts uid (ds i)) us"
    by (rule keyset_pages_faithful [where rows = "\<lambda>i. session_transcripts uid (ds i)" and key = started_key, OF u(1) export_page_pos K kt])
  obtain bs where bs: "keyset_pages (\<lambda>i c. keyset_page started_key EXPORT_PAGE_SIZE c (session_debrief_rows uid (ds i)))
      started_key EXPORT_PAGE_SIZE 0 None = Some bs" "faithful_listing started_key (\<lambda>i. session_debrief_rows uid (ds i)) bs"
    by (rule keyset_pages_faithful [where rows = "\<lambda>i. session_debrief_rows uid (ds i)" and key = started_key, OF u(2) export_page_pos K kd])
  obtain vs where vs: "keyset_pages (\<lambda>i c. keyset_page v_id EXPORT_PAGE_SIZE c (filter (\<lambda>e. v_user_id e = uid) (vocabulary (ds i))))
      v_id EXPORT_PAGE_SIZE 0 None = Some vs" "faithful_listing v_id (\<lambda>i. filter (\<lambda>e. v_user_id e = uid) (vocabulary (ds i))) vs"
    by (rule keyset_pages_faithful [where rows = "\<lambda>i. filter (\<lambda>e. v_user_id e = uid) (vocabulary (ds i))" and key = v_id, OF u(3) export_page_pos finite_imageI [OF fin(2)] kv])
  obtain rs where rs: "keyset_pages (\<lambda>i c. keyset_page ri_id EXPORT_PAGE_SIZE c (filter (\<lambda>r. ri_user_id r = uid) (review_items (ds i))))
      ri_id EXPORT_PAGE_SIZE 0 None = Some rs" "faithful_listing ri_id (\<lambda>i. filter (\<lambda>r. ri_user_id r = uid) (review_items (ds i))) rs"
    by (rule keyset_pages_faithful [where rows = "\<lambda>i. filter (\<lambda>r. ri_user_id r = uid) (review_items (ds i))" and key = ri_id, OF u(4) export_page_pos finite_imageI [OF fin(3)] kr])
  show ?thesis using us bs vs rs
    by (intro exI [of _ us] exI [of _ vs] exI [of _ bs] exI [of _ rs])
      (simp add: export_utterances_def export_vocabulary_def export_debriefs_def export_review_items_def)
qed

theorem export_survives_concurrent_writes_witness:
  "\<exists>us. export_utterances 1 (\<lambda>i. if i = 0 then demo_voice_db else demo_started) = Some (concat (map utterances_of us))
     \<and> faithful_listing started_key (\<lambda>i. session_transcripts 1 (if i = 0 then demo_voice_db else demo_started)) us"
proof -
  let ?ds = "\<lambda>i::nat. if i = 0 then demo_voice_db else demo_started"
  have ok: "export_ok (?ds i)" for i
    by (simp add: export_ok_def demo_voice_db_def demo_started_def demo_db_def empty_db_def unique_on_def)
  have one: "(\<Union>i. f (?ds i)) \<subseteq> f demo_voice_db \<union> f demo_started" for f :: "db \<Rightarrow> 'x set"
    by (auto split: if_splits)
  have fin: "finite (\<Union>i. set (sessions (?ds i)))" "finite (\<Union>i. set (vocabulary (?ds i)))"
      "finite (\<Union>i. set (review_items (?ds i)))"
    by (auto intro!: finite_subset [OF one])
  show ?thesis using export_survives_concurrent_writes [of ?ds 1, OF ok fin] by blast
qed

section \<open>The periodic purge\<close>

lemma purge_expired_ok:
  "purge_expired_entries now None (tx_begin d) =
    (fst (stmts_effect (expired_steps now) d), tx_begin (snd (stmts_effect (expired_steps now) d)))"
proof -
  have "length (fst (stmts_effect steps d)) = length steps" for steps d
    by (induction steps d rule: stmts_effect.induct) (auto split: prod.splits)
  then show ?thesis
    by (simp add: purge_expired_entries_def run_stmts_ok tx_modify_def tx_commit_def tx_begin_def)
qed

text \<open>A revoked token is kept until it expires, so that its reuse is still recognised; the activation
  marker of a learner is never purged.\<close>

lemma purge_expired_keeps:
  assumes "d' = committed (snd (purge_expired_entries now None (tx_begin d)))"
  shows "r \<in> set (refresh_tokens d) \<Longrightarrow> now \<le> instant (rt_expires_at r) \<Longrightarrow> r \<in> set (refresh_tokens d')"
    and "e \<in> set (analytics d) \<Longrightarrow> ae_name e = EVENT_ACTIVATION \<Longrightarrow> e \<in> set (analytics d')"
    and "k \<in> set (idempotency d) \<Longrightarrow> now - 24 * us_per_hour \<le> ik_created_at k \<Longrightarrow> k \<in> set (idempotency d')"
  unfolding assms purge_expired_ok
  by (simp_all add: expired_steps_def delete_stmt_def delete_where_def ANALYTICS_RETENTION_EXEMPT_NAMES_def)

text \<open>A purge that fails at its second statement leaves the database as it was and still reports the
  tokens it did not delete.\<close>

lemma failed_purge_reports_rolled_back_rows:
  "purge_expired_entries now (Some 1) (tx_begin d) =
    ([(''refresh_tokens'', rowcount (\<lambda>r. instant (rt_expires_at r) < now) (refresh_tokens d)),
      (''idempotency_keys'', 0), (''analytics_events'', 0)], tx_begin d)"
  by (simp add: purge_expired_entries_def expired_steps_def delete_stmt_def tx_rollback_def tx_modify_def tx_begin_def)

end
