(* ===== verification/Analytics.thy ===== *)
theory Analytics
  imports Review VoiceData
begin

text \<open>
  Product analytics (\<^verbatim>\<open>app/features/analytics\<close>): the SQL sink with the partial unique index that
  allows one activation per learner, the best-effort service, and the admin summary. The time a row is
  stamped with and the server's UTC offset are arguments.
\<close>

section \<open>Events and sink\<close>

definition EVENT_SESSION_COMPLETED :: string where "EVENT_SESSION_COMPLETED = ''session_completed''"

definition EVENT_TRANSFER_STARTED :: string where "EVENT_TRANSFER_STARTED = ''transfer_started''"

fun props_storable :: "event_props \<Rightarrow> bool" where
  "props_storable NoProps \<longleftrightarrow> True"
| "props_storable (CompletionProps sid cefr n) \<longleftrightarrow> pg_text_ok cefr"
| "props_storable (SkillProps skill) \<longleftrightarrow> pg_text_ok skill"

definition new_event :: "string \<Rightarrow> int \<Rightarrow> event_props \<Rightarrow> instant \<Rightarrow> analytics_event" where
  "new_event name uid props now =
     \<lparr>ae_name = name, ae_user_id = uid, ae_properties = props, ae_created_at = now\<rparr>"

definition is_activation :: "int \<Rightarrow> analytics_event \<Rightarrow> bool" where
  "is_activation uid e \<longleftrightarrow> ae_name e = EVENT_ACTIVATION \<and> ae_user_id e = uid"

definition insert_event :: "analytics_event \<Rightarrow> dbtx \<Rightarrow> (error + unit) \<times> dbtx" where
  "insert_event e t =
     (if length (ae_name e) > 60 \<or> \<not> props_storable (ae_properties e) then (Inl (DataErr ''analytics_events''), t)
      else if get_user (ae_user_id e) (working t) = None then (Inl (IntegrityErr ''analytics_events_user_id_fkey''), t)
      else if ae_name e = EVENT_ACTIVATION \<and> list_ex (is_activation (ae_user_id e)) (analytics (working t))
      then (Inl (IntegrityErr ''uq_analytics_activation_per_user''), t)
      else (Inr (), tx_commit (tx_modify (\<lambda>d. d\<lparr>analytics := analytics d @ [e]\<rparr>) t)))"

text \<open>A failed commit is rolled back before the error is raised again.\<close>

definition sink_emit :: "analytics_event \<Rightarrow> sess \<Rightarrow> (error + unit) \<times> sess" where
  "sink_emit e s = (case sess_exec (insert_event e) s of
      (Inl err, s1) \<Rightarrow> (Inl err, sess_rollback s1) | (Inr u, s1) \<Rightarrow> (Inr u, s1))"

section \<open>Service\<close>

definition count_events :: "int \<Rightarrow> string \<Rightarrow> db \<Rightarrow> nat" where
  "count_events uid name d = length (filter (\<lambda>e. ae_user_id e = uid \<and> ae_name e = name) (analytics d))"

definition svc_emit :: "analytics_event \<Rightarrow> sess \<Rightarrow> bool \<times> sess" where
  "svc_emit e s = (case sink_emit e s of (Inl _, s1) \<Rightarrow> (False, s1) | (Inr _, s1) \<Rightarrow> (True, s1))"

definition session_completed :: "int \<Rightarrow> int \<Rightarrow> string \<Rightarrow> nat \<Rightarrow> instant \<Rightarrow> sess \<Rightarrow> sess" where
  "session_completed uid sid cefr error_count now s =
     (let (counted, s1) = sess_exec (\<lambda>t. (Inr (count_events uid EVENT_SESSION_COMPLETED (working t)), t)) s;
          prior = (case counted of Inl _ \<Rightarrow> None | Inr n \<Rightarrow> Some n);
          (completed, s2) = svc_emit (new_event EVENT_SESSION_COMPLETED uid (CompletionProps sid cefr error_count) now) s1
      in if completed \<and> prior = Some 0 then snd (svc_emit (new_event EVENT_ACTIVATION uid NoProps now) s2) else s2)"

definition transfer_started :: "int \<Rightarrow> string \<Rightarrow> instant \<Rightarrow> sess \<Rightarrow> sess" where
  "transfer_started uid skill now s = snd (svc_emit (new_event EVENT_TRANSFER_STARTED uid (SkillProps skill) now) s)"

section \<open>Admin summary\<close>

record analytics_summary =
  as_users_activated :: nat
  as_completions_total :: nat
  as_completions_this_week :: nat
  as_transfers_started_total :: nat

definition distinct_users_with_event :: "string \<Rightarrow> db \<Rightarrow> nat" where
  "distinct_users_with_event name d =
     length (remdups (map ae_user_id (filter (\<lambda>e. ae_name e = name) (analytics d))))"

definition count_event :: "string \<Rightarrow> db \<Rightarrow> nat" where
  "count_event name d = length (filter (\<lambda>e. ae_name e = name) (analytics d))"

definition count_event_since :: "string \<Rightarrow> instant \<Rightarrow> db \<Rightarrow> nat" where
  "count_event_since name since d =
     length (filter (\<lambda>e. ae_name e = name \<and> since \<le> ae_created_at e) (analytics d))"

text \<open>Midnight of Monday as a naive datetime, which the driver reads in the server's zone.\<close>

definition analytics_week_start :: "date \<Rightarrow> datetime" where
  "analytics_week_start today = \<lparr>wall = us_per_day * (today - weekday today), tzinfo = None\<rparr>"

definition analytics_summary :: "int \<Rightarrow> instant \<Rightarrow> db \<Rightarrow> analytics_summary" where
  "analytics_summary local_offset now d =
     \<lparr>as_users_activated = distinct_users_with_event EVENT_ACTIVATION d,
      as_completions_total = count_event EVENT_SESSION_COMPLETED d,
      as_completions_this_week =
        count_event_since EVENT_SESSION_COMPLETED (wall (analytics_week_start (date_of (utc now))) - local_offset) d,
      as_transfers_started_total = count_event EVENT_TRANSFER_STARTED d\<rparr>"

section \<open>One activation per learner\<close>

definition activated_once :: "db \<Rightarrow> bool" where
  "activated_once d \<longleftrightarrow> (\<forall>uid. length (filter (is_activation uid) (analytics d)) \<le> 1)"

definition sess_ok :: "(db \<Rightarrow> bool) \<Rightarrow> sess \<Rightarrow> bool" where
  "sess_ok P s \<longleftrightarrow> P (committed (fst s)) \<and> P (working (fst s))"

lemma activated_once_insert:
  assumes "insert_event e t = (r, t')" "activated_once (committed t)" "activated_once (working t)"
  shows "activated_once (committed t') \<and> activated_once (working t')"
proof -
  have "length (filter (is_activation uid) (analytics (working t) @ [e])) \<le> 1"
    if "ae_name e \<noteq> EVENT_ACTIVATION \<or> \<not> list_ex (is_activation (ae_user_id e)) (analytics (working t))" for uid
    using assms(3) that by (auto simp: activated_once_def is_activation_def list_ex_iff filter_empty_conv)
  then show ?thesis using assms by (auto simp: insert_event_def activated_once_def split: if_split_asm)
qed

lemma sess_ok_exec:
  assumes "\<And>t r t'. f t = (r, t') \<Longrightarrow> P (committed t) \<Longrightarrow> P (working t) \<Longrightarrow> P (committed t') \<and> P (working t')" "sess_ok P s"
  shows "sess_ok P (snd (sess_exec f s))"
proof -
  obtain t ab where s: "s = (t, ab)" by (cases s)
  obtain r t' where f: "f t = (r, t')" by (cases "f t")
  show ?thesis using assms(1) [OF f] assms(2) f by (cases r) (auto simp: s sess_ok_def sess_exec_def)
qed

lemma sess_ok_svc_emit: "sess_ok activated_once s \<Longrightarrow> sess_ok activated_once (snd (svc_emit e s))"
proof -
  assume "sess_ok activated_once s"
  then have "sess_ok activated_once (snd (sess_exec (insert_event e) s))"
    using sess_ok_exec [of "insert_event e" activated_once s] activated_once_insert by blast
  then show ?thesis
    by (auto simp: svc_emit_def sink_emit_def sess_ok_def sess_rollback_def split: prod.splits sum.splits)
qed

lemma session_completed_activated_once:
  assumes "sess_ok activated_once s"
  shows "sess_ok activated_once (session_completed uid sid cefr n now s)"
proof -
  have "sess_ok activated_once (snd (sess_exec (\<lambda>t. (Inr (count_events uid EVENT_SESSION_COMPLETED (working t)), t)) s))"
    by (rule sess_ok_exec [OF _ assms]) auto
  then show ?thesis
    by (auto simp: session_completed_def Let_def split: prod.splits sum.splits)
      (metis sess_ok_svc_emit snd_conv)+
qed

lemma svc_emit_live:
  assumes "get_user (ae_user_id e) (working t) \<noteq> None" "props_storable (ae_properties e)" "length (ae_name e) \<le> 60"
  shows "svc_emit e (t, False) =
    (if ae_name e = EVENT_ACTIVATION \<and> list_ex (is_activation (ae_user_id e)) (analytics (working t))
     then (False, (tx_rollback t, False))
     else (True, (tx_begin ((working t)\<lparr>analytics := analytics (working t) @ [e]\<rparr>), False)))"
  using assms
  by (auto simp: svc_emit_def sink_emit_def sess_exec_live insert_event_def sess_rollback_def
      tx_modify_def tx_commit_def tx_begin_def)

lemma new_event_sel [simp]: "ae_name (new_event name uid ps now) = name" "ae_user_id (new_event name uid ps now) = uid"
  "ae_properties (new_event name uid ps now) = ps"
  by (simp_all add: new_event_def)

text \<open>On a usable session: the completion is appended, and an activation behind it exactly for a first completion
  of a learner who has none.\<close>

lemma session_completed_live:
  fixes uid sid :: int and n :: nat and now :: instant and cefr :: string and t :: dbtx
  assumes "get_user uid (working t) \<noteq> None" "pg_text_ok cefr"
  defines "e \<equiv> new_event EVENT_SESSION_COMPLETED uid (CompletionProps sid cefr n) now"
  defines "d1 \<equiv> (working t)\<lparr>analytics := analytics (working t) @ [e]\<rparr>"
  shows "session_completed uid sid cefr n now (t, False) =
    (tx_begin (if count_events uid EVENT_SESSION_COMPLETED (working t) = 0
             \<and> \<not> list_ex (is_activation uid) (analytics (working t))
           then d1\<lparr>analytics := analytics d1 @ [new_event EVENT_ACTIVATION uid NoProps now]\<rparr> else d1), False)"
proof -
  have e: "svc_emit e (t, False) = (True, (tx_begin d1, False))"
    using assms(1, 2) by (simp add: svc_emit_live e_def d1_def EVENT_SESSION_COMPLETED_def EVENT_ACTIVATION_def)
  have u: "get_user uid (working (tx_begin d1)) \<noteq> None" using assms(1) by (simp add: d1_def get_user_def)
  have "list_ex (is_activation uid) (analytics d1) \<longleftrightarrow> list_ex (is_activation uid) (analytics (working t))"
    by (simp add: d1_def e_def is_activation_def EVENT_SESSION_COMPLETED_def EVENT_ACTIVATION_def)
  moreover have "length EVENT_ACTIVATION \<le> 60" by (simp add: EVENT_ACTIVATION_def)
  ultimately show ?thesis using u
    by (simp add: session_completed_def sess_exec_live e [unfolded e_def] svc_emit_live tx_rollback_def tx_begin_def)
qed

text \<open>On an aborted session the completion is lost, but the session becomes usable again.\<close>

lemma session_completed_aborted:
  "session_completed uid sid cefr n now (t, True) = (tx_rollback t, False)"
  by (simp add: session_completed_def Let_def svc_emit_def sink_emit_def sess_rollback_def)

end
