(* ===== verification/Migrations.thy ===== *)
theory Migrations
  imports Analytics
begin

text \<open>
  The migrations of the database (\<^verbatim>\<open>src/backend/migrations/versions\<close>) and the tables the models declare (all
  \<^verbatim>\<open>models.py\<close>). A migration is the list of its schema operations, run against a schema with the checks PostgreSQL makes;
  whether a table has rows, on which the addition of a mandatory column depends, is an argument. The statements that
  rewrite rows are modelled on the rows of \<open>Store\<close>.
\<close>

section \<open>Schemas\<close>

datatype sql_type = SqlInteger | SqlString nat | SqlText | SqlJsonb | SqlDate | SqlTimestampTz | SqlFloat | SqlBoolean

datatype on_delete = Cascade | SetNull

datatype index_part = Col string | Lower string

datatype index_where = IsNull string | Equals string string

record sql_column =
  co_name :: string
  co_type :: sql_type
  co_nullable :: bool
  co_default :: "string option"

record sql_index =
  ix_name :: string
  ix_parts :: "index_part list"
  ix_unique :: bool
  ix_where :: "index_where option"

record sql_foreign_key =
  fk_name :: string
  fk_columns :: "string list"
  fk_table :: string
  fk_references :: "string list"
  fk_on_delete :: on_delete

record sql_table =
  tb_name :: string
  tb_columns :: "sql_column list"
  tb_primary_key :: "string list"
  tb_foreign_keys :: "sql_foreign_key list"
  tb_uniques :: "(string \<times> string list) list"
  tb_indexes :: "sql_index list"

type_synonym schema = "sql_table list"

abbreviation column :: "string \<Rightarrow> sql_type \<Rightarrow> bool \<Rightarrow> string option \<Rightarrow> sql_column" where
  "column n t nl d \<equiv> \<lparr>co_name = n, co_type = t, co_nullable = nl, co_default = d\<rparr>"

abbreviation index :: "string \<Rightarrow> index_part list \<Rightarrow> bool \<Rightarrow> index_where option \<Rightarrow> sql_index" where
  "index n ps u w \<equiv> \<lparr>ix_name = n, ix_parts = ps, ix_unique = u, ix_where = w\<rparr>"

abbreviation foreign_key :: "string \<Rightarrow> string list \<Rightarrow> string \<Rightarrow> string list \<Rightarrow> on_delete \<Rightarrow> sql_foreign_key" where
  "foreign_key n cs t rs od \<equiv> \<lparr>fk_name = n, fk_columns = cs, fk_table = t, fk_references = rs, fk_on_delete = od\<rparr>"

abbreviation new_table :: "string \<Rightarrow> sql_column list \<Rightarrow> string list \<Rightarrow> sql_foreign_key list \<Rightarrow> (string \<times> string list) list \<Rightarrow> sql_table" where
  "new_table n cs pk fks us \<equiv> \<lparr>tb_name = n, tb_columns = cs, tb_primary_key = pk, tb_foreign_keys = fks, tb_uniques = us, tb_indexes = []\<rparr>"

section \<open>Schema operations\<close>

datatype data_statement = CloseExtraSessions | DropDuplicateActivations | LowercaseEmails | BackfillResponses

datatype ddl =
    CreateTable sql_table
  | DropTable string
  | AddColumn string sql_column
  | DropColumn string string
  | AlterColumn string string "bool option" "string option option"
  | CreateIndex string sql_index
  | DropIndex string string
  | CreateUnique string string "string list"
  | CreateForeignKey string sql_foreign_key
  | DropConstraint string string
  | Execute data_statement

datatype ddl_error = DuplicateTable | UndefinedTable | DependentObjects | DuplicateColumn | UndefinedColumn | UndefinedObject | NotNullViolation

definition has_table :: "string \<Rightarrow> schema \<Rightarrow> bool" where
  "has_table n s = list_ex (\<lambda>t. tb_name t = n) s"

definition has_column :: "string \<Rightarrow> sql_table \<Rightarrow> bool" where
  "has_column c t = list_ex (\<lambda>x. co_name x = c) (tb_columns t)"

text \<open>Indexes and unique constraints share the names of the relations of a schema.\<close>

definition relation_names :: "schema \<Rightarrow> string list" where
  "relation_names s = concat (map (\<lambda>t. tb_name t # map fst (tb_uniques t) @ map ix_name (tb_indexes t)) s)"

definition on_table :: "string \<Rightarrow> (sql_table \<Rightarrow> ddl_error + sql_table) \<Rightarrow> schema \<Rightarrow> ddl_error + schema" where
  "on_table n f s = (case find (\<lambda>t. tb_name t = n) s of
      None \<Rightarrow> Inl UndefinedTable
    | Some t \<Rightarrow> (case f t of Inl e \<Rightarrow> Inl e | Inr t' \<Rightarrow> Inr (map (\<lambda>x. if tb_name x = n then t' else x) s)))"

fun part_column :: "index_part \<Rightarrow> string" where
  "part_column (Col c) = c"
| "part_column (Lower c) = c"

text \<open>Dropping a column drops what depends on it.\<close>

definition drop_column :: "string \<Rightarrow> sql_table \<Rightarrow> ddl_error + sql_table" where
  "drop_column c t =
     (if \<not> has_column c t then Inl UndefinedColumn
      else Inr (t\<lparr>tb_columns := filter (\<lambda>x. co_name x \<noteq> c) (tb_columns t),
        tb_primary_key := (if c \<in> set (tb_primary_key t) then [] else tb_primary_key t),
        tb_foreign_keys := filter (\<lambda>k. c \<notin> set (fk_columns k)) (tb_foreign_keys t),
        tb_uniques := filter (\<lambda>u. c \<notin> set (snd u)) (tb_uniques t),
        tb_indexes := filter (\<lambda>i. c \<notin> set (map part_column (ix_parts i))) (tb_indexes t)\<rparr>))"

definition alter_column :: "bool option \<Rightarrow> string option option \<Rightarrow> sql_column \<Rightarrow> sql_column" where
  "alter_column nullable dflt c =
     c\<lparr>co_nullable := (case nullable of None \<Rightarrow> co_nullable c | Some b \<Rightarrow> b),
       co_default := (case dflt of None \<Rightarrow> co_default c | Some d \<Rightarrow> d)\<rparr>"

fun apply_ddl :: "(string \<Rightarrow> bool) \<Rightarrow> ddl \<Rightarrow> schema \<Rightarrow> ddl_error + schema" where
  "apply_ddl filled (CreateTable t) s =
     (if tb_name t \<in> set (relation_names s) then Inl DuplicateTable
      else if \<not> list_all (\<lambda>k. fk_table k = tb_name t \<or> has_table (fk_table k) s) (tb_foreign_keys t) then Inl UndefinedTable
      else Inr (s @ [t]))"
| "apply_ddl filled (DropTable n) s =
     (if \<not> has_table n s then Inl UndefinedTable
      else if list_ex (\<lambda>t. tb_name t \<noteq> n \<and> list_ex (\<lambda>k. fk_table k = n) (tb_foreign_keys t)) s then Inl DependentObjects
      else Inr (filter (\<lambda>t. tb_name t \<noteq> n) s))"
| "apply_ddl filled (AddColumn n c) s = on_table n (\<lambda>t.
     if has_column (co_name c) t then Inl DuplicateColumn
     else if \<not> co_nullable c \<and> co_default c = None \<and> filled n then Inl NotNullViolation
     else Inr (t\<lparr>tb_columns := tb_columns t @ [c]\<rparr>)) s"
| "apply_ddl filled (DropColumn n c) s = on_table n (drop_column c) s"
| "apply_ddl filled (AlterColumn n c nullable dflt) s = on_table n (\<lambda>t.
     if \<not> has_column c t then Inl UndefinedColumn
     else Inr (t\<lparr>tb_columns := map (\<lambda>x. if co_name x = c then alter_column nullable dflt x else x) (tb_columns t)\<rparr>)) s"
| "apply_ddl filled (CreateIndex n i) s =
     (if ix_name i \<in> set (relation_names s) then Inl DuplicateTable
      else on_table n (\<lambda>t. if list_all (\<lambda>p. has_column (part_column p) t) (ix_parts i)
        then Inr (t\<lparr>tb_indexes := tb_indexes t @ [i]\<rparr>) else Inl UndefinedColumn) s)"
| "apply_ddl filled (DropIndex n i) s = on_table n (\<lambda>t.
     if list_ex (\<lambda>x. ix_name x = i) (tb_indexes t) then Inr (t\<lparr>tb_indexes := filter (\<lambda>x. ix_name x \<noteq> i) (tb_indexes t)\<rparr>)
     else Inl UndefinedObject) s"
| "apply_ddl filled (CreateUnique n u cs) s =
     (if u \<in> set (relation_names s) then Inl DuplicateTable
      else on_table n (\<lambda>t. if list_all (\<lambda>c. has_column c t) cs then Inr (t\<lparr>tb_uniques := tb_uniques t @ [(u, cs)]\<rparr>)
        else Inl UndefinedColumn) s)"
| "apply_ddl filled (CreateForeignKey n k) s =
     (if \<not> has_table (fk_table k) s then Inl UndefinedTable
      else on_table n (\<lambda>t. if list_all (\<lambda>c. has_column c t) (fk_columns k)
        then Inr (t\<lparr>tb_foreign_keys := tb_foreign_keys t @ [k]\<rparr>) else Inl UndefinedColumn) s)"
| "apply_ddl filled (DropConstraint n k) s = on_table n (\<lambda>t.
     if list_ex (\<lambda>u. fst u = k) (tb_uniques t) \<or> list_ex (\<lambda>x. fk_name x = k) (tb_foreign_keys t)
     then Inr (t\<lparr>tb_uniques := filter (\<lambda>u. fst u \<noteq> k) (tb_uniques t), tb_foreign_keys := filter (\<lambda>x. fk_name x \<noteq> k) (tb_foreign_keys t)\<rparr>)
     else Inl UndefinedObject) s"
| "apply_ddl filled (Execute st) s = Inr s"

fun apply_all :: "(string \<Rightarrow> bool) \<Rightarrow> ddl list \<Rightarrow> schema \<Rightarrow> ddl_error + schema" where
  "apply_all filled [] s = Inr s"
| "apply_all filled (x # xs) s = (case apply_ddl filled x s of Inl e \<Rightarrow> Inl e | Inr s' \<Rightarrow> apply_all filled xs s')"

section \<open>The migrations\<close>

record migration =
  mg_revision :: string
  mg_down_revision :: "string option"
  mg_upgrade :: "ddl list"
  mg_downgrade :: "ddl list"

definition m_02cf10ba6ab7 :: migration where
  "m_02cf10ba6ab7 = \<lparr>mg_revision = ''02cf10ba6ab7'', mg_down_revision = Some ''fb4423db1c92'',
     mg_upgrade = [AddColumn ''users'' (column ''is_admin'' SqlBoolean False (Some ''false'')),
       AlterColumn ''users'' ''is_admin'' None (Some None)],
     mg_downgrade = [DropColumn ''users'' ''is_admin'']\<rparr>"

definition m_1a2b3c4d5e6f :: migration where
  "m_1a2b3c4d5e6f = \<lparr>mg_revision = ''1a2b3c4d5e6f'', mg_down_revision = Some ''d2e3f4a5b6c7'',
     mg_upgrade = [CreateIndex ''refresh_tokens'' (index ''ix_refresh_tokens_expires_at'' [Col ''expires_at''] False None),
       CreateIndex ''idempotency_keys'' (index ''ix_idempotency_keys_created_at'' [Col ''created_at''] False None)],
     mg_downgrade = [DropIndex ''idempotency_keys'' ''ix_idempotency_keys_created_at'',
       DropIndex ''refresh_tokens'' ''ix_refresh_tokens_expires_at'']\<rparr>"

definition m_1aca44166335 :: migration where
  "m_1aca44166335 = \<lparr>mg_revision = ''1aca44166335'', mg_down_revision = Some ''a580567ea83a'',
     mg_upgrade = [CreateTable (new_table ''transcripts''
        [column ''id'' SqlInteger False None,
         column ''session_id'' SqlInteger False None,
         column ''turns'' SqlJsonb False None,
         column ''created_at'' SqlTimestampTz False (Some ''now()'')]
        [''id''] [foreign_key ''transcripts_session_id_fkey'' [''session_id''] ''sessions'' [''id''] Cascade] []),
       CreateIndex ''transcripts'' (index ''ix_transcripts_session_id'' [Col ''session_id''] True None)],
     mg_downgrade = [DropIndex ''transcripts'' ''ix_transcripts_session_id'',
       DropTable ''transcripts'']\<rparr>"

definition m_22c153382454 :: migration where
  "m_22c153382454 = \<lparr>mg_revision = ''22c153382454'', mg_down_revision = Some ''b9ee2fa53721'',
     mg_upgrade = [DropIndex ''sessions'' ''ix_sessions_user_id'',
       CreateIndex ''sessions'' (index ''ix_sessions_user_id_started_at'' [Col ''user_id'', Col ''started_at''] False None)],
     mg_downgrade = [DropIndex ''sessions'' ''ix_sessions_user_id_started_at'',
       CreateIndex ''sessions'' (index ''ix_sessions_user_id'' [Col ''user_id''] False None)]\<rparr>"

definition m_4c4cd5d33301 :: migration where
  "m_4c4cd5d33301 = \<lparr>mg_revision = ''4c4cd5d33301'', mg_down_revision = Some ''c680843e1e0a'',
     mg_upgrade = [CreateTable (new_table ''sessions''
        [column ''id'' SqlInteger False None,
         column ''user_id'' SqlInteger False None,
         column ''mode'' (SqlString 16) False None,
         column ''scenario_id'' (SqlString 64) True None,
         column ''room_name'' (SqlString 80) False None,
         column ''voice_engine'' (SqlString 16) False None,
         column ''started_at'' SqlTimestampTz False (Some ''now()''),
         column ''ended_at'' SqlTimestampTz True None,
         column ''duration_minutes'' SqlFloat True None]
        [''id''] [foreign_key ''sessions_user_id_fkey'' [''user_id''] ''users'' [''id''] Cascade] [(''sessions_room_name_key'', [''room_name''])]),
       CreateIndex ''sessions'' (index ''ix_sessions_user_id'' [Col ''user_id''] False None)],
     mg_downgrade = [DropIndex ''sessions'' ''ix_sessions_user_id'',
       DropTable ''sessions'']\<rparr>"

definition m_a1b2c3d4e5f6 :: migration where
  "m_a1b2c3d4e5f6 = \<lparr>mg_revision = ''a1b2c3d4e5f6'', mg_down_revision = Some ''fc233850563a'',
     mg_upgrade = [CreateTable (new_table ''vocabulary_entries''
        [column ''id'' SqlInteger False None,
         column ''user_id'' SqlInteger False None,
         column ''session_id'' SqlInteger True None,
         column ''word'' (SqlString 120) False None,
         column ''phonetic'' (SqlString 200) False (Some []),
         column ''translation'' (SqlString 300) False (Some []),
         column ''example'' SqlText False (Some []),
         column ''status'' (SqlString 16) False (Some ''review''),
         column ''created_at'' SqlTimestampTz False (Some ''now()'')]
        [''id''] [foreign_key ''vocabulary_entries_user_id_fkey'' [''user_id''] ''users'' [''id''] Cascade, foreign_key ''vocabulary_entries_session_id_fkey'' [''session_id''] ''sessions'' [''id''] SetNull] [(''uq_vocabulary_user_word'', [''user_id'', ''word''])]),
       CreateIndex ''vocabulary_entries'' (index ''ix_vocabulary_entries_user_id'' [Col ''user_id''] False None)],
     mg_downgrade = [DropIndex ''vocabulary_entries'' ''ix_vocabulary_entries_user_id'',
       DropTable ''vocabulary_entries'']\<rparr>"

definition m_a4b5c6d7e8f9 :: migration where
  "m_a4b5c6d7e8f9 = \<lparr>mg_revision = ''a4b5c6d7e8f9'', mg_down_revision = Some ''22c153382454'',
     mg_upgrade = [Execute CloseExtraSessions,
       CreateIndex ''sessions'' (index ''uq_sessions_one_active_per_user'' [Col ''user_id''] True (Some (IsNull ''ended_at'')))],
     mg_downgrade = [DropIndex ''sessions'' ''uq_sessions_one_active_per_user'']\<rparr>"

definition m_a580567ea83a :: migration where
  "m_a580567ea83a = \<lparr>mg_revision = ''a580567ea83a'', mg_down_revision = Some ''4c4cd5d33301'',
     mg_upgrade = [CreateTable (new_table ''refresh_tokens''
        [column ''id'' SqlInteger False None,
         column ''user_id'' SqlInteger False None,
         column ''token_hash'' (SqlString 64) False None,
         column ''expires_at'' SqlTimestampTz False None,
         column ''revoked_at'' SqlTimestampTz True None,
         column ''created_at'' SqlTimestampTz False (Some ''now()'')]
        [''id''] [foreign_key ''refresh_tokens_user_id_fkey'' [''user_id''] ''users'' [''id''] Cascade] []),
       CreateIndex ''refresh_tokens'' (index ''ix_refresh_tokens_token_hash'' [Col ''token_hash''] True None),
       CreateIndex ''refresh_tokens'' (index ''ix_refresh_tokens_user_id'' [Col ''user_id''] False None)],
     mg_downgrade = [DropIndex ''refresh_tokens'' ''ix_refresh_tokens_user_id'',
       DropIndex ''refresh_tokens'' ''ix_refresh_tokens_token_hash'',
       DropTable ''refresh_tokens'']\<rparr>"

definition m_a7b8c9d0e1f2 :: migration where
  "m_a7b8c9d0e1f2 = \<lparr>mg_revision = ''a7b8c9d0e1f2'', mg_down_revision = Some ''f6a7b8c9d0e1'',
     mg_upgrade = [AlterColumn ''idempotency_keys'' ''response'' (Some True) (Some None)],
     mg_downgrade = [Execute BackfillResponses,
       AlterColumn ''idempotency_keys'' ''response'' (Some False) (Some (Some []))]\<rparr>"

definition m_b2c3d4e5f6a7 :: migration where
  "m_b2c3d4e5f6a7 = \<lparr>mg_revision = ''b2c3d4e5f6a7'', mg_down_revision = Some ''a1b2c3d4e5f6'',
     mg_upgrade = [CreateTable (new_table ''review_items''
        [column ''id'' SqlInteger False None,
         column ''user_id'' SqlInteger False None,
         column ''error_type'' (SqlString 40) False None,
         column ''latest_correction'' SqlText False (Some []),
         column ''stage'' SqlInteger False (Some ''0''),
         column ''clean_streak'' SqlInteger False (Some ''0''),
         column ''status'' (SqlString 16) False (Some ''due''),
         column ''next_review_at'' SqlTimestampTz True None,
         column ''updated_at'' SqlTimestampTz False (Some ''now()'')]
        [''id''] [foreign_key ''review_items_user_id_fkey'' [''user_id''] ''users'' [''id''] Cascade] [(''uq_review_user_error_type'', [''user_id'', ''error_type''])]),
       CreateIndex ''review_items'' (index ''ix_review_items_user_id'' [Col ''user_id''] False None)],
     mg_downgrade = [DropIndex ''review_items'' ''ix_review_items_user_id'',
       DropTable ''review_items'']\<rparr>"

definition m_b5c6d7e8f9a0 :: migration where
  "m_b5c6d7e8f9a0 = \<lparr>mg_revision = ''b5c6d7e8f9a0'', mg_down_revision = Some ''a4b5c6d7e8f9'',
     mg_upgrade = [AddColumn ''users'' (column ''reset_token_hash'' (SqlString 64) True None),
       AddColumn ''users'' (column ''reset_token_expires_at'' SqlTimestampTz True None),
       CreateUnique ''users'' ''users_reset_token_hash_key'' [''reset_token_hash'']],
     mg_downgrade = [DropConstraint ''users'' ''users_reset_token_hash_key'',
       DropColumn ''users'' ''reset_token_expires_at'',
       DropColumn ''users'' ''reset_token_hash'']\<rparr>"

definition m_b8c9d0e1f2a3 :: migration where
  "m_b8c9d0e1f2a3 = \<lparr>mg_revision = ''b8c9d0e1f2a3'', mg_down_revision = Some ''a7b8c9d0e1f2'',
     mg_upgrade = [Execute DropDuplicateActivations,
       CreateIndex ''analytics_events'' (index ''uq_analytics_activation_per_user'' [Col ''user_id''] True (Some (Equals ''name'' ''activation'')))],
     mg_downgrade = [DropIndex ''analytics_events'' ''uq_analytics_activation_per_user'']\<rparr>"

definition m_b9ee2fa53721 :: migration where
  "m_b9ee2fa53721 = \<lparr>mg_revision = ''b9ee2fa53721'', mg_down_revision = Some ''eea2e957ec48'',
     mg_upgrade = [CreateIndex ''vocabulary_entries'' (index ''ix_vocabulary_entries_session_id'' [Col ''session_id''] False None)],
     mg_downgrade = [DropIndex ''vocabulary_entries'' ''ix_vocabulary_entries_session_id'']\<rparr>"

definition m_ba64d112828d :: migration where
  "m_ba64d112828d = \<lparr>mg_revision = ''ba64d112828d'', mg_down_revision = Some ''1aca44166335'',
     mg_upgrade = [CreateTable (new_table ''debriefs''
        [column ''id'' SqlInteger False None,
         column ''session_id'' SqlInteger False None,
         column ''cefr_estimate'' (SqlString 2) False None,
         column ''summary'' SqlText False None,
         column ''errors'' SqlJsonb False None,
         column ''created_at'' SqlTimestampTz False (Some ''now()'')]
        [''id''] [foreign_key ''debriefs_session_id_fkey'' [''session_id''] ''sessions'' [''id''] Cascade] []),
       CreateIndex ''debriefs'' (index ''ix_debriefs_session_id'' [Col ''session_id''] True None)],
     mg_downgrade = [DropIndex ''debriefs'' ''ix_debriefs_session_id'',
       DropTable ''debriefs'']\<rparr>"

definition m_c1d2e3f4a5b6 :: migration where
  "m_c1d2e3f4a5b6 = \<lparr>mg_revision = ''c1d2e3f4a5b6'', mg_down_revision = Some ''b8c9d0e1f2a3'',
     mg_upgrade = [Execute LowercaseEmails,
       CreateIndex ''users'' (index ''uq_users_email_lower'' [Lower ''email''] True None)],
     mg_downgrade = [DropIndex ''users'' ''uq_users_email_lower'']\<rparr>"

definition m_c3d4e5f6a7b8 :: migration where
  "m_c3d4e5f6a7b8 = \<lparr>mg_revision = ''c3d4e5f6a7b8'', mg_down_revision = Some ''b2c3d4e5f6a7'',
     mg_upgrade = [AddColumn ''users'' (column ''current_streak'' SqlInteger False (Some ''0'')),
       AddColumn ''users'' (column ''longest_streak'' SqlInteger False (Some ''0'')),
       AddColumn ''users'' (column ''last_active_date'' SqlDate True None),
       AddColumn ''users'' (column ''weekly_goal_minutes'' SqlInteger False (Some ''30''))],
     mg_downgrade = [DropColumn ''users'' ''weekly_goal_minutes'',
       DropColumn ''users'' ''last_active_date'',
       DropColumn ''users'' ''longest_streak'',
       DropColumn ''users'' ''current_streak'']\<rparr>"

definition m_c680843e1e0a :: migration where
  "m_c680843e1e0a = \<lparr>mg_revision = ''c680843e1e0a'', mg_down_revision = Some ''fed9f2ac9d04'',
     mg_upgrade = [CreateTable (new_table ''learner_profiles''
        [column ''user_id'' SqlInteger False None,
         column ''interests'' SqlJsonb False None,
         column ''goal'' (SqlString 500) True None,
         column ''correction_intensity'' (SqlString 16) False None,
         column ''accent'' (SqlString 8) False None]
        [''user_id''] [foreign_key ''learner_profiles_user_id_fkey'' [''user_id''] ''users'' [''id''] Cascade] [])],
     mg_downgrade = [DropTable ''learner_profiles'']\<rparr>"

definition m_d2e3f4a5b6c7 :: migration where
  "m_d2e3f4a5b6c7 = \<lparr>mg_revision = ''d2e3f4a5b6c7'', mg_down_revision = Some ''c1d2e3f4a5b6'',
     mg_upgrade = [AddColumn ''users'' (column ''is_active'' SqlBoolean False (Some ''true''))],
     mg_downgrade = [DropColumn ''users'' ''is_active'']\<rparr>"

definition m_d4e5f6a7b8c9 :: migration where
  "m_d4e5f6a7b8c9 = \<lparr>mg_revision = ''d4e5f6a7b8c9'', mg_down_revision = Some ''c3d4e5f6a7b8'',
     mg_upgrade = [CreateTable (new_table ''voice_consents''
        [column ''id'' SqlInteger False None,
         column ''user_id'' SqlInteger False None,
         column ''transcription'' SqlBoolean False (Some ''true''),
         column ''scoring'' SqlBoolean False (Some ''false''),
         column ''b2b_share'' SqlBoolean False (Some ''false''),
         column ''model_training'' SqlBoolean False (Some ''false''),
         column ''updated_at'' SqlTimestampTz False (Some ''now()'')]
        [''id''] [foreign_key ''voice_consents_user_id_fkey'' [''user_id''] ''users'' [''id''] Cascade] [(''uq_voice_consent_user'', [''user_id''])]),
       CreateIndex ''voice_consents'' (index ''ix_voice_consents_user_id'' [Col ''user_id''] False None)],
     mg_downgrade = [DropIndex ''voice_consents'' ''ix_voice_consents_user_id'',
       DropTable ''voice_consents'']\<rparr>"

definition m_e5f6a7b8c9d0 :: migration where
  "m_e5f6a7b8c9d0 = \<lparr>mg_revision = ''e5f6a7b8c9d0'', mg_down_revision = Some ''d4e5f6a7b8c9'',
     mg_upgrade = [CreateTable (new_table ''idempotency_keys''
        [column ''id'' SqlInteger False None,
         column ''user_id'' SqlInteger False None,
         column ''key'' (SqlString 80) False None,
         column ''response'' SqlText False (Some []),
         column ''created_at'' SqlTimestampTz False (Some ''now()'')]
        [''id''] [foreign_key ''idempotency_keys_user_id_fkey'' [''user_id''] ''users'' [''id''] Cascade] [(''uq_idempotency_user_key'', [''user_id'', ''key''])]),
       CreateIndex ''idempotency_keys'' (index ''ix_idempotency_keys_user_id'' [Col ''user_id''] False None)],
     mg_downgrade = [DropIndex ''idempotency_keys'' ''ix_idempotency_keys_user_id'',
       DropTable ''idempotency_keys'']\<rparr>"

definition m_eea2e957ec48 :: migration where
  "m_eea2e957ec48 = \<lparr>mg_revision = ''eea2e957ec48'', mg_down_revision = Some ''f2a1b0c9d8e7'',
     mg_upgrade = [DropIndex ''review_items'' ''ix_review_items_user_id'',
       CreateIndex ''review_items'' (index ''ix_review_items_user_id_next_review_at'' [Col ''user_id'', Col ''next_review_at''] False None)],
     mg_downgrade = [DropIndex ''review_items'' ''ix_review_items_user_id_next_review_at'',
       CreateIndex ''review_items'' (index ''ix_review_items_user_id'' [Col ''user_id''] False None)]\<rparr>"

definition m_f2a1b0c9d8e7 :: migration where
  "m_f2a1b0c9d8e7 = \<lparr>mg_revision = ''f2a1b0c9d8e7'', mg_down_revision = Some ''1a2b3c4d5e6f'',
     mg_upgrade = [DropColumn ''sessions'' ''room_name''],
     mg_downgrade = [AddColumn ''sessions'' (column ''room_name'' (SqlString 80) False None),
       CreateUnique ''sessions'' ''sessions_room_name_key'' [''room_name'']]\<rparr>"

definition m_f3a4b2c1d0e9 :: migration where
  "m_f3a4b2c1d0e9 = \<lparr>mg_revision = ''f3a4b2c1d0e9'', mg_down_revision = Some ''ba64d112828d'',
     mg_upgrade = [AddColumn ''learner_profiles'' (column ''memory_summary'' SqlText False (Some [])),
       AlterColumn ''learner_profiles'' ''memory_summary'' None (Some None)],
     mg_downgrade = [DropColumn ''learner_profiles'' ''memory_summary'']\<rparr>"

definition m_f6a7b8c9d0e1 :: migration where
  "m_f6a7b8c9d0e1 = \<lparr>mg_revision = ''f6a7b8c9d0e1'', mg_down_revision = Some ''e5f6a7b8c9d0'',
     mg_upgrade = [CreateTable (new_table ''analytics_events''
        [column ''id'' SqlInteger False None,
         column ''name'' (SqlString 60) False None,
         column ''user_id'' SqlInteger False None,
         column ''properties'' SqlJsonb False (Some ''{}''),
         column ''created_at'' SqlTimestampTz False (Some ''now()'')]
        [''id''] [foreign_key ''analytics_events_user_id_fkey'' [''user_id''] ''users'' [''id''] Cascade] []),
       CreateIndex ''analytics_events'' (index ''ix_analytics_events_name'' [Col ''name''] False None),
       CreateIndex ''analytics_events'' (index ''ix_analytics_events_user_id'' [Col ''user_id''] False None),
       CreateIndex ''analytics_events'' (index ''ix_analytics_events_created_at'' [Col ''created_at''] False None)],
     mg_downgrade = [DropIndex ''analytics_events'' ''ix_analytics_events_created_at'',
       DropIndex ''analytics_events'' ''ix_analytics_events_user_id'',
       DropIndex ''analytics_events'' ''ix_analytics_events_name'',
       DropTable ''analytics_events'']\<rparr>"

definition m_fb4423db1c92 :: migration where
  "m_fb4423db1c92 = \<lparr>mg_revision = ''fb4423db1c92'', mg_down_revision = Some ''f3a4b2c1d0e9'',
     mg_upgrade = [CreateTable (new_table ''missions''
        [column ''id'' SqlInteger False None,
         column ''user_id'' SqlInteger False None,
         column ''source_type'' (SqlString 16) False None,
         column ''persona'' SqlText False None,
         column ''goal'' SqlText False None,
         column ''likely_questions'' SqlJsonb False None,
         column ''system_prompt'' SqlText False None,
         column ''created_at'' SqlTimestampTz False (Some ''now()'')]
        [''id''] [foreign_key ''missions_user_id_fkey'' [''user_id''] ''users'' [''id''] Cascade] []),
       CreateIndex ''missions'' (index ''ix_missions_user_id'' [Col ''user_id''] False None),
       AddColumn ''sessions'' (column ''mission_id'' SqlInteger True None),
       CreateIndex ''sessions'' (index ''ix_sessions_mission_id'' [Col ''mission_id''] False None),
       CreateForeignKey ''sessions'' (foreign_key ''fk_sessions_mission_id_missions'' [''mission_id''] ''missions'' [''id''] SetNull)],
     mg_downgrade = [DropConstraint ''sessions'' ''fk_sessions_mission_id_missions'',
       DropIndex ''sessions'' ''ix_sessions_mission_id'',
       DropColumn ''sessions'' ''mission_id'',
       DropIndex ''missions'' ''ix_missions_user_id'',
       DropTable ''missions'']\<rparr>"

definition m_fc233850563a :: migration where
  "m_fc233850563a = \<lparr>mg_revision = ''fc233850563a'', mg_down_revision = Some ''02cf10ba6ab7'',
     mg_upgrade = [AddColumn ''sessions'' (column ''last_activity_at'' SqlTimestampTz False (Some ''now()''))],
     mg_downgrade = [DropColumn ''sessions'' ''last_activity_at'']\<rparr>"

definition m_fed9f2ac9d04 :: migration where
  "m_fed9f2ac9d04 = \<lparr>mg_revision = ''fed9f2ac9d04'', mg_down_revision = None,
     mg_upgrade = [CreateTable (new_table ''users''
        [column ''id'' SqlInteger False None,
         column ''email'' (SqlString 320) False None,
         column ''hashed_password'' (SqlString 255) False None,
         column ''native_language'' (SqlString 8) False None,
         column ''cefr_level'' (SqlString 2) False None,
         column ''tier'' (SqlString 16) False None,
         column ''quota_date'' SqlDate True None,
         column ''minutes_used_today'' SqlFloat False None,
         column ''created_at'' SqlTimestampTz False (Some ''now()'')]
        [''id''] [] []),
       CreateIndex ''users'' (index ''ix_users_email'' [Col ''email''] True None)],
     mg_downgrade = [DropIndex ''users'' ''ix_users_email'',
       DropTable ''users'']\<rparr>"

text \<open>The directory, in the order of its file names.\<close>

definition VERSIONS :: "migration list" where
  "VERSIONS = [m_02cf10ba6ab7, m_1a2b3c4d5e6f, m_1aca44166335, m_22c153382454, m_4c4cd5d33301, m_a1b2c3d4e5f6, m_a4b5c6d7e8f9,
     m_a580567ea83a, m_a7b8c9d0e1f2, m_b2c3d4e5f6a7, m_b5c6d7e8f9a0, m_b8c9d0e1f2a3, m_b9ee2fa53721, m_ba64d112828d,
     m_c1d2e3f4a5b6, m_c3d4e5f6a7b8, m_c680843e1e0a, m_d2e3f4a5b6c7, m_d4e5f6a7b8c9, m_e5f6a7b8c9d0, m_eea2e957ec48,
     m_f2a1b0c9d8e7, m_f3a4b2c1d0e9, m_f6a7b8c9d0e1, m_fb4423db1c92, m_fc233850563a, m_fed9f2ac9d04]"

text \<open>Following \<open>down_revision\<close> from the base; every migration is visited at most once.\<close>

fun migration_chain :: "nat \<Rightarrow> migration list \<Rightarrow> string option \<Rightarrow> migration list" where
  "migration_chain 0 ms cur = []"
| "migration_chain (Suc n) ms cur = (case find (\<lambda>m. mg_down_revision m = cur) ms of
      None \<Rightarrow> [] | Some m \<Rightarrow> m # migration_chain n ms (Some (mg_revision m)))"

definition history_of :: "migration list \<Rightarrow> migration list" where
  "history_of ms = migration_chain (length ms) ms None"

fun upgrade_all :: "(string \<Rightarrow> bool) \<Rightarrow> migration list \<Rightarrow> schema \<Rightarrow> ddl_error + schema" where
  "upgrade_all filled [] s = Inr s"
| "upgrade_all filled (m # ms) s = (case apply_all filled (mg_upgrade m) s of Inl e \<Rightarrow> Inl e | Inr s' \<Rightarrow> upgrade_all filled ms s')"

section \<open>The tables of the models\<close>

definition AnalyticsEventRow_table :: sql_table where
  "AnalyticsEventRow_table = (new_table ''analytics_events''
     [column ''id'' SqlInteger False None,
      column ''name'' (SqlString 60) False None,
      column ''user_id'' SqlInteger False None,
      column ''properties'' SqlJsonb False None,
      column ''created_at'' SqlTimestampTz False (Some ''now()'')]
     [''id''] [foreign_key ''analytics_events_user_id_fkey'' [''user_id''] ''users'' [''id''] Cascade] [])\<lparr>tb_indexes := [index ''ix_analytics_events_name'' [Col ''name''] False None, index ''ix_analytics_events_user_id'' [Col ''user_id''] False None, index ''ix_analytics_events_created_at'' [Col ''created_at''] False None, index ''uq_analytics_activation_per_user'' [Col ''user_id''] True (Some (Equals ''name'' ''activation''))]\<rparr>"

definition User_table :: sql_table where
  "User_table = (new_table ''users''
     [column ''id'' SqlInteger False None,
      column ''email'' (SqlString 320) False None,
      column ''hashed_password'' (SqlString 255) False None,
      column ''native_language'' (SqlString 8) False None,
      column ''cefr_level'' (SqlString 2) False None,
      column ''tier'' (SqlString 16) False None,
      column ''is_admin'' SqlBoolean False None,
      column ''is_active'' SqlBoolean False None,
      column ''quota_date'' SqlDate True None,
      column ''minutes_used_today'' SqlFloat False None,
      column ''current_streak'' SqlInteger False None,
      column ''longest_streak'' SqlInteger False None,
      column ''last_active_date'' SqlDate True None,
      column ''weekly_goal_minutes'' SqlInteger False None,
      column ''reset_token_hash'' (SqlString 64) True None,
      column ''reset_token_expires_at'' SqlTimestampTz True None,
      column ''created_at'' SqlTimestampTz False (Some ''now()'')]
     [''id''] [] [(''users_reset_token_hash_key'', [''reset_token_hash''])])\<lparr>tb_indexes := [index ''ix_users_email'' [Col ''email''] True None, index ''uq_users_email_lower'' [Lower ''email''] True None]\<rparr>"

definition RefreshToken_table :: sql_table where
  "RefreshToken_table = (new_table ''refresh_tokens''
     [column ''id'' SqlInteger False None,
      column ''user_id'' SqlInteger False None,
      column ''token_hash'' (SqlString 64) False None,
      column ''expires_at'' SqlTimestampTz False None,
      column ''revoked_at'' SqlTimestampTz True None,
      column ''created_at'' SqlTimestampTz False (Some ''now()'')]
     [''id''] [foreign_key ''refresh_tokens_user_id_fkey'' [''user_id''] ''users'' [''id''] Cascade] [])\<lparr>tb_indexes := [index ''ix_refresh_tokens_user_id'' [Col ''user_id''] False None, index ''ix_refresh_tokens_token_hash'' [Col ''token_hash''] True None, index ''ix_refresh_tokens_expires_at'' [Col ''expires_at''] False None]\<rparr>"

definition Transcript_table :: sql_table where
  "Transcript_table = (new_table ''transcripts''
     [column ''id'' SqlInteger False None,
      column ''session_id'' SqlInteger False None,
      column ''turns'' SqlJsonb False None,
      column ''created_at'' SqlTimestampTz False (Some ''now()'')]
     [''id''] [foreign_key ''transcripts_session_id_fkey'' [''session_id''] ''sessions'' [''id''] Cascade] [])\<lparr>tb_indexes := [index ''ix_transcripts_session_id'' [Col ''session_id''] True None]\<rparr>"

definition Debrief_table :: sql_table where
  "Debrief_table = (new_table ''debriefs''
     [column ''id'' SqlInteger False None,
      column ''session_id'' SqlInteger False None,
      column ''cefr_estimate'' (SqlString 2) False None,
      column ''summary'' SqlText False None,
      column ''errors'' SqlJsonb False None,
      column ''created_at'' SqlTimestampTz False (Some ''now()'')]
     [''id''] [foreign_key ''debriefs_session_id_fkey'' [''session_id''] ''sessions'' [''id''] Cascade] [])\<lparr>tb_indexes := [index ''ix_debriefs_session_id'' [Col ''session_id''] True None]\<rparr>"

definition IdempotencyKey_table :: sql_table where
  "IdempotencyKey_table = (new_table ''idempotency_keys''
     [column ''id'' SqlInteger False None,
      column ''user_id'' SqlInteger False None,
      column ''key'' (SqlString 80) False None,
      column ''response'' SqlText True None,
      column ''created_at'' SqlTimestampTz False (Some ''now()'')]
     [''id''] [foreign_key ''idempotency_keys_user_id_fkey'' [''user_id''] ''users'' [''id''] Cascade] [(''uq_idempotency_user_key'', [''user_id'', ''key''])])\<lparr>tb_indexes := [index ''ix_idempotency_keys_user_id'' [Col ''user_id''] False None, index ''ix_idempotency_keys_created_at'' [Col ''created_at''] False None]\<rparr>"

definition Mission_table :: sql_table where
  "Mission_table = (new_table ''missions''
     [column ''id'' SqlInteger False None,
      column ''user_id'' SqlInteger False None,
      column ''source_type'' (SqlString 16) False None,
      column ''persona'' SqlText False None,
      column ''goal'' SqlText False None,
      column ''likely_questions'' SqlJsonb False None,
      column ''system_prompt'' SqlText False None,
      column ''created_at'' SqlTimestampTz False (Some ''now()'')]
     [''id''] [foreign_key ''missions_user_id_fkey'' [''user_id''] ''users'' [''id''] Cascade] [])\<lparr>tb_indexes := [index ''ix_missions_user_id'' [Col ''user_id''] False None]\<rparr>"

definition LearnerProfile_table :: sql_table where
  "LearnerProfile_table = (new_table ''learner_profiles''
     [column ''user_id'' SqlInteger False None,
      column ''interests'' SqlJsonb False None,
      column ''goal'' (SqlString 500) True None,
      column ''memory_summary'' SqlText False None,
      column ''correction_intensity'' (SqlString 16) False None,
      column ''accent'' (SqlString 8) False None]
     [''user_id''] [foreign_key ''learner_profiles_user_id_fkey'' [''user_id''] ''users'' [''id''] Cascade] [])\<lparr>tb_indexes := []\<rparr>"

definition ReviewItem_table :: sql_table where
  "ReviewItem_table = (new_table ''review_items''
     [column ''id'' SqlInteger False None,
      column ''user_id'' SqlInteger False None,
      column ''error_type'' (SqlString 40) False None,
      column ''latest_correction'' SqlText False None,
      column ''stage'' SqlInteger False None,
      column ''clean_streak'' SqlInteger False None,
      column ''status'' (SqlString 16) False None,
      column ''next_review_at'' SqlTimestampTz True None,
      column ''updated_at'' SqlTimestampTz False (Some ''now()'')]
     [''id''] [foreign_key ''review_items_user_id_fkey'' [''user_id''] ''users'' [''id''] Cascade] [(''uq_review_user_error_type'', [''user_id'', ''error_type''])])\<lparr>tb_indexes := [index ''ix_review_items_user_id_next_review_at'' [Col ''user_id'', Col ''next_review_at''] False None]\<rparr>"

definition ConversationSession_table :: sql_table where
  "ConversationSession_table = (new_table ''sessions''
     [column ''id'' SqlInteger False None,
      column ''user_id'' SqlInteger False None,
      column ''mode'' (SqlString 16) False None,
      column ''scenario_id'' (SqlString 64) True None,
      column ''mission_id'' SqlInteger True None,
      column ''voice_engine'' (SqlString 16) False None,
      column ''started_at'' SqlTimestampTz False (Some ''now()''),
      column ''last_activity_at'' SqlTimestampTz False (Some ''now()''),
      column ''ended_at'' SqlTimestampTz True None,
      column ''duration_minutes'' SqlFloat True None]
     [''id''] [foreign_key ''sessions_user_id_fkey'' [''user_id''] ''users'' [''id''] Cascade, foreign_key ''sessions_mission_id_fkey'' [''mission_id''] ''missions'' [''id''] SetNull] [])\<lparr>tb_indexes := [index ''ix_sessions_mission_id'' [Col ''mission_id''] False None, index ''ix_sessions_user_id_started_at'' [Col ''user_id'', Col ''started_at''] False None, index ''uq_sessions_one_active_per_user'' [Col ''user_id''] True (Some (IsNull ''ended_at''))]\<rparr>"

definition VocabularyEntry_table :: sql_table where
  "VocabularyEntry_table = (new_table ''vocabulary_entries''
     [column ''id'' SqlInteger False None,
      column ''user_id'' SqlInteger False None,
      column ''session_id'' SqlInteger True None,
      column ''word'' (SqlString 120) False None,
      column ''phonetic'' (SqlString 200) False None,
      column ''translation'' (SqlString 300) False None,
      column ''example'' SqlText False None,
      column ''status'' (SqlString 16) False None,
      column ''created_at'' SqlTimestampTz False (Some ''now()'')]
     [''id''] [foreign_key ''vocabulary_entries_user_id_fkey'' [''user_id''] ''users'' [''id''] Cascade, foreign_key ''vocabulary_entries_session_id_fkey'' [''session_id''] ''sessions'' [''id''] SetNull] [(''uq_vocabulary_user_word'', [''user_id'', ''word''])])\<lparr>tb_indexes := [index ''ix_vocabulary_entries_user_id'' [Col ''user_id''] False None, index ''ix_vocabulary_entries_session_id'' [Col ''session_id''] False None]\<rparr>"

definition VoiceConsent_table :: sql_table where
  "VoiceConsent_table = (new_table ''voice_consents''
     [column ''id'' SqlInteger False None,
      column ''user_id'' SqlInteger False None,
      column ''transcription'' SqlBoolean False (Some ''true''),
      column ''scoring'' SqlBoolean False (Some ''false''),
      column ''b2b_share'' SqlBoolean False (Some ''false''),
      column ''model_training'' SqlBoolean False (Some ''false''),
      column ''updated_at'' SqlTimestampTz False (Some ''now()'')]
     [''id''] [foreign_key ''voice_consents_user_id_fkey'' [''user_id''] ''users'' [''id''] Cascade] [(''uq_voice_consent_user'', [''user_id''])])\<lparr>tb_indexes := [index ''ix_voice_consents_user_id'' [Col ''user_id''] False None]\<rparr>"

definition MODELS :: schema where
  "MODELS = [AnalyticsEventRow_table, User_table, RefreshToken_table, Transcript_table, Debrief_table, IdempotencyKey_table, Mission_table, LearnerProfile_table, ReviewItem_table, ConversationSession_table, VocabularyEntry_table, VoiceConsent_table]"


section \<open>The history and the models\<close>

definition same_elems :: "'a list \<Rightarrow> 'a list \<Rightarrow> bool" where
  "same_elems xs ys \<longleftrightarrow> list_all (\<lambda>x. x \<in> set ys) xs \<and> list_all (\<lambda>y. y \<in> set xs) ys"

text \<open>Two tables agree up to the order of their parts.\<close>

definition same_table :: "sql_table \<Rightarrow> sql_table \<Rightarrow> bool" where
  "same_table t u \<longleftrightarrow> t = u \<or> tb_name t = tb_name u \<and> same_elems (tb_columns t) (tb_columns u) \<and> tb_primary_key t = tb_primary_key u
     \<and> same_elems (tb_foreign_keys t) (tb_foreign_keys u) \<and> same_elems (tb_uniques t) (tb_uniques u) \<and> same_elems (tb_indexes t) (tb_indexes u)"

definition same_schema :: "schema \<Rightarrow> schema \<Rightarrow> bool" where
  "same_schema s u \<longleftrightarrow> length s = length u \<and> list_all (\<lambda>t. list_ex (same_table t) u) s"

text \<open>A model declares neither the defaults of the server nor the names of foreign keys.\<close>

definition declared :: "sql_table \<Rightarrow> sql_table" where
  "declared t = t\<lparr>tb_columns := map (\<lambda>c. c\<lparr>co_default := None\<rparr>) (tb_columns t),
     tb_foreign_keys := map (\<lambda>k. k\<lparr>fk_name := []\<rparr>) (tb_foreign_keys t)\<rparr>"

text \<open>Upgrading and downgrading again, at every step of a history.\<close>

definition round_trip :: "(string \<Rightarrow> bool) \<Rightarrow> migration \<Rightarrow> schema \<Rightarrow> bool" where
  "round_trip filled m s = (case apply_all filled (mg_upgrade m) s of
      Inl e \<Rightarrow> False
    | Inr s' \<Rightarrow> (case apply_all filled (mg_downgrade m) s' of Inl e \<Rightarrow> False | Inr s'' \<Rightarrow> same_schema s s''))"

fun round_trips :: "(string \<Rightarrow> bool) \<Rightarrow> migration list \<Rightarrow> schema \<Rightarrow> bool list" where
  "round_trips filled [] s = []"
| "round_trips filled (m # ms) s = round_trip filled m s #
     (case apply_all filled (mg_upgrade m) s of Inl e \<Rightarrow> [] | Inr s' \<Rightarrow> round_trips filled ms s')"

text \<open>Only a mandatory column without a default depends on the rows of a table.\<close>

fun bare :: "ddl \<Rightarrow> string list" where
  "bare (AddColumn n c) = (if \<not> co_nullable c \<and> co_default c = None then [n] else [])"
| "bare _ = []"

lemma apply_ddl_cong: "\<forall>n \<in> set (bare x). filled n = filled' n \<Longrightarrow> apply_ddl filled x s = apply_ddl filled' x s"
  by (cases x) (auto simp: on_table_def split: option.split)

lemma apply_all_cong:
  "\<forall>n \<in> set (concat (map bare xs)). filled n = filled' n \<Longrightarrow> apply_all filled xs s = apply_all filled' xs s"
proof (induction xs arbitrary: s)
  case (Cons x xs)
  have "apply_ddl filled x s = apply_ddl filled' x s" by (rule apply_ddl_cong) (use Cons.prems in auto)
  then show ?case using Cons by (auto split: sum.split)
qed simp

lemma apply_all_no_bare: "concat (map bare xs) = [] \<Longrightarrow> apply_all filled xs s = apply_all filled' xs s"
  by (rule apply_all_cong) simp

lemma upgrade_all_no_bare:
  "list_all (\<lambda>m. concat (map bare (mg_upgrade m)) = []) ms \<Longrightarrow> upgrade_all filled ms s = upgrade_all filled' ms s"
proof (induction ms arbitrary: s)
  case (Cons m ms)
  have "apply_all filled (mg_upgrade m) s = apply_all filled' (mg_upgrade m) s" by (rule apply_all_no_bare) (use Cons.prems in simp)
  then show ?case using Cons by (auto split: sum.split)
qed simp

lemma round_trips_no_bare:
  assumes "list_all (\<lambda>m. concat (map bare (mg_upgrade m)) = []) ms"
  shows "list_all (\<lambda>(m, ok, ok'). (\<forall>n \<in> set (concat (map bare (mg_downgrade m))). \<not> filled n) \<longrightarrow> ok = ok')
    (zip ms (zip (round_trips filled ms s) (round_trips (\<lambda>_. False) ms s)))"
  using assms
proof (induction ms arbitrary: s)
  case (Cons m ms)
  have up: "apply_all filled (mg_upgrade m) s = apply_all (\<lambda>_. False) (mg_upgrade m) s" for s
    by (rule apply_all_no_bare) (use Cons.prems in simp)
  have "round_trip filled m s = round_trip (\<lambda>_. False) m s" if "\<forall>n \<in> set (concat (map bare (mg_downgrade m))). \<not> filled n"
    using that apply_all_cong [of "mg_downgrade m" filled "\<lambda>_. False"] by (auto simp: round_trip_def up split: sum.split)
  then show ?case using Cons by (auto simp: up split: sum.split)
qed simp

lemma round_trips_append:
  "upgrade_all filled ms s = Inr s' \<Longrightarrow> round_trips filled (ms @ ns) s = round_trips filled ms s @ round_trips filled ns s'"
  by (induction ms arbitrary: s) (auto split: sum.split_asm)


abbreviation first_part :: "migration list" where
  "first_part \<equiv> [m_fed9f2ac9d04, m_c680843e1e0a, m_4c4cd5d33301, m_a580567ea83a, m_1aca44166335, m_ba64d112828d, m_f3a4b2c1d0e9,
     m_fb4423db1c92, m_02cf10ba6ab7, m_fc233850563a, m_a1b2c3d4e5f6, m_b2c3d4e5f6a7, m_c3d4e5f6a7b8]"

abbreviation second_part :: "migration list" where
  "second_part \<equiv> [m_d4e5f6a7b8c9, m_e5f6a7b8c9d0, m_f6a7b8c9d0e1, m_a7b8c9d0e1f2, m_b8c9d0e1f2a3, m_c1d2e3f4a5b6, m_d2e3f4a5b6c7,
     m_1a2b3c4d5e6f]"

abbreviation third_part :: "migration list" where
  "third_part \<equiv> [m_f2a1b0c9d8e7, m_eea2e957ec48, m_b9ee2fa53721, m_22c153382454, m_a4b5c6d7e8f9, m_b5c6d7e8f9a0]"

lemma revisions:
  "mg_revision m_fed9f2ac9d04 = ''fed9f2ac9d04''" "mg_down_revision m_fed9f2ac9d04 = None"
  "mg_revision m_c680843e1e0a = ''c680843e1e0a''" "mg_down_revision m_c680843e1e0a = Some ''fed9f2ac9d04''"
  "mg_revision m_4c4cd5d33301 = ''4c4cd5d33301''" "mg_down_revision m_4c4cd5d33301 = Some ''c680843e1e0a''"
  "mg_revision m_a580567ea83a = ''a580567ea83a''" "mg_down_revision m_a580567ea83a = Some ''4c4cd5d33301''"
  "mg_revision m_1aca44166335 = ''1aca44166335''" "mg_down_revision m_1aca44166335 = Some ''a580567ea83a''"
  "mg_revision m_ba64d112828d = ''ba64d112828d''" "mg_down_revision m_ba64d112828d = Some ''1aca44166335''"
  "mg_revision m_f3a4b2c1d0e9 = ''f3a4b2c1d0e9''" "mg_down_revision m_f3a4b2c1d0e9 = Some ''ba64d112828d''"
  "mg_revision m_fb4423db1c92 = ''fb4423db1c92''" "mg_down_revision m_fb4423db1c92 = Some ''f3a4b2c1d0e9''"
  "mg_revision m_02cf10ba6ab7 = ''02cf10ba6ab7''" "mg_down_revision m_02cf10ba6ab7 = Some ''fb4423db1c92''"
  "mg_revision m_fc233850563a = ''fc233850563a''" "mg_down_revision m_fc233850563a = Some ''02cf10ba6ab7''"
  "mg_revision m_a1b2c3d4e5f6 = ''a1b2c3d4e5f6''" "mg_down_revision m_a1b2c3d4e5f6 = Some ''fc233850563a''"
  "mg_revision m_b2c3d4e5f6a7 = ''b2c3d4e5f6a7''" "mg_down_revision m_b2c3d4e5f6a7 = Some ''a1b2c3d4e5f6''"
  "mg_revision m_c3d4e5f6a7b8 = ''c3d4e5f6a7b8''" "mg_down_revision m_c3d4e5f6a7b8 = Some ''b2c3d4e5f6a7''"
  "mg_revision m_d4e5f6a7b8c9 = ''d4e5f6a7b8c9''" "mg_down_revision m_d4e5f6a7b8c9 = Some ''c3d4e5f6a7b8''"
  "mg_revision m_e5f6a7b8c9d0 = ''e5f6a7b8c9d0''" "mg_down_revision m_e5f6a7b8c9d0 = Some ''d4e5f6a7b8c9''"
  "mg_revision m_f6a7b8c9d0e1 = ''f6a7b8c9d0e1''" "mg_down_revision m_f6a7b8c9d0e1 = Some ''e5f6a7b8c9d0''"
  "mg_revision m_a7b8c9d0e1f2 = ''a7b8c9d0e1f2''" "mg_down_revision m_a7b8c9d0e1f2 = Some ''f6a7b8c9d0e1''"
  "mg_revision m_b8c9d0e1f2a3 = ''b8c9d0e1f2a3''" "mg_down_revision m_b8c9d0e1f2a3 = Some ''a7b8c9d0e1f2''"
  "mg_revision m_c1d2e3f4a5b6 = ''c1d2e3f4a5b6''" "mg_down_revision m_c1d2e3f4a5b6 = Some ''b8c9d0e1f2a3''"
  "mg_revision m_d2e3f4a5b6c7 = ''d2e3f4a5b6c7''" "mg_down_revision m_d2e3f4a5b6c7 = Some ''c1d2e3f4a5b6''"
  "mg_revision m_1a2b3c4d5e6f = ''1a2b3c4d5e6f''" "mg_down_revision m_1a2b3c4d5e6f = Some ''d2e3f4a5b6c7''"
  "mg_revision m_f2a1b0c9d8e7 = ''f2a1b0c9d8e7''" "mg_down_revision m_f2a1b0c9d8e7 = Some ''1a2b3c4d5e6f''"
  "mg_revision m_eea2e957ec48 = ''eea2e957ec48''" "mg_down_revision m_eea2e957ec48 = Some ''f2a1b0c9d8e7''"
  "mg_revision m_b9ee2fa53721 = ''b9ee2fa53721''" "mg_down_revision m_b9ee2fa53721 = Some ''eea2e957ec48''"
  "mg_revision m_22c153382454 = ''22c153382454''" "mg_down_revision m_22c153382454 = Some ''b9ee2fa53721''"
  "mg_revision m_a4b5c6d7e8f9 = ''a4b5c6d7e8f9''" "mg_down_revision m_a4b5c6d7e8f9 = Some ''22c153382454''"
  "mg_revision m_b5c6d7e8f9a0 = ''b5c6d7e8f9a0''" "mg_down_revision m_b5c6d7e8f9a0 = Some ''a4b5c6d7e8f9''"
  by (simp_all add: m_fed9f2ac9d04_def m_c680843e1e0a_def m_4c4cd5d33301_def m_a580567ea83a_def m_1aca44166335_def m_ba64d112828d_def
    m_f3a4b2c1d0e9_def m_fb4423db1c92_def m_02cf10ba6ab7_def m_fc233850563a_def m_a1b2c3d4e5f6_def m_b2c3d4e5f6a7_def
    m_c3d4e5f6a7b8_def m_d4e5f6a7b8c9_def m_e5f6a7b8c9d0_def m_f6a7b8c9d0e1_def m_a7b8c9d0e1f2_def m_b8c9d0e1f2a3_def
    m_c1d2e3f4a5b6_def m_d2e3f4a5b6c7_def m_1a2b3c4d5e6f_def m_f2a1b0c9d8e7_def m_eea2e957ec48_def m_b9ee2fa53721_def
    m_22c153382454_def m_a4b5c6d7e8f9_def m_b5c6d7e8f9a0_def)

lemma history: "history_of VERSIONS = first_part @ second_part @ third_part"
  by (simp add: history_of_def VERSIONS_def revisions)

definition rows_none :: "string \<Rightarrow> bool" where
  "rows_none n = False"

lemma upgrades_not_bare: "list_all (\<lambda>m. concat (map bare (mg_upgrade m)) = []) (first_part @ second_part @ third_part)"
  by code_simp

lemma downgrades_bare:
  "list_all (\<lambda>m. concat (map bare (mg_downgrade m)) = [] \<or> mg_revision m = ''f2a1b0c9d8e7'' \<and> concat (map bare (mg_downgrade m)) = [''sessions''])
    (first_part @ second_part @ third_part)"
  by code_simp

lemma length_round_trips: "upgrade_all filled ms s = Inr s' \<Longrightarrow> length (round_trips filled ms s) = length ms"
  by (induction ms arbitrary: s) (auto split: sum.split_asm)

lemma round_trips_exceptions:
  assumes up: "upgrade_all filled ms s = Inr s1" "upgrade_all rows_none ms s = Inr s2"
    and "list_all (\<lambda>m. concat (map bare (mg_upgrade m)) = []) ms" "list_all id (round_trips rows_none ms s)"
    and "list_all (\<lambda>m. concat (map bare (mg_downgrade m)) = [] \<or> mg_revision m = r \<and> concat (map bare (mg_downgrade m)) = [n]) ms"
  shows "list_all (\<lambda>(m, ok). ok \<or> mg_revision m = r \<and> filled n) (zip ms (round_trips filled ms s))"
proof -
  have none: "rows_none = (\<lambda>_. False)" by (simp add: fun_eq_iff rows_none_def)
  note len = length_round_trips [OF up(1)] length_round_trips [OF up(2)]
  have "round_trips filled ms s ! i \<or> mg_revision (ms ! i) = r \<and> filled n" if i: "i < length ms" for i
  proof -
    let ?b = "concat (map bare (mg_downgrade (ms ! i)))"
    have "(\<forall>k \<in> set ?b. \<not> filled k) \<longrightarrow> round_trips filled ms s ! i = round_trips rows_none ms s ! i"
      using round_trips_no_bare [OF assms(3), of filled s] i len unfolding none list_all_length by auto
    moreover have "round_trips rows_none ms s ! i" using assms(4) i len(2) unfolding list_all_length by simp
    moreover have "?b = [] \<or> mg_revision (ms ! i) = r \<and> ?b = [n]" using assms(5) i unfolding list_all_length by blast
    ultimately show ?thesis by fastforce
  qed
  then show ?thesis using len by (simp add: list_all_length)
qed

text \<open>The evaluation of the history, in three parts.\<close>

lemma trips_first: "list_all id (round_trips rows_none first_part [])"
  by code_simp

lemma trips_second: "case upgrade_all rows_none first_part [] of Inl e \<Rightarrow> False | Inr s \<Rightarrow> list_all id (round_trips rows_none second_part s)"
  by code_simp

lemma trips_third: "case upgrade_all rows_none (first_part @ second_part) [] of Inl e \<Rightarrow> False | Inr s \<Rightarrow> list_all id (round_trips rows_none third_part s)"
  by code_simp

lemma history_reaches_models:
  "case upgrade_all rows_none (first_part @ second_part @ third_part) [] of Inl e \<Rightarrow> False
     | Inr s \<Rightarrow> same_schema (map declared s) (map declared MODELS)"
  by code_simp


section \<open>Statements that rewrite rows\<close>

text \<open>Of the sessions a user has in progress all but the newest are ended now, with the minutes since their start.\<close>

definition newer_active :: "conv_session \<Rightarrow> conv_session \<Rightarrow> bool" where
  "newer_active extra keeper \<longleftrightarrow> cs_ended_at extra = None \<and> cs_ended_at keeper = None \<and> cs_user_id extra = cs_user_id keeper
     \<and> (cs_started_at extra < cs_started_at keeper \<or> cs_started_at extra = cs_started_at keeper \<and> cs_id extra < cs_id keeper)"

definition close_extra_sessions :: "instant \<Rightarrow> conv_session list \<Rightarrow> conv_session list" where
  "close_extra_sessions now ss = update_where (\<lambda>s. list_ex (newer_active s) ss)
     (\<lambda>s. s\<lparr>cs_ended_at := Some now, cs_duration_minutes := Some (max 0 (of_int (now - cs_started_at s) / of_int us_per_second / 60))\<rparr>) ss"

text \<open>Of the activations of a user all but the earliest are deleted; a row's place stands for its key.\<close>

definition drop_duplicate_activations :: "analytics_event list \<Rightarrow> analytics_event list" where
  "drop_duplicate_activations es = map snd (filter (\<lambda>(i, a). \<not> (ae_name a = EVENT_ACTIVATION \<and>
     list_ex (\<lambda>(j, b). ae_name b = EVENT_ACTIVATION \<and> ae_user_id a = ae_user_id b \<and> j < i) (enumerate 0 es))) (enumerate 0 es))"

text \<open>The unique index of the addresses refuses two that become equal.\<close>

definition lowercase_emails :: "user list \<Rightarrow> error + user list" where
  "lowercase_emails us = (let us' = map (\<lambda>u. if u_email u \<noteq> py_lower (u_email u) then u\<lparr>u_email := py_lower (u_email u)\<rparr> else u) us
     in if distinct (map u_email us') then Inr us' else Inl (IntegrityErr ''ix_users_email''))"

definition backfill_responses :: "idempotency_key list \<Rightarrow> idempotency_key list" where
  "backfill_responses ks = update_where (\<lambda>k. ik_response k = None) (\<lambda>k. k\<lparr>ik_response := Some []\<rparr>) ks"

lemma newest_active:
  assumes "s \<in> set ss" "cs_ended_at s = None"
  shows "\<exists>k \<in> set ss. cs_ended_at k = None \<and> cs_user_id k = cs_user_id s \<and> \<not> list_ex (newer_active k) ss
    \<and> (cs_started_at s, cs_id s) \<le> (cs_started_at k, cs_id k)"
proof -
  let ?A = "{k \<in> set ss. cs_ended_at k = None \<and> cs_user_id k = cs_user_id s}" and ?f = "\<lambda>k. (cs_started_at k, cs_id k)"
  have fin: "finite (?f ` ?A)" "?f ` ?A \<noteq> {}" using assms by auto
  obtain k where k: "k \<in> ?A" "Max (?f ` ?A) = ?f k" using Max_in [OF fin] by auto
  have max: "?f x \<le> ?f k" if "x \<in> ?A" for x using Max_ge [OF fin(1), of "?f x"] that k(2) by auto
  have "\<not> list_ex (newer_active k) ss"
    using k(1) max by (fastforce simp: list_ex_iff newer_active_def)
  then show ?thesis using k(1) max [of s] assms by auto
qed

lemma one_active_left:
  assumes "unique_on cs_id ss"
  shows "unique_on cs_user_id (filter (\<lambda>s. cs_ended_at s = None) (close_extra_sessions now ss))"
proof -
  let ?q = "\<lambda>s. cs_ended_at s = None \<and> \<not> list_ex (newer_active s) ss"
  have "filter (\<lambda>s. cs_ended_at s = None) (update_where p (\<lambda>s. s\<lparr>cs_ended_at := Some now, cs_duration_minutes := m s\<rparr>) rs)
      = filter (\<lambda>s. cs_ended_at s = None \<and> \<not> p s) rs" for p m and rs :: "conv_session list"
    by (induction rs) auto
  then have left: "filter (\<lambda>s. cs_ended_at s = None) (close_extra_sessions now ss) = filter ?q ss"
    by (simp add: close_extra_sessions_def)
  have ids: "distinct ss" "inj_on cs_id (set ss)" using assms by (auto simp: unique_on_def distinct_map)
  have "inj_on cs_user_id (set (filter ?q ss))"
  proof (rule inj_onI)
    fix s k assume "s \<in> set (filter ?q ss)" "k \<in> set (filter ?q ss)" "cs_user_id s = cs_user_id k"
    then have in_ss: "s \<in> set ss" "k \<in> set ss" and "\<not> newer_active s k" "\<not> newer_active k s" "cs_ended_at s = None" "cs_ended_at k = None"
      and "cs_user_id s = cs_user_id k" by (auto simp: list_ex_iff)
    then have "cs_id s = cs_id k" by (auto simp: newer_active_def not_less)
    then show "s = k" using ids(2) in_ss by (auto dest: inj_onD)
  qed
  then show ?thesis using ids(1) unfolding left by (simp add: unique_on_def distinct_map)
qed

lemma drop_duplicate_activations_snoc:
  "drop_duplicate_activations (es @ [x]) = drop_duplicate_activations es
    @ (if ae_name x = EVENT_ACTIVATION \<and> list_ex (is_activation (ae_user_id x)) es then [] else [x])"
proof -
  let ?dup = "\<lambda>es (i, a). ae_name a = EVENT_ACTIVATION \<and>
     list_ex (\<lambda>(j, b). ae_name b = EVENT_ACTIVATION \<and> ae_user_id a = ae_user_id b \<and> j < i) (enumerate 0 es)"
  have early: "?dup (es @ [x]) p = ?dup es p" if row: "p \<in> set (enumerate 0 es)" for p
  proof -
    obtain i a where p: "p = (i, a)" "i < length es" using row unfolding in_set_enumerate_eq by (cases p) simp
    then show ?thesis by (simp add: enumerate_append_eq)
  qed
  have "?dup (es @ [x]) (length es, x) \<longleftrightarrow> ae_name x = EVENT_ACTIVATION \<and> list_ex (is_activation (ae_user_id x)) es"
  proof -
    have "list_ex (\<lambda>(j, b). P b \<and> j < length es) (enumerate 0 es) \<longleftrightarrow> list_ex P (map snd (enumerate 0 es))" for P
    proof -
      have "fst p < length es" if "p \<in> set (enumerate 0 es)" for p using that unfolding in_set_enumerate_eq by simp
      then show ?thesis unfolding list_ex_iff set_map by (simp add: case_prod_unfold)
    qed
    from this [of "is_activation (ae_user_id x)"] show ?thesis
      by (simp add: enumerate_append_eq is_activation_def eq_commute conj_assoc)
  qed
  moreover have "filter (\<lambda>p. \<not> ?dup (es @ [x]) p) (enumerate 0 es) = filter (\<lambda>p. \<not> ?dup es p) (enumerate 0 es)"
    by (rule filter_cong) (simp_all only: early refl)
  ultimately show ?thesis unfolding drop_duplicate_activations_def enumerate_append_eq [of 0 es "[x]"]
    by (auto simp: case_prod_unfold)
qed

lemma first_activation_left:
  "filter (is_activation uid) (drop_duplicate_activations es) = take 1 (filter (is_activation uid) es)"
proof (induction es rule: rev_induct)
  case (snoc x es)
  have ex: "list_ex (is_activation uid) es \<longleftrightarrow> filter (is_activation uid) es \<noteq> []" by (auto simp: list_ex_iff filter_empty_conv)
  have x: "is_activation uid x \<longleftrightarrow> ae_name x = EVENT_ACTIVATION \<and> ae_user_id x = uid" by (rule is_activation_def)
  show ?case using snoc ex x
    by (cases "filter (is_activation uid) es"; cases "is_activation uid x") (auto simp: drop_duplicate_activations_snoc)
qed (simp add: drop_duplicate_activations_def)

lemma find_hd_filter: "find P xs = (if filter P xs = [] then None else Some (hd (filter P xs)))"
  by (induction xs) auto

lemma other_events_left:
  "filter (\<lambda>a. ae_name a \<noteq> EVENT_ACTIVATION) (drop_duplicate_activations es) = filter (\<lambda>a. ae_name a \<noteq> EVENT_ACTIVATION) es"
  by (induction es rule: rev_induct) (auto simp: drop_duplicate_activations_snoc, simp add: drop_duplicate_activations_def)

text \<open>C18: The statements that rewrite rows establish what the constraints behind them, and the code, rely on. After the first
  no user has two sessions in progress, whatever the table held: each user who had one keeps the newest, and no other
  session is touched. After the second every user has at most one activation, the earliest, and all other events remain.
  The third either leaves pairwise distinct lower-case addresses or, where two accounts differ in case only, fails and
  changes nothing.\<close>

theorem data_migrations_establish_invariants:
  assumes "session_table.keys_ok d"
  shows "sessions_ok (d\<lparr>sessions := close_extra_sessions now (sessions d)\<rparr>)
    \<and> (\<forall>s \<in> set (sessions d). cs_ended_at s = None \<longrightarrow> (\<exists>k \<in> set (close_extra_sessions now (sessions d)).
         cs_ended_at k = None \<and> cs_user_id k = cs_user_id s \<and> (cs_started_at s, cs_id s) \<le> (cs_started_at k, cs_id k)))
    \<and> list_all2 (\<lambda>s s'. s' = s \<or> cs_ended_at s = None \<and> cs_ended_at s' = Some now \<and> cs_id s' = cs_id s \<and> cs_user_id s' = cs_user_id s)
        (sessions d) (close_extra_sessions now (sessions d))
    \<and> activated_once (d\<lparr>analytics := drop_duplicate_activations (analytics d)\<rparr>)
    \<and> (\<forall>uid. find (is_activation uid) (drop_duplicate_activations (analytics d)) = find (is_activation uid) (analytics d))
    \<and> filter (\<lambda>a. ae_name a \<noteq> EVENT_ACTIVATION) (drop_duplicate_activations (analytics d)) = filter (\<lambda>a. ae_name a \<noteq> EVENT_ACTIVATION) (analytics d)
    \<and> (case lowercase_emails (users d) of
         Inl e \<Rightarrow> \<not> distinct (map (py_lower \<circ> u_email) (users d))
       | Inr us \<Rightarrow> map u_email us = map (py_lower \<circ> u_email) (users d) \<and> distinct (map u_email us))"
proof (intro conjI ballI allI impI)
  let ?ss = "close_extra_sessions now (sessions d)"
  have unique: "unique_on cs_id (sessions d)" using assms by (rule session_table.keys_ok_unique)
  show "sessions_ok (d\<lparr>sessions := ?ss\<rparr>)"
    using assms one_active_left [OF unique, of now]
    by (auto simp: sessions_ok_def session_table.keys_ok_def close_extra_sessions_def unique_on_def map_update_where elim!: in_update_whereE)
  show "\<exists>k \<in> set ?ss. cs_ended_at k = None \<and> cs_user_id k = cs_user_id s \<and> (cs_started_at s, cs_id s) \<le> (cs_started_at k, cs_id k)"
    if s: "s \<in> set (sessions d)" "cs_ended_at s = None" for s
  proof -
    obtain k where k: "k \<in> set (sessions d)" "cs_ended_at k = None" "cs_user_id k = cs_user_id s" "\<not> list_ex (newer_active k) (sessions d)"
      "(cs_started_at s, cs_id s) \<le> (cs_started_at k, cs_id k)" using newest_active [OF s] by blast
    have "k \<in> set ?ss" using k(1, 4) by (force simp: close_extra_sessions_def update_where_def)
    then show ?thesis using k by blast
  qed
  show "list_all2 (\<lambda>s s'. s' = s \<or> cs_ended_at s = None \<and> cs_ended_at s' = Some now \<and> cs_id s' = cs_id s \<and> cs_user_id s' = cs_user_id s)
      (sessions d) ?ss"
    by (auto simp: close_extra_sessions_def update_where_def list_all2_conv_all_nth list_ex_iff newer_active_def)
  show "activated_once (d\<lparr>analytics := drop_duplicate_activations (analytics d)\<rparr>)"
    by (simp add: activated_once_def first_activation_left)
  show "find (is_activation uid) (drop_duplicate_activations (analytics d)) = find (is_activation uid) (analytics d)" for uid
    unfolding find_hd_filter first_activation_left by simp
  show "filter (\<lambda>a. ae_name a \<noteq> EVENT_ACTIVATION) (drop_duplicate_activations (analytics d)) = filter (\<lambda>a. ae_name a \<noteq> EVENT_ACTIVATION) (analytics d)"
    by (rule other_events_left)
  let ?us = "map (\<lambda>u. if u_email u \<noteq> py_lower (u_email u) then u\<lparr>u_email := py_lower (u_email u)\<rparr> else u) (users d)"
  have eq: "map u_email ?us = map (py_lower \<circ> u_email) (users d)" by simp
  show "case lowercase_emails (users d) of
         Inl e \<Rightarrow> \<not> distinct (map (py_lower \<circ> u_email) (users d))
       | Inr us \<Rightarrow> map u_email us = map (py_lower \<circ> u_email) (users d) \<and> distinct (map u_email us)"
  proof (cases "distinct (map u_email ?us)")
    case True
    then have "lowercase_emails (users d) = Inr ?us" unfolding lowercase_emails_def Let_def by (rule if_P)
    then show ?thesis using True unfolding eq by (simp only: sum.case eq simp_thms)
  next
    case False
    then have "lowercase_emails (users d) = Inl (IntegrityErr ''ix_users_email'')" unfolding lowercase_emails_def Let_def by (rule if_not_P)
    then show ?thesis using False unfolding eq by (simp only: sum.case simp_thms)
  qed
qed

definition demo_two_active :: db where
  "demo_two_active = demo_started\<lparr>sessions := [created_session demo_cfg (\<lambda>_. 0) 1 ''free'' None None 1,
     created_session demo_cfg (\<lambda>_. 5) 1 ''free'' None None 2], seq_sessions := 3\<rparr>"

theorem data_migrations_establish_invariants_witness:
  "\<not> sessions_ok demo_two_active \<and> sessions_ok (demo_two_active\<lparr>sessions := close_extra_sessions 9 (sessions demo_two_active)\<rparr>)
   \<and> map cs_ended_at (close_extra_sessions 9 (sessions demo_two_active)) = [Some 9, None]"
proof -
  have k: "session_table.keys_ok demo_two_active"
    by (simp add: session_table.keys_ok_def demo_two_active_def unique_on_def created_session_def)
  have n: "\<not> sessions_ok demo_two_active"
    by (simp add: sessions_ok_def demo_two_active_def unique_on_def created_session_def)
  have e: "map cs_ended_at (close_extra_sessions 9 (sessions demo_two_active)) = [Some 9, None]"
    by (simp add: close_extra_sessions_def demo_two_active_def created_session_def newer_active_def)
  show ?thesis using n e data_migrations_establish_invariants [OF k, THEN conjunct1, of 9] by simp
qed

end
