(* ===== verification/Idempotency.thy ===== *)
theory Idempotency
  imports Store
begin

text \<open>
  Idempotency keys and the per-session turn lock (\<^verbatim>\<open>app/features/idempotency\<close>). Every
  repository call is one committed statement, so it is a function on the database; the claim is the
  \<open>INSERT ... ON CONFLICT DO UPDATE ... WHERE\<close> of the repository, whose row count tells whether
  the caller won. Interleavings of several workers are a step relation over these statements.
\<close>

section \<open>Repository\<close>

definition is_key :: "int \<Rightarrow> string \<Rightarrow> idempotency_key \<Rightarrow> bool" where
  "is_key uid key r \<longleftrightarrow> ik_user_id r = uid \<and> ik_key r = key"

definition find_key :: "int \<Rightarrow> string \<Rightarrow> db \<Rightarrow> idempotency_key option" where
  "find_key uid key d = List.find (is_key uid key) (idempotency d)"

definition lookup_key :: "int \<Rightarrow> string \<Rightarrow> db \<Rightarrow> bool \<times> string option" where
  "lookup_key uid key d = (case find_key uid key d of
     None \<Rightarrow> (False, None) | Some r \<Rightarrow> (True, ik_response r))"

definition claim :: "int \<Rightarrow> string \<Rightarrow> instant \<Rightarrow> instant \<Rightarrow> db \<Rightarrow> bool \<times> db" where
  "claim uid key stale_before now d = (case find_key uid key d of
      None \<Rightarrow> (True, idempotency_update (\<lambda>rs. rs @
        [\<lparr>ik_user_id = uid, ik_key = key, ik_response = None, ik_created_at = now\<rparr>]) d)
    | Some r \<Rightarrow> if ik_response r = None \<and> ik_created_at r < stale_before
        then (True, idempotency_update (update_where (is_key uid key) (ik_created_at_update (\<lambda>_. now))) d)
        else (False, d))"

definition complete_key :: "int \<Rightarrow> string \<Rightarrow> string \<Rightarrow> db \<Rightarrow> db" where
  "complete_key uid key response d =
     idempotency_update (update_where (is_key uid key) (ik_response_update (\<lambda>_. Some response))) d"

definition release_key :: "int \<Rightarrow> string \<Rightarrow> db \<Rightarrow> db" where
  "release_key uid key d = idempotency_update (delete_where (is_key uid key)) d"

section \<open>Service\<close>

definition STALE_CLAIM_SECONDS :: int where "STALE_CLAIM_SECONDS = 120"

abbreviation stale_us :: int where "stale_us \<equiv> STALE_CLAIM_SECONDS * us_per_second"

definition turn_lock_key :: "int \<Rightarrow> string" where
  "turn_lock_key session_id = ''turn-lock:session:'' @ py_str_int session_id"

datatype claim_outcome = CLAIMED | COMPLETED string | IN_FLIGHT

definition begin_claim :: "int \<Rightarrow> string \<Rightarrow> instant \<Rightarrow> db \<Rightarrow> claim_outcome \<times> db" where
  "begin_claim uid key now d = (case lookup_key uid key d of
      (True, Some response) \<Rightarrow> (COMPLETED response, d)
    | _ \<Rightarrow> (case claim uid key (now - stale_us) now d of
          (True, d') \<Rightarrow> (CLAIMED, d')
        | (False, d') \<Rightarrow> (case lookup_key uid key d' of
              (_, Some response) \<Rightarrow> (COMPLETED response, d') | _ \<Rightarrow> (IN_FLIGHT, d'))))"

definition conflict_retry :: error where
  "conflict_retry = DomainErr ConflictError ''This request is already being processed; retry shortly''"

text \<open>The work is a function on the database; it fails with any error.\<close>

definition run_once ::
  "int \<Rightarrow> string option \<Rightarrow> instant \<Rightarrow> (db \<Rightarrow> (error + string) \<times> db) \<Rightarrow> db \<Rightarrow> (error + string) \<times> db" where
  "run_once uid key now work d =
     (case key of None \<Rightarrow> work d
      | Some k \<Rightarrow> if k = [] then work d
          else case begin_claim uid k now d of
            (COMPLETED response, d') \<Rightarrow> (Inr response, d')
          | (IN_FLIGHT, d') \<Rightarrow> (Inl conflict_retry, d')
          | (CLAIMED, d') \<Rightarrow> (case work d' of
                (Inl e, d2) \<Rightarrow> (Inl e, release_key uid k d2)
              | (Inr result, d2) \<Rightarrow> (Inr result, complete_key uid k result d2)))"

definition acquire_turn_lock :: "int \<Rightarrow> int \<Rightarrow> instant \<Rightarrow> db \<Rightarrow> bool \<times> db" where
  "acquire_turn_lock uid session_id now d = claim uid (turn_lock_key session_id) (now - stale_us) now d"

definition release_turn_lock :: "int \<Rightarrow> int \<Rightarrow> db \<Rightarrow> db" where
  "release_turn_lock uid session_id d = release_key uid (turn_lock_key session_id) d"

section \<open>Laws of the key table\<close>

lemma find_key_SomeD: "find_key uid key d = Some r \<Longrightarrow> r \<in> set (idempotency d) \<and> is_key uid key r"
  by (auto simp: find_key_def dest: find_SomeD)

lemma find_filter_frame:
  "(\<And>r. p r \<Longrightarrow> q r) \<Longrightarrow> List.find p (filter q xs) = List.find p xs"
  by (induction xs) auto

lemma find_key_release: "find_key uid key (release_key uid' key' d)
    = (if uid' = uid \<and> key' = key then None else find_key uid key d)"
proof (cases "uid' = uid \<and> key' = key")
  case True
  then show ?thesis by (auto simp: find_key_def release_key_def delete_where_def find_None_conv)
next
  case False
  then have "\<And>r. is_key uid key r \<Longrightarrow> \<not> is_key uid' key' r" by (auto simp: is_key_def)
  then show ?thesis using False
    by (auto simp: find_key_def release_key_def delete_where_def find_filter_frame)
qed

lemma find_key_complete: "find_key uid key (complete_key uid' key' x d)
    = (if uid' = uid \<and> key' = key then map_option (ik_response_update (\<lambda>_. Some x)) (find_key uid key d)
       else find_key uid key d)"
proof -
  have "find_key uid key (complete_key uid' key' x d)
      = map_option (\<lambda>r. if is_key uid' key' r then ik_response_update (\<lambda>_. Some x) r else r) (find_key uid key d)"
    unfolding find_key_def complete_key_def by (simp add: find_update_where_same is_key_def)
  then show ?thesis
    by (cases "find_key uid key d") (auto simp: is_key_def dest: find_key_SomeD)
qed

lemma find_key_claim:
  assumes "claim uid' key' stale now d = (b, d')"
  shows "find_key uid key d' =
    (if b \<and> uid' = uid \<and> key' = key
     then Some \<lparr>ik_user_id = uid, ik_key = key, ik_response = None, ik_created_at = now\<rparr>
     else find_key uid key d)"
proof (cases "find_key uid' key' d")
  case None
  then have d': "b" "d' = idempotency_update (\<lambda>rs. rs @
      [\<lparr>ik_user_id = uid', ik_key = key', ik_response = None, ik_created_at = now\<rparr>]) d"
    using assms by (auto simp: claim_def)
  show ?thesis
  proof (cases "find_key uid key d")
    case None
    then show ?thesis using d' by (auto simp: find_key_def find_append_None is_key_def)
  next
    case (Some r)
    then show ?thesis using d' None by (auto simp: find_key_def find_append_Some)
  qed
next
  case (Some r0)
  show ?thesis
  proof (cases b)
    case False
    then show ?thesis using assms Some by (auto simp: claim_def split: if_splits)
  next
    case True
    then have pend: "ik_response r0 = None" and
      d': "d' = idempotency_update (update_where (is_key uid' key') (ik_created_at_update (\<lambda>_. now))) d"
      using assms Some by (auto simp: claim_def split: if_splits)
    have eq: "find_key uid key d' = map_option (\<lambda>r. if is_key uid' key' r then ik_created_at_update (\<lambda>_. now) r else r)
        (find_key uid key d)"
      unfolding d' find_key_def by (simp add: find_update_where_same is_key_def)
    show ?thesis
    proof (cases "uid' = uid \<and> key' = key")
      case same: True
      have "ik_created_at_update (\<lambda>_. now) r0
          = \<lparr>ik_user_id = uid, ik_key = key, ik_response = None, ik_created_at = now\<rparr>"
        using find_key_SomeD [OF Some] pend same by (cases r0) (simp add: is_key_def)
      then show ?thesis using eq same Some True find_key_SomeD [OF Some] by simp
    next
      case False
      then have "is_key uid key r \<Longrightarrow> \<not> is_key uid' key' r" for r by (auto simp: is_key_def)
      then show ?thesis using eq False find_key_SomeD [of uid key d] by (cases "find_key uid key d") auto
    qed
  qed
qed

lemma claim_wins_iff:
  "fst (claim uid key stale now d) \<longleftrightarrow>
   (case find_key uid key d of None \<Rightarrow> True
    | Some r \<Rightarrow> ik_response r = None \<and> ik_created_at r < stale)"
  by (auto simp: claim_def split: option.splits)

lemma lookup_key_eq:
  "lookup_key uid key d = (find_key uid key d \<noteq> None, Option.bind (find_key uid key d) ik_response)"
  by (auto simp: lookup_key_def split: option.splits)

section \<open>Replaying a request\<close>

text \<open>A key whose work completed: every later run returns the cached reply and touches nothing.\<close>

lemma run_once_completed:
  assumes "find_key uid key d = Some r" "ik_response r = Some x" "key \<noteq> []"
  shows "run_once uid (Some key) now work d = (Inr x, d)"
  using assms by (simp add: run_once_def begin_claim_def lookup_key_def)

text \<open>A live claim of another worker: refused, nothing runs.\<close>

lemma run_once_in_flight:
  assumes "find_key uid key d = Some r" "ik_response r = None" "now - stale_us \<le> ik_created_at r" "key \<noteq> []"
  shows "run_once uid (Some key) now work d = (Inl conflict_retry, d)"
  using assms by (simp add: run_once_def begin_claim_def lookup_key_def claim_def)

lemma run_once_claims:
  assumes "find_key uid key d = None \<or>
      (\<exists>r. find_key uid key d = Some r \<and> ik_response r = None \<and> ik_created_at r < now - stale_us)"
    and "key \<noteq> []"
  obtains d1 where "claim uid key (now - stale_us) now d = (True, d1)"
    "run_once uid (Some key) now work d = (case work d1 of
        (Inl e, d2) \<Rightarrow> (Inl e, release_key uid key d2)
      | (Inr x, d2) \<Rightarrow> (Inr x, complete_key uid key x d2))"
  using assms by (auto simp: run_once_def begin_claim_def lookup_key_def claim_def)

text \<open>C4: A keyed request takes effect once: when a run with a key succeeds, its reply is cached, and every
  replay with that key, at any later time and whatever work it would do, returns the very same reply
  without running any work and without changing the database; when the work fails, the key is free again
  and the next attempt does run.\<close>

theorem run_once_at_most_once:
  assumes "key \<noteq> []" "run_once uid (Some key) now work d = (r, d')"
    and frame: "\<And>d1 r1 d2. work d1 = (r1, d2) \<Longrightarrow> find_key uid key d2 = find_key uid key d1"
  shows "case r of
      Inr reply \<Rightarrow> (\<forall>later work'. run_once uid (Some key) later work' d' = (Inr reply, d'))
    | Inl e \<Rightarrow> e = conflict_retry \<and> d' = d \<or>
        (\<forall>later work'. \<exists>d1. run_once uid (Some key) later work' d' = (case work' d1 of
            (Inl e, d2) \<Rightarrow> (Inl e, release_key uid key d2)
          | (Inr x, d2) \<Rightarrow> (Inr x, complete_key uid key x d2)))"
proof (cases "\<exists>k. find_key uid key d = Some k \<and> (ik_response k \<noteq> None \<or> now - stale_us \<le> ik_created_at k)")
  case True
  then obtain k where k: "find_key uid key d = Some k"
      "ik_response k \<noteq> None \<or> now - stale_us \<le> ik_created_at k" by blast
  show ?thesis
  proof (cases "ik_response k")
    case None
    then show ?thesis using run_once_in_flight [OF k(1) None _ assms(1)] k(2) assms(2) by auto
  next
    case (Some x)
    then show ?thesis using run_once_completed [OF k(1) Some assms(1)] assms(2) by auto
  qed
next
  case False
  then have "find_key uid key d = None \<or>
      (\<exists>r. find_key uid key d = Some r \<and> ik_response r = None \<and> ik_created_at r < now - stale_us)"
    by (cases "find_key uid key d") auto
  then obtain d1 where c: "claim uid key (now - stale_us) now d = (True, d1)"
      "run_once uid (Some key) now work d = (case work d1 of
        (Inl e, d2) \<Rightarrow> (Inl e, release_key uid key d2)
      | (Inr x, d2) \<Rightarrow> (Inr x, complete_key uid key x d2))"
    by (rule run_once_claims [OF _ assms(1)])
  obtain r1 d2 where w: "work d1 = (r1, d2)" by force
  have f: "find_key uid key d2 = Some \<lparr>ik_user_id = uid, ik_key = key, ik_response = None, ik_created_at = now\<rparr>"
    using frame [OF w] find_key_claim [OF c(1), of uid key] by simp
  show ?thesis
  proof (cases r1)
    case (Inl e)
    then have d': "r = Inl e" "d' = release_key uid key d2" using c(2) w assms(2) by auto
    have none: "find_key uid key d' = None" by (simp add: d' find_key_release)
    have "\<exists>d1. run_once uid (Some key) later work' d' = (case work' d1 of
            (Inl e, d2) \<Rightarrow> (Inl e, release_key uid key d2)
          | (Inr x, d2) \<Rightarrow> (Inr x, complete_key uid key x d2))" for later work'
      by (rule run_once_claims [OF disjI1 [OF none] assms(1), of later work']) blast
    then show ?thesis using d' by auto
  next
    case (Inr x)
    then have d': "r = Inr x" "d' = complete_key uid key x d2" using c(2) w assms(2) by auto
    have "find_key uid key d' = Some \<lparr>ik_user_id = uid, ik_key = key, ik_response = Some x, ik_created_at = now\<rparr>"
      by (simp add: d' find_key_complete f)
    then show ?thesis using d' run_once_completed assms(1) by auto
  qed
qed

theorem run_once_at_most_once_witness:
  "\<exists>d'. run_once 1 (Some ''k'') 0 (\<lambda>d. (Inr ''hi'', d)) empty_db = (Inr ''hi'', d')
     \<and> run_once 1 (Some ''k'') 5 (\<lambda>d. (Inr ''again'', d)) d' = (Inr ''hi'', d')"
proof -
  let ?w = "\<lambda>d. (Inr ''hi'', d) :: (error + string) \<times> db"
  obtain d' where r: "run_once 1 (Some ''k'') 0 ?w empty_db = (Inr ''hi'', d')"
    by (simp add: run_once_def begin_claim_def lookup_key_def find_key_def claim_def empty_db_def)
  have "case Inr ''hi'' :: error + string of
      Inr reply \<Rightarrow> (\<forall>later work'. run_once 1 (Some ''k'') later work' d' = (Inr reply, d'))
    | Inl e \<Rightarrow> e = conflict_retry \<and> d' = empty_db \<or>
        (\<forall>later work'. \<exists>d1. run_once 1 (Some ''k'') later work' d' = (case work' d1 of
            (Inl e, d2) \<Rightarrow> (Inl e, release_key 1 ''k'' d2)
          | (Inr x, d2) \<Rightarrow> (Inr x, complete_key 1 ''k'' x d2)))"
    by (rule run_once_at_most_once [OF _ r]) auto
  then show ?thesis using r by auto
qed

section \<open>Concurrent workers\<close>

text \<open>
  Workers race for keys: a worker that wins a claim works until it completes or releases it. The clock
  does not run backwards, and it does not pass the stale delay of a claim while its worker is still at
  work: the requirement the source states on the delay (it must exceed the longest a turn can take).
\<close>

record race =
  rc_db :: db
  rc_clock :: instant
  rc_working :: "nat \<rightharpoonup> int \<times> string \<times> instant"

definition timely :: "instant \<Rightarrow> race \<Rightarrow> bool" where
  "timely now s \<longleftrightarrow> rc_clock s \<le> now \<and>
     (\<forall>w uid key since. rc_working s w = Some (uid, key, since) \<longrightarrow> now \<le> since + stale_us)"

inductive race_step :: "race \<Rightarrow> race \<Rightarrow> bool" where
  race_tick: "timely now s \<Longrightarrow> race_step s (s\<lparr>rc_clock := now\<rparr>)"
| race_claim: "rc_working s w = None \<Longrightarrow>
    claim uid key (rc_clock s - stale_us) (rc_clock s) (rc_db s) = (True, d') \<Longrightarrow>
    race_step s (s\<lparr>rc_db := d', rc_working := (rc_working s)(w \<mapsto> (uid, key, rc_clock s))\<rparr>)"
| race_lose: "claim uid key (rc_clock s - stale_us) (rc_clock s) (rc_db s) = (False, d') \<Longrightarrow>
    race_step s (s\<lparr>rc_db := d'\<rparr>)"
| race_complete: "rc_working s w = Some (uid, key, since) \<Longrightarrow>
    race_step s (s\<lparr>rc_db := complete_key uid key x (rc_db s), rc_working := (rc_working s)(w := None)\<rparr>)"
| race_release: "rc_working s w = Some (uid, key, since) \<Longrightarrow>
    race_step s (s\<lparr>rc_db := release_key uid key (rc_db s), rc_working := (rc_working s)(w := None)\<rparr>)"

inductive race_reach :: "race \<Rightarrow> bool" where
  race_init: "rc_working s = Map.empty \<Longrightarrow> race_reach s"
| race_next: "race_reach s \<Longrightarrow> race_step s s' \<Longrightarrow> race_reach s'"

definition race_inv :: "race \<Rightarrow> bool" where
  "race_inv s \<longleftrightarrow>
     (\<forall>w uid key since. rc_working s w = Some (uid, key, since) \<longrightarrow>
        since \<le> rc_clock s \<and> rc_clock s \<le> since + stale_us
        \<and> (\<exists>r. find_key uid key (rc_db s) = Some r \<and> ik_response r = None \<and> ik_created_at r = since))
     \<and> (\<forall>w w' uid key since since'. rc_working s w = Some (uid, key, since) \<longrightarrow>
        rc_working s w' = Some (uid, key, since') \<longrightarrow> w = w')"

lemma race_invD:
  assumes "race_inv s" "rc_working s w = Some (uid, key, since)"
  obtains r where "since \<le> rc_clock s" "rc_clock s \<le> since + stale_us"
    "find_key uid key (rc_db s) = Some r" "ik_response r = None" "ik_created_at r = since"
  using assms unfolding race_inv_def by blast

lemma race_inv_uniqueD:
  "race_inv s \<Longrightarrow> rc_working s w = Some (uid, key, since) \<Longrightarrow>
   rc_working s w' = Some (uid, key, since') \<Longrightarrow> w = w'"
  unfolding race_inv_def by blast

text \<open>While a worker holds a key no claim of that key wins.\<close>

lemma held_key_not_claimed:
  assumes "race_inv s" "rc_working s w = Some (uid, key, since)"
  shows "fst (claim uid key (rc_clock s - stale_us) (rc_clock s) (rc_db s)) = False"
  using assms(2) by (rule race_invD [OF assms(1)]) (simp add: claim_wins_iff)

lemma race_inv_keep:
  assumes "race_inv s" and "\<And>w v. rc_working s' w = Some v \<Longrightarrow> rc_working s w = Some v"
    and "\<And>w uid key since. rc_working s' w = Some (uid, key, since) \<Longrightarrow>
      find_key uid key (rc_db s') = find_key uid key (rc_db s)"
    and "rc_clock s \<le> rc_clock s'"
    and "\<And>w uid key since. rc_working s' w = Some (uid, key, since) \<Longrightarrow> rc_clock s' \<le> since + stale_us"
  shows "race_inv s'"
  unfolding race_inv_def
proof (intro conjI allI impI)
  fix w uid key since
  assume a: "rc_working s' w = Some (uid, key, since)"
  then have "rc_working s w = Some (uid, key, since)" by (rule assms(2))
  then obtain r where "since \<le> rc_clock s" "find_key uid key (rc_db s) = Some r" "ik_response r = None"
      "ik_created_at r = since" by (rule race_invD [OF assms(1)])
  then show "since \<le> rc_clock s'" "rc_clock s' \<le> since + stale_us"
    "\<exists>r. find_key uid key (rc_db s') = Some r \<and> ik_response r = None \<and> ik_created_at r = since"
    using assms(3-5) a by auto
next
  fix w w' uid key since since'
  assume "rc_working s' w = Some (uid, key, since)" "rc_working s' w' = Some (uid, key, since')"
  then show "w = w'" using assms(2) race_inv_uniqueD [OF assms(1)] by blast
qed

lemma race_inv_claim:
  assumes inv: "race_inv s" and w: "rc_working s w = None"
    and c: "claim uid key (rc_clock s - stale_us) (rc_clock s) (rc_db s) = (True, d')"
  shows "race_inv (s\<lparr>rc_db := d', rc_working := (rc_working s)(w \<mapsto> (uid, key, rc_clock s))\<rparr>)"
proof -
  have free: "rc_working s v \<noteq> Some (uid, key, since)" for v since
    using held_key_not_claimed [OF inv] c by force
  have pos: "0 \<le> stale_us" by (simp add: STALE_CLAIM_SECONDS_def)
  note fk = find_key_claim [OF c]
  show ?thesis unfolding race_inv_def
  proof (intro conjI allI impI)
    fix v uid' key' since
    assume a: "rc_working (s\<lparr>rc_db := d', rc_working := (rc_working s)(w \<mapsto> (uid, key, rc_clock s))\<rparr>) v
        = Some (uid', key', since)"
    have "since \<le> rc_clock s \<and> rc_clock s \<le> since + stale_us
        \<and> (\<exists>r. find_key uid' key' d' = Some r \<and> ik_response r = None \<and> ik_created_at r = since)"
    proof (cases "v = w")
      case True
      then show ?thesis using a fk [of uid' key'] pos by auto
    next
      case False
      then have b: "rc_working s v = Some (uid', key', since)" using a by simp
      then have "\<not> (uid = uid' \<and> key = key')" using free by auto
      then show ?thesis using fk [of uid' key'] b by (auto elim: race_invD [OF inv])
    qed
    then show "since \<le> rc_clock (s\<lparr>rc_db := d', rc_working := (rc_working s)(w \<mapsto> (uid, key, rc_clock s))\<rparr>)"
      "rc_clock (s\<lparr>rc_db := d', rc_working := (rc_working s)(w \<mapsto> (uid, key, rc_clock s))\<rparr>) \<le> since + stale_us"
      "\<exists>r. find_key uid' key' (rc_db (s\<lparr>rc_db := d', rc_working := (rc_working s)(w \<mapsto> (uid, key, rc_clock s))\<rparr>))
        = Some r \<and> ik_response r = None \<and> ik_created_at r = since" by auto
  next
    fix v v' uid' key' since since'
    assume "rc_working (s\<lparr>rc_db := d', rc_working := (rc_working s)(w \<mapsto> (uid, key, rc_clock s))\<rparr>) v
        = Some (uid', key', since)"
      "rc_working (s\<lparr>rc_db := d', rc_working := (rc_working s)(w \<mapsto> (uid, key, rc_clock s))\<rparr>) v'
        = Some (uid', key', since')"
    then have a: "(if v = w then Some (uid, key, rc_clock s) else rc_working s v) = Some (uid', key', since)"
      "(if v' = w then Some (uid, key, rc_clock s) else rc_working s v') = Some (uid', key', since')"
      by simp_all
    show "v = v'"
    proof (cases "v = w \<or> v' = w")
      case True
      then have "uid' = uid \<and> key' = key" using a by (cases "v = w") simp_all
      then show ?thesis using a free [of v] free [of v'] by (cases "v = w"; cases "v' = w") simp_all
    next
      case False
      then show ?thesis using a race_inv_uniqueD [OF inv, of v uid' key' since v' since'] by simp
    qed
  qed
qed

lemma race_inv_step: "race_step s s' \<Longrightarrow> race_inv s \<Longrightarrow> race_inv s'"
proof (induction rule: race_step.induct)
  case (race_tick now s)
  then show ?case by (rule_tac race_inv_keep [of s]) (auto simp: timely_def)
next
  case (race_claim s w uid key d')
  then show ?case using race_inv_claim by blast
next
  case (race_lose uid key s d')
  then show ?case
    by (rule_tac race_inv_keep [of s]) (auto simp: find_key_claim elim: race_invD)
next
  case (race_complete s w uid key since x)
  then show ?case
    by (rule_tac race_inv_keep [of s])
      (auto simp: find_key_complete split: if_splits dest: race_inv_uniqueD elim: race_invD)
next
  case (race_release s w uid key since)
  then show ?case
    by (rule_tac race_inv_keep [of s])
      (auto simp: find_key_release split: if_splits dest: race_inv_uniqueD elim: race_invD)
qed

text \<open>C13: Two concurrent replays never process the same key at the same time: in every state reached by any
  interleaving of claims, completions and releases of any number of workers, as long as each finishes
  within the stale delay, at most one worker is at work on a given key of a user, and a rival claim of a
  held key is refused.\<close>

theorem claims_exclude_each_other:
  assumes "race_reach s" "rc_working s w = Some (uid, key, since)"
  shows "fst (claim uid key (rc_clock s - stale_us) (rc_clock s) (rc_db s)) = False
    \<and> (\<forall>w' since'. rc_working s w' = Some (uid, key, since') \<longrightarrow> w' = w)"
proof -
  have "race_inv s" using assms(1)
  proof (induction rule: race_reach.induct)
    case (race_init s)
    then show ?case by (simp add: race_inv_def)
  next
    case (race_next s s')
    then show ?case using race_inv_step by blast
  qed
  then show ?thesis using held_key_not_claimed race_inv_uniqueD assms(2) by blast
qed

theorem claims_exclude_each_other_witness:
  "\<exists>s. race_reach s \<and> rc_working s 0 = Some (1, ''k'', 0)
     \<and> fst (claim 1 ''k'' (rc_clock s - stale_us) (rc_clock s) (rc_db s)) = False"
proof -
  let ?s0 = "\<lparr>rc_db = empty_db, rc_clock = 0, rc_working = Map.empty\<rparr>"
  obtain d' where c: "claim 1 ''k'' (rc_clock ?s0 - stale_us) (rc_clock ?s0) (rc_db ?s0) = (True, d')"
    by (simp add: claim_def find_key_def empty_db_def)
  let ?s1 = "?s0\<lparr>rc_db := d', rc_working := (rc_working ?s0)(0 \<mapsto> (1, ''k'', rc_clock ?s0))\<rparr>"
  have "race_step ?s0 ?s1" by (rule race_claim [OF _ c]) simp
  then have r: "race_reach ?s1" by (rule race_next [OF race_init, rotated]) simp
  have w: "rc_working ?s1 0 = Some (1, ''k'', 0)" by simp
  show ?thesis using claims_exclude_each_other [OF r w] r w by blast
qed

text \<open>The delay matters: a worker that overruns it loses the key to another, and its own release then
  frees the successor's claim, so a third worker gets in while the second is still at work.\<close>

lemma overrun_release_frees_successor:
  assumes "claim uid key (t0 - stale_us) t0 d = (True, d0)"
    and "t0 + stale_us < t1" "claim uid key (t1 - stale_us) t1 d0 = (b1, d1)"
  shows "b1 \<and> fst (claim uid key (t2 - stale_us) t2 (release_key uid key d1))"
proof -
  have "find_key uid key d0 = Some \<lparr>ik_user_id = uid, ik_key = key, ik_response = None, ik_created_at = t0\<rparr>"
    using find_key_claim [OF assms(1), of uid key] by simp
  then have "b1" using assms(2,3) claim_wins_iff [of uid key "t1 - stale_us" t1 d0] by simp
  then show ?thesis by (simp add: claim_wins_iff find_key_release)
qed

text \<open>A client key spelt like a turn lock shares its row with the lock: once such a request completed,
  the session's turn lock can never be acquired again.\<close>

lemma completed_client_key_wedges_lock:
  assumes "find_key uid (turn_lock_key sid) d = Some r"
  shows "fst (acquire_turn_lock uid sid now (complete_key uid (turn_lock_key sid) x d)) = False"
  using assms by (simp add: acquire_turn_lock_def claim_wins_iff find_key_complete)

section \<open>The turn lock\<close>

text \<open>
  The interface the turn routes rely on: a lock that is taken refuses a second caller until it is
  released, and a guarded section that always releases.
\<close>

locale section_lock =
  fixes acquire :: "'t \<Rightarrow> 's \<Rightarrow> bool \<times> 's" and release :: "'s \<Rightarrow> 's" and held :: "'t \<Rightarrow> 's \<Rightarrow> bool"
  assumes acquire_held: "held now s \<Longrightarrow> acquire now s = (False, s)"
    and acquire_free: "\<not> held now s \<Longrightarrow> \<exists>s'. acquire now s = (True, s') \<and> held now s'"
    and release_free: "\<not> held now (release s)"
begin

definition guarded :: "'t \<Rightarrow> error \<Rightarrow> ('s \<Rightarrow> (error + 'a) \<times> 's) \<Rightarrow> 's \<Rightarrow> (error + 'a) \<times> 's" where
  "guarded now busy work s = (case acquire now s of
      (False, s1) \<Rightarrow> (Inl busy, s1)
    | (True, s1) \<Rightarrow> (case work s1 of (r, s2) \<Rightarrow> (r, release s2)))"

lemma guarded_busy: "held now s \<Longrightarrow> guarded now busy work s = (Inl busy, s)"
  by (simp add: guarded_def acquire_held)

lemma guarded_frees: "\<not> held now s \<Longrightarrow> \<not> held later (snd (guarded now busy work s))"
  using acquire_free [of now s] release_free by (auto simp: guarded_def split: prod.splits)

lemma guarded_runs:
  "\<not> held now s \<Longrightarrow> \<exists>s1. held now s1 \<and> fst (guarded now busy work s) = fst (work s1)"
  using acquire_free [of now s] by (auto simp: guarded_def split: prod.splits)

end

definition turn_lock_held :: "int \<Rightarrow> int \<Rightarrow> instant \<Rightarrow> db \<Rightarrow> bool" where
  "turn_lock_held uid sid now d = (case find_key uid (turn_lock_key sid) d of None \<Rightarrow> False
     | Some r \<Rightarrow> ik_response r \<noteq> None \<or> now - stale_us \<le> ik_created_at r)"

interpretation turn_lock: section_lock
  "\<lambda>(uid, sid, now) (k, d). (case acquire_turn_lock (fst k) (snd k) now d of (b, d') \<Rightarrow> (b, (k, d')))"
  "\<lambda>(k, d). (k, release_turn_lock (fst k) (snd k) d)"
  "\<lambda>(uid, sid, now) (k, d). turn_lock_held (fst k) (snd k) now d"
proof (unfold_locales, goal_cases)
  case (1 n s)
  then show ?case
    by (auto simp: turn_lock_held_def acquire_turn_lock_def claim_def split: option.splits)
next
  case (2 n s)
  obtain uid sid now a b d where eq: "n = (uid, sid, now)" "s = ((a, b), d)"
    by (cases n, cases s) auto
  have free: "\<not> turn_lock_held a b now d" using 2 eq by simp
  obtain ok d' where c: "claim a (turn_lock_key b) (now - stale_us) now d = (ok, d')" by force
  have "ok" using free c claim_wins_iff [of a "turn_lock_key b" "now - stale_us" now d]
    by (auto simp: turn_lock_held_def split: option.splits)
  moreover have "turn_lock_held a b now d'" if ok
    using find_key_claim [OF c, of a "turn_lock_key b"] that
    by (simp add: turn_lock_held_def STALE_CLAIM_SECONDS_def)
  ultimately show ?case using c eq by (simp add: acquire_turn_lock_def)
next
  case (3 n s)
  then show ?case
    by (auto simp: turn_lock_held_def release_turn_lock_def find_key_release split: prod.splits)
qed

end
