(* ===== verification/JsonText.thy ===== *)
theory JsonText
  imports Conversation
begin

text \<open>
  JSON as text: Python's \<open>json.dumps\<close> on decoded values, and a reader that is proved to give back every value from the
  text, whatever blanks stand behind commas and colons.
\<close>

section \<open>JSON text\<close>

definition hex_digit :: "nat \<Rightarrow> char" where
  "hex_digit n = (if n < 10 then char_of (n + 48) else char_of (n + 87))"

text \<open>\<open>ensure_ascii\<close>: everything outside the printable ASCII range is escaped.\<close>

definition escape_char :: "char \<Rightarrow> string" where
  "escape_char c =
     (if c = CHR 0x22 \<or> c = CHR 0x5C then [CHR 0x5C, c]
      else if c = CHR 0x0A then [CHR 0x5C, CHR ''n''] else if c = CHR 0x0D then [CHR 0x5C, CHR ''r'']
      else if c = CHR 0x09 then [CHR 0x5C, CHR ''t''] else if c = CHR 0x0C then [CHR 0x5C, CHR ''f'']
      else if c = CHR 0x08 then [CHR 0x5C, CHR ''b'']
      else let n = of_char c :: nat in
        if 32 \<le> n \<and> n \<le> 126 then [c]
        else [CHR 0x5C, CHR ''u'', CHR ''0'', CHR ''0'', hex_digit (n div 16), hex_digit (n mod 16)])"

definition json_quote :: "string \<Rightarrow> string" where
  "json_quote t = CHR 0x22 # concat (map escape_char t) @ [CHR 0x22]"

fun dumps :: "json \<Rightarrow> string" where
  "dumps JNull = ''null''"
| "dumps (JBool b) = (if b then ''true'' else ''false'')"
| "dumps (JNum n) = n"
| "dumps (JStr t) = json_quote t"
| "dumps (JList xs) = CHR ''['' # py_join '', '' (map dumps xs) @ '']''"
| "dumps (JObj ob) = CHR ''{'' # py_join '', '' (map (\<lambda>e. json_quote (fst e) @ '': '' @ dumps (snd e)) ob) @ ''}''"

section \<open>A JSON reader\<close>

definition is_ws :: "char \<Rightarrow> bool" where
  "is_ws c \<longleftrightarrow> c = CHR '' '' \<or> c = CHR 0x09 \<or> c = CHR 0x0A \<or> c = CHR 0x0D"

definition is_num_char :: "char \<Rightarrow> bool" where
  "is_num_char c \<longleftrightarrow> is_ascii_digit c \<or> c \<in> set ''+-.eE''"

definition unhex :: "char \<Rightarrow> nat option" where
  "unhex c = (let n = of_char c :: nat in
     if 48 \<le> n \<and> n \<le> 57 then Some (n - 48) else if 97 \<le> n \<and> n \<le> 102 then Some (n - 87) else None)"

definition unescape :: "char \<Rightarrow> char option" where
  "unescape c = (if c = CHR 0x22 \<or> c = CHR 0x5C then Some c
     else if c = CHR ''n'' then Some (CHR 0x0A) else if c = CHR ''r'' then Some (CHR 0x0D)
     else if c = CHR ''t'' then Some (CHR 0x09) else if c = CHR ''f'' then Some (CHR 0x0C) else if c = CHR ''b'' then Some (CHR 0x08)
     else None)"

definition consume :: "char \<Rightarrow> (string \<times> string) option \<Rightarrow> (string \<times> string) option" where
  "consume c r = map_option (\<lambda>(t, rest). (c # t, rest)) r"

fun read_chars :: "string \<Rightarrow> (string \<times> string) option" where
  "read_chars [] = None"
| "read_chars (c # s) =
     (if c = CHR 0x22 then Some ([], s)
      else if c = CHR 0x5C then
        (case s of [] \<Rightarrow> None
         | e # s1 \<Rightarrow> if e = CHR ''u''
             then (case s1 of a # b # x # y # s2 \<Rightarrow>
                     (case (unhex a, unhex b, unhex x, unhex y) of
                        (Some 0, Some 0, Some i, Some j) \<Rightarrow> consume (char_of (16 * i + j)) (read_chars s2)
                      | _ \<Rightarrow> None)
                   | _ \<Rightarrow> None)
             else (case unescape e of None \<Rightarrow> None | Some d \<Rightarrow> consume d (read_chars s1)))
      else consume c (read_chars s))"

definition skip_ws :: "string \<Rightarrow> string" where
  "skip_ws s = dropWhile is_ws s"

definition strip_prefix :: "string \<Rightarrow> json \<Rightarrow> string \<Rightarrow> (json \<times> string) option" where
  "strip_prefix p v s = (if take (length p) s = p then Some (v, drop (length p) s) else None)"

fun read_value :: "nat \<Rightarrow> string \<Rightarrow> (json \<times> string) option"
  and read_items :: "nat \<Rightarrow> string \<Rightarrow> (json list \<times> string) option"
  and read_members :: "nat \<Rightarrow> string \<Rightarrow> ((string \<times> json) list \<times> string) option" where
  "read_value 0 s = None"
| "read_value (Suc n) s = (case skip_ws s of [] \<Rightarrow> None
    | c # r \<Rightarrow>
        if c = CHR 0x22 then map_option (\<lambda>(t, rest). (JStr t, rest)) (read_chars r)
        else if c = CHR ''['' then (case skip_ws r of [] \<Rightarrow> None
          | d # r1 \<Rightarrow> if d = CHR '']'' then Some (JList [], r1)
              else map_option (\<lambda>(xs, rest). (JList xs, rest)) (read_items n (d # r1)))
        else if c = CHR ''{'' then (case skip_ws r of [] \<Rightarrow> None
          | d # r1 \<Rightarrow> if d = CHR ''}'' then Some (JObj [], r1)
              else map_option (\<lambda>(ob, rest). (JObj ob, rest)) (read_members n (d # r1)))
        else if c = CHR ''n'' then strip_prefix ''null'' JNull (c # r)
        else if c = CHR ''t'' then strip_prefix ''true'' (JBool True) (c # r)
        else if c = CHR ''f'' then strip_prefix ''false'' (JBool False) (c # r)
        else let n = takeWhile is_num_char (c # r) in if n = [] then None else Some (JNum n, dropWhile is_num_char (c # r)))"
| "read_items 0 s = None"
| "read_items (Suc n) s = (case read_value n s of None \<Rightarrow> None
    | Some (v, r) \<Rightarrow> (case skip_ws r of [] \<Rightarrow> None
        | c # r1 \<Rightarrow> if c = CHR '']'' then Some ([v], r1)
            else if c = CHR '','' then map_option (\<lambda>(xs, rest). (v # xs, rest)) (read_items n r1) else None))"
| "read_members 0 s = None"
| "read_members (Suc n) s = (case skip_ws s of [] \<Rightarrow> None
    | q # s1 \<Rightarrow> if q \<noteq> CHR 0x22 then None
        else (case read_chars s1 of None \<Rightarrow> None
          | Some (k, s2) \<Rightarrow> (case skip_ws s2 of [] \<Rightarrow> None
              | c # s3 \<Rightarrow> if c \<noteq> CHR '':'' then None
                  else (case read_value n s3 of None \<Rightarrow> None
                    | Some (v, r) \<Rightarrow> (case skip_ws r of [] \<Rightarrow> None
                        | d # r1 \<Rightarrow> if d = CHR ''}'' then Some ([(k, v)], r1)
                            else if d = CHR '','' then map_option (\<lambda>(ob, rest). ((k, v) # ob, rest)) (read_members n r1) else None)))))"

text \<open>A document is a value with nothing but blanks behind it. Every nesting and every further element consumes a character, so
  the length of the text is fuel enough.\<close>

definition read_json :: "string \<Rightarrow> json option" where
  "read_json s = (case read_value (length s) s of Some (v, rest) \<Rightarrow> if skip_ws rest = [] then Some v else None | None \<Rightarrow> None)"

section \<open>Reading what was written\<close>

lemma is_ws_simps [simp]:
  "is_ws CHR '' ''" "\<not> is_ws CHR '',''" "\<not> is_ws CHR '':''" "\<not> is_ws CHR '']''" "\<not> is_ws CHR ''}''" "\<not> is_ws CHR 0x22"
  "\<not> is_ws CHR ''[''" "\<not> is_ws CHR ''{''" "\<not> is_ws CHR ''n''" "\<not> is_ws CHR ''t''" "\<not> is_ws CHR ''f''"
  by (simp_all add: is_ws_def)

lemma skip_ws_Cons [simp]: "skip_ws (c # s) = (if is_ws c then skip_ws s else c # s)"
  by (simp add: skip_ws_def)

lemma skip_ws_Nil [simp]: "skip_ws [] = []"
  by (simp add: skip_ws_def)

lemma unhex_hex_digit: "n < 16 \<Longrightarrow> unhex (hex_digit n) = Some n"
  by (auto simp: unhex_def hex_digit_def Let_def)

lemma unhex_0: "unhex CHR ''0'' = Some 0"
  by (simp add: unhex_def)

lemma read_escaped: "read_chars (escape_char c @ s) = consume c (read_chars s)"
proof -
  let ?n = "of_char c :: nat"
  have n: "?n div 16 < 16" "?n mod 16 < 16" using nat_of_char_less_256 [of c] by (simp_all add: less_mult_imp_div_less)
  have c: "char_of (16 * (?n div 16) + ?n mod 16) = c" by simp
  show ?thesis by (simp add: escape_char_def unescape_def unhex_0 unhex_hex_digit n c Let_def)
qed

lemma read_quoted: "read_chars (concat (map escape_char t) @ CHR 0x22 # rest) = Some (t, rest)"
  by (induction t) (simp_all add: read_escaped consume_def)

text \<open>A text \<open>t\<close> reads as \<open>v\<close> with fuel \<open>n\<close>: in front of anything that does not prolong a number, the reader returns \<open>v\<close> and stops
  behind the text.\<close>

definition reads :: "nat \<Rightarrow> string \<Rightarrow> json \<Rightarrow> bool" where
  "reads n t v \<longleftrightarrow> t \<noteq> [] \<and> \<not> is_ws (hd t) \<and> hd t \<noteq> CHR '']'' \<and>
     (\<forall>m rest. n \<le> m \<longrightarrow> (rest = [] \<or> \<not> is_num_char (hd rest)) \<longrightarrow> read_value m (t @ rest) = Some (v, rest))"

lemma readsD: "reads n t v \<Longrightarrow> n \<le> m \<Longrightarrow> \<not> is_num_char c \<Longrightarrow> read_value m (t @ c # rest) = Some (v, c # rest)"
  by (auto simp: reads_def)

lemma reads_mono: "reads n t v \<Longrightarrow> n \<le> m \<Longrightarrow> reads m t v"
  by (auto simp: reads_def)

lemma num_char_simps [simp]: "\<not> is_num_char CHR '',''" "\<not> is_num_char CHR '']''" "\<not> is_num_char CHR ''}''"
  by (simp_all add: is_num_char_def is_ascii_digit_def)

definition blanks :: "string \<Rightarrow> bool" where
  "blanks s \<longleftrightarrow> list_all is_ws s"

lemma skip_blanks: "blanks b \<Longrightarrow> skip_ws (b @ s) = skip_ws s"
  by (induction b) (auto simp: blanks_def)

lemma read_value_blanks: "blanks b \<Longrightarrow> read_value n (b @ s) = read_value n s"
  by (cases n) (simp_all add: skip_blanks)

lemma read_members_blanks: "blanks b \<Longrightarrow> read_members n (b @ s) = read_members n s"
  by (cases n) (simp_all add: skip_blanks)

lemma read_items_blanks: "blanks b \<Longrightarrow> read_items n (b @ s) = read_items n s"
  by (cases n) (simp_all add: read_value_blanks)

lemma read_items_joined:
  assumes "blanks b" "list_all2 (reads n) ts vs" "ts \<noteq> []" "n + length ts \<le> m"
  shows "read_items m (py_join (CHR '','' # b) ts @ CHR '']'' # rest) = Some (vs, rest)"
  using assms(2-)
proof (induction ts arbitrary: vs m)
  case (Cons t ts)
  obtain v us where vs: "vs = v # us" and t: "reads n t v" and us: "list_all2 (reads n) ts us"
    using Cons.prems(1) by (auto simp: list_all2_Cons1)
  obtain k where m: "m = Suc k" "n \<le> k" "n + length ts \<le> k" using Cons.prems(3) by (cases m) auto
  show ?case
  proof (cases ts)
    case Nil
    then show ?thesis using us readsD [OF t m(2), of "CHR '']''" rest] by (simp add: vs m)
  next
    case (Cons u ws)
    have "read_value k (t @ CHR '','' # b @ py_join (CHR '','' # b) ts @ CHR '']'' # rest)
        = Some (v, CHR '','' # b @ py_join (CHR '','' # b) ts @ CHR '']'' # rest)" by (rule readsD [OF t m(2)]) simp
    then show ?thesis using Cons.IH [OF us _ m(3)] Cons by (simp add: vs m read_items_blanks [OF assms(1)])
  qed
qed simp

text \<open>Members are written as a quoted key, a colon, blanks and a text of the value.\<close>

definition member_text :: "string \<Rightarrow> string \<times> string \<Rightarrow> string" where
  "member_text b e = json_quote (fst e) @ CHR '':'' # b @ snd e"

lemma read_members_joined:
  assumes "blanks b" "blanks b'" "list_all2 (\<lambda>e kv. fst e = fst kv \<and> reads n (snd e) (snd kv)) es kvs" "es \<noteq> []" "n + length es \<le> m"
  shows "read_members m (py_join (CHR '','' # b) (map (member_text b') es) @ CHR ''}'' # rest) = Some (kvs, rest)"
  using assms(3-)
proof (induction es arbitrary: kvs m)
  case (Cons e es)
  obtain k v us where kvs: "kvs = (k, v) # us" and e: "fst e = k" "reads n (snd e) v"
    and us: "list_all2 (\<lambda>e kv. fst e = fst kv \<and> reads n (snd e) (snd kv)) es us"
    using Cons.prems(1) by (auto simp: list_all2_Cons1)
  obtain j where m: "m = Suc j" "n \<le> j" "n + length es \<le> j" using Cons.prems(3) by (cases m) auto
  note step = read_quoted read_value_blanks [OF assms(2)] read_members_blanks [OF assms(1)]
  show ?case
  proof (cases es)
    case Nil
    then show ?thesis using us readsD [OF e(2) m(2), of "CHR ''}''" rest]
      by (simp add: kvs m member_text_def json_quote_def e(1) step)
  next
    case (Cons u ws)
    let ?more = "py_join (CHR '','' # b) (map (member_text b') es) @ CHR ''}'' # rest"
    have "read_value j (snd e @ CHR '','' # b @ ?more) = Some (v, CHR '','' # b @ ?more)" by (rule readsD [OF e(2) m(2)]) simp
    then show ?thesis using Cons.IH [OF us _ m(3)] Cons by (simp add: kvs m member_text_def [of b' e] json_quote_def e(1) step)
  qed
qed simp

lemma py_join_not_Nil: "list_all (\<lambda>t. t \<noteq> []) ts \<Longrightarrow> ts \<noteq> [] \<Longrightarrow> \<exists>c s. py_join sep ts = c # s \<and> c = hd (hd ts)"
  by (cases "(sep, ts)" rule: py_join.cases) (auto simp: neq_Nil_conv)

lemma reads_list:
  assumes "blanks b" "list_all2 (reads n) ts vs"
  shows "reads (Suc (n + length ts)) (CHR ''['' # py_join (CHR '','' # b) ts @ '']'') (JList vs)"
proof (cases ts)
  case Nil
  have "read_value m (''[]'' @ rest) = Some (JList [], rest)" if "0 < m" for m rest using that by (cases m) simp_all
  then show ?thesis using assms(2) Nil by (simp add: reads_def Suc_le_eq)
next
  case (Cons t us)
  obtain c s where j: "py_join (CHR '','' # b) ts = c # s" "c = hd t"
    using py_join_not_Nil [of ts "CHR '','' # b"] assms(2) by (auto simp: Cons list_all2_Cons1 reads_def list_all2_conv_all_nth list_all_length)
  have c: "\<not> is_ws c" "c \<noteq> CHR '']''" using assms(2) j(2) by (auto simp: Cons list_all2_Cons1 reads_def)
  have "read_value m ((CHR ''['' # py_join (CHR '','' # b) ts @ '']'') @ rest) = Some (JList vs, rest)" if m: "Suc (n + length ts) \<le> m" for m rest
  proof -
    obtain k where k: "m = Suc k" "n + length ts \<le> k" using m by (cases m) auto
    show ?thesis using read_items_joined [OF assms(1, 2) _ k(2), of rest] c j(1) by (simp add: k Cons)
  qed
  then show ?thesis by (simp add: reads_def)
qed

lemma reads_object:
  assumes "blanks b" "blanks b'" "list_all2 (\<lambda>e kv. fst e = fst kv \<and> reads n (snd e) (snd kv)) es kvs"
  shows "reads (Suc (n + length es)) (CHR ''{'' # py_join (CHR '','' # b) (map (member_text b') es) @ ''}'') (JObj kvs)"
proof (cases es)
  case Nil
  have "read_value m (''{}'' @ rest) = Some (JObj [], rest)" if "0 < m" for m rest using that by (cases m) simp_all
  then show ?thesis using assms(3) Nil by (simp add: reads_def Suc_le_eq)
next
  case (Cons e us)
  obtain s where j: "py_join (CHR '','' # b) (map (member_text b') es) = CHR 0x22 # s"
    using py_join_not_Nil [of "map (member_text b') es" "CHR '','' # b"] by (auto simp: Cons member_text_def json_quote_def list_all_iff)
  have "read_value m ((CHR ''{'' # py_join (CHR '','' # b) (map (member_text b') es) @ ''}'') @ rest) = Some (JObj kvs, rest)"
    if m: "Suc (n + length es) \<le> m" for m rest
  proof -
    obtain k where k: "m = Suc k" "n + length es \<le> k" using m by (cases m) auto
    show ?thesis using read_members_joined [OF assms _ k(2), of rest] j by (simp add: k Cons)
  qed
  then show ?thesis by (simp add: reads_def)
qed

text \<open>The values \<open>dumps\<close> writes faithfully: their numbers are numerals.\<close>

fun json_ok :: "json \<Rightarrow> bool" where
  "json_ok (JNum n) \<longleftrightarrow> n \<noteq> [] \<and> list_all is_num_char n"
| "json_ok (JList xs) \<longleftrightarrow> (\<forall>x \<in> set xs. json_ok x)"
| "json_ok (JObj ob) \<longleftrightarrow> (\<forall>e \<in> set ob. json_ok (snd e))"
| "json_ok v \<longleftrightarrow> True"

lemma num_char_start: "is_num_char c \<Longrightarrow> \<not> is_ws c \<and> c \<noteq> CHR '']'' \<and> c \<noteq> CHR 0x22 \<and> c \<noteq> CHR ''['' \<and> c \<noteq> CHR ''{''
    \<and> c \<noteq> CHR ''n'' \<and> c \<noteq> CHR ''t'' \<and> c \<noteq> CHR ''f''"
  by (auto simp: is_num_char_def is_ascii_digit_def is_ws_def Let_def)

lemma reads_number:
  assumes "n \<noteq> []" "list_all is_num_char n"
  shows "reads 1 n (JNum n)"
proof -
  obtain c s where n: "n = c # s" using assms(1) by (cases n) auto
  have c: "is_num_char c" using assms(2) by (simp add: n)
  have "read_value m (n @ rest) = Some (JNum n, rest)" if m: "1 \<le> m" and r: "rest = [] \<or> \<not> is_num_char (hd rest)" for m rest
  proof -
    obtain k where k: "m = Suc k" using m by (cases m) auto
    have "takeWhile is_num_char (n @ rest) = n" "dropWhile is_num_char (n @ rest) = rest"
      using assms(2) r by (cases rest; simp add: takeWhile_append dropWhile_append list_all_iff)+
    then show ?thesis using num_char_start [OF c] c by (simp add: k n)
  qed
  then show ?thesis using num_char_start [OF c] by (simp add: reads_def n)
qed

lemma reads_atoms:
  "reads 1 ''null'' JNull" "reads 1 ''true'' (JBool True)" "reads 1 ''false'' (JBool False)" "reads 1 (json_quote t) (JStr t)"
proof -
  have "read_value m (''null'' @ rest) = Some (JNull, rest)" "read_value m (''true'' @ rest) = Some (JBool True, rest)"
    "read_value m (''false'' @ rest) = Some (JBool False, rest)" "read_value m (json_quote t @ rest) = Some (JStr t, rest)" if "1 \<le> m" for m rest
    using that by (cases m; simp add: strip_prefix_def json_quote_def read_quoted)+
  then show "reads 1 ''null'' JNull" "reads 1 ''true'' (JBool True)" "reads 1 ''false'' (JBool False)" "reads 1 (json_quote t) (JStr t)"
    by (simp_all add: reads_def json_quote_def)
qed

lemma length_py_join: "length (py_join sep ts) = sum_list (map length ts) + length sep * (length ts - 1)"
  by (induction sep ts rule: py_join.induct) auto

lemma member_le_sum_list: "x \<in> set xs \<Longrightarrow> (f x :: nat) \<le> sum_list (map f xs)"
  by (induction xs) auto

lemma reads_common:
  "list_all2 (\<lambda>t v. reads (length t) t v) ts vs \<Longrightarrow> list_all2 (reads (sum_list (map length ts))) ts vs"
  by (auto simp: list_all2_conv_all_nth intro!: reads_mono [OF _ member_le_sum_list])

lemma reads_list_length:
  assumes "blanks b" "list_all2 (\<lambda>t v. reads (length t) t v) ts vs"
  shows "let text = CHR ''['' # py_join (CHR '','' # b) ts @ '']'' in reads (length text) text (JList vs)"
  unfolding Let_def by (rule reads_mono [OF reads_list [OF assms(1) reads_common [OF assms(2)]]]) (cases ts; simp add: length_py_join)

lemma members_length:
  "sum_list (map (\<lambda>e. length (snd e)) es) + 3 * length es \<le> sum_list (map (length \<circ> member_text b') es)"
  by (induction es) (auto simp: member_text_def json_quote_def)

lemma members_common:
  "list_all2 (\<lambda>e kv. fst e = fst kv \<and> reads (length (snd e)) (snd e) (snd kv)) es kvs \<Longrightarrow>
   list_all2 (\<lambda>e kv. fst e = fst kv \<and> reads (sum_list (map (\<lambda>e. length (snd e)) es)) (snd e) (snd kv)) es kvs"
  by (auto simp: list_all2_conv_all_nth intro!: reads_mono [OF _ member_le_sum_list [where f = "\<lambda>e. length (snd e)"]])

lemma reads_object_length:
  assumes "blanks b" "blanks b'" "list_all2 (\<lambda>e kv. fst e = fst kv \<and> reads (length (snd e)) (snd e) (snd kv)) es kvs"
  shows "let text = CHR ''{'' # py_join (CHR '','' # b) (map (member_text b') es) @ ''}'' in reads (length text) text (JObj kvs)"
  unfolding Let_def using members_length [of es b']
  by (intro reads_mono [OF reads_object [OF assms(1, 2) members_common [OF assms(3)]]]) (simp add: length_py_join)

text \<open>Everything \<open>dumps\<close> writes reads back, with the length of the text as fuel.\<close>

lemma reads_dumps: "json_ok v \<Longrightarrow> reads (length (dumps v)) (dumps v) v"
proof (induction v rule: dumps.induct)
  case (3 n)
  then show ?case using reads_mono [OF reads_number, of n "length n"] by (simp add: Suc_le_eq)
next
  case (5 xs)
  then have "list_all2 (\<lambda>t v. reads (length t) t v) (map dumps xs) xs" by (simp add: list_all2_conv_all_nth)
  from reads_list_length [OF _ this, of "'' ''"] show ?case by (simp add: blanks_def)
next
  case (6 ob)
  let ?t = "\<lambda>e. (fst e, dumps (snd e))"
  have "list_all2 (\<lambda>e kv. fst e = fst kv \<and> reads (length (snd e)) (snd e) (snd kv)) (map ?t ob) ob"
    using 6 by (auto simp: list_all2_conv_all_nth)
  from reads_object_length [OF _ _ this, of "'' ''" "'' ''"] show ?case by (simp add: blanks_def member_text_def comp_def)
qed (use reads_atoms in \<open>auto intro: reads_mono simp: json_quote_def Suc_le_eq\<close>)

lemma read_json_reads: "reads n t v \<Longrightarrow> n \<le> length t \<Longrightarrow> read_json t = Some v"
  by (force simp: reads_def read_json_def dest: spec [of _ "[]"])

lemma read_json_dumps: "json_ok v \<Longrightarrow> read_json (dumps v) = Some v"
  by (rule read_json_reads [OF reads_dumps]) simp_all

section \<open>Truncated text\<close>

text \<open>A list or an object whose text stops early is not read at all.\<close>

definition stuck :: "nat \<Rightarrow> string \<Rightarrow> bool" where
  "stuck n t \<longleftrightarrow> (\<forall>m \<ge> n. read_value m t = None)"

lemma read_items_cut:
  assumes "blanks b" "list_all2 (reads n) ts vs" "ts \<noteq> []" "n + length ts \<le> m"
  shows "read_items m (py_join (CHR '','' # b) ts) = None"
  using assms(2-)
proof (induction ts arbitrary: vs m)
  case (Cons t ts)
  obtain v us where t: "reads n t v" and us: "list_all2 (reads n) ts us" using Cons.prems(1) by (auto simp: list_all2_Cons1)
  obtain k where m: "m = Suc k" "n \<le> k" "n + length ts \<le> k" using Cons.prems(3) by (cases m) auto
  show ?case
  proof (cases ts)
    case Nil
    have "read_value k t = Some (v, [])" using t m(2) by (auto simp: reads_def dest: spec [of _ "[]"])
    then show ?thesis by (simp add: Nil m)
  next
    case (Cons u ws)
    have "read_value k (t @ CHR '','' # b @ py_join (CHR '','' # b) ts) = Some (v, CHR '','' # b @ py_join (CHR '','' # b) ts)"
      by (rule readsD [OF t m(2)]) simp
    then show ?thesis using Cons.IH [OF us _ m(3)] Cons by (simp add: m read_items_blanks [OF assms(1)])
  qed
qed simp

lemma stuck_list:
  assumes "blanks b" "list_all2 (reads n) ts vs"
  shows "stuck (Suc (n + length ts)) (CHR ''['' # py_join (CHR '','' # b) ts)"
proof (cases ts)
  case Nil
  have "read_value m ''['' = None" for m by (cases m) simp_all
  then show ?thesis using Nil by (simp add: stuck_def)
next
  case (Cons t us)
  obtain c s where j: "py_join (CHR '','' # b) ts = c # s" "c = hd t"
    using py_join_not_Nil [of ts "CHR '','' # b"] assms(2) by (auto simp: Cons list_all2_Cons1 reads_def list_all2_conv_all_nth list_all_length)
  have c: "\<not> is_ws c" "c \<noteq> CHR '']''" using assms(2) j(2) by (auto simp: Cons list_all2_Cons1 reads_def)
  have "read_value m (CHR ''['' # py_join (CHR '','' # b) ts) = None" if m: "Suc (n + length ts) \<le> m" for m
  proof -
    obtain k where k: "m = Suc k" "n + length ts \<le> k" using m by (cases m) auto
    show ?thesis using read_items_cut [OF assms _ k(2)] c j(1) by (simp add: k Cons)
  qed
  then show ?thesis by (simp add: stuck_def)
qed

lemma read_members_cut:
  assumes "blanks b" "blanks b'" "list_all2 (\<lambda>e kv. fst e = fst kv \<and> reads n (snd e) (snd kv)) es kvs" "stuck n t" "n + Suc (length es) \<le> m"
  shows "read_members m (py_join (CHR '','' # b) (map (member_text b') (es @ [(key, t)]))) = None"
  using assms(3, 5)
proof (induction es arbitrary: kvs m)
  case Nil
  then obtain j where "m = Suc j" "n \<le> j" by (cases m) auto
  then show ?case using assms(4)
    by (simp add: stuck_def member_text_def json_quote_def read_quoted read_value_blanks [OF assms(2)])
next
  case (Cons e es)
  obtain k v us where e: "fst e = k" "reads n (snd e) v"
    and us: "list_all2 (\<lambda>e kv. fst e = fst kv \<and> reads n (snd e) (snd kv)) es us"
    using Cons.prems(1) by (auto simp: list_all2_Cons1)
  obtain j where m: "m = Suc j" "n \<le> j" "n + Suc (length es) \<le> j" using Cons.prems(2) by (cases m) auto
  let ?more = "py_join (CHR '','' # b) (map (member_text b') (es @ [(key, t)]))"
  obtain x ys where ys: "map (member_text b') (es @ [(key, t)]) = x # ys" by (cases es) auto
  have "read_value j (snd e @ CHR '','' # b @ ?more) = Some (v, CHR '','' # b @ ?more)" by (rule readsD [OF e(2) m(2)]) simp
  then show ?case using Cons.IH [OF us m(3)] ys
    by (simp add: m member_text_def [of b' e] json_quote_def e(1) read_quoted read_value_blanks [OF assms(2)] read_members_blanks [OF assms(1)])
qed

lemma stuck_object:
  assumes "blanks b" "blanks b'" "list_all2 (\<lambda>e kv. fst e = fst kv \<and> reads n (snd e) (snd kv)) es kvs" "stuck n t"
  shows "stuck (Suc (Suc (n + length es))) (CHR ''{'' # py_join (CHR '','' # b) (map (member_text b') (es @ [(key, t)])))"
proof -
  let ?text = "py_join (CHR '','' # b) (map (member_text b') (es @ [(key, t)]))"
  obtain s where j: "?text = CHR 0x22 # s"
    using py_join_not_Nil [of "map (member_text b') (es @ [(key, t)])" "CHR '','' # b"]
    by (cases es) (auto simp: member_text_def json_quote_def list_all_iff)
  have "read_value m (CHR ''{'' # ?text) = None" if m: "Suc (Suc (n + length es)) \<le> m" for m
  proof -
    obtain k where k: "m = Suc k" "n + Suc (length es) \<le> k" using m by (cases m) auto
    show ?thesis using read_members_cut [OF assms k(2), of key] j by (simp add: k)
  qed
  then show ?thesis by (simp add: stuck_def)
qed

lemma read_json_stuck: "stuck n t \<Longrightarrow> n \<le> length t \<Longrightarrow> read_json t = None"
  by (simp add: stuck_def read_json_def)

end
