(* ===== verification/RateLimit.thy ===== *)
theory RateLimit
  imports Errors
begin

text \<open>
  Rate limiting (\<^verbatim>\<open>app/core/rate_limit.py\<close>, \<^verbatim>\<open>app/core/rate_limit_factory.py\<close>)
  and the client address it is keyed by (\<^verbatim>\<open>app/api/client_ip.py\<close>). The in-memory limiter
  keeps, in the insertion order of a Python dict, one queue of hit times per key; the Redis limiter
  counts the hits of a key in the current window with the Lua script of the module, run on a store of
  counters with an expiry (the documented behaviour of INCR and EXPIRE). The \<open>RateLimiter\<close> protocol
  is a locale that both interpret. Times are real seconds.
\<close>

definition too_many :: error where
  "too_many = DomainErr RateLimitedError ''Too many attempts, please retry later''"

definition user_rate_limit_key :: "string \<Rightarrow> int \<Rightarrow> string" where
  "user_rate_limit_key namespace uid = namespace @ '':user:'' @ py_str_int uid"

section \<open>The in-memory limiter\<close>

record limiter_cfg =
  rl_max :: nat
  rl_window :: real
  rl_max_keys :: nat

type_synonym hit_table = "(string \<times> real list) list"

text \<open>\<open>d[k] = v\<close> of an existing key keeps its place, a new key goes last.\<close>

fun dict_set :: "string \<Rightarrow> 'v \<Rightarrow> (string \<times> 'v) list \<Rightarrow> (string \<times> 'v) list" where
  "dict_set k v [] = [(k, v)]"
| "dict_set k v ((k', v') # h) = (if k' = k then (k, v) # h else (k', v') # dict_set k v h)"

definition dict_del :: "string \<Rightarrow> (string \<times> 'v) list \<Rightarrow> (string \<times> 'v) list" where
  "dict_del k h = filter (\<lambda>e. fst e \<noteq> k) h"

definition evict_expired :: "limiter_cfg \<Rightarrow> real \<Rightarrow> string \<Rightarrow> hit_table \<Rightarrow> hit_table" where
  "evict_expired cfg now key h = (case map_of h key of None \<Rightarrow> h
     | Some bucket \<Rightarrow>
         let bucket' = dropWhile (\<lambda>x. now - x > rl_window cfg) bucket
         in if bucket' = [] then dict_del key h else dict_set key bucket' h)"

definition make_room :: "limiter_cfg \<Rightarrow> string \<Rightarrow> hit_table \<Rightarrow> hit_table option" where
  "make_room cfg key h =
     (if map_of h key = None \<and> length h \<ge> rl_max_keys cfg
      then (case h of [] \<Rightarrow> None | _ # rest \<Rightarrow> Some rest) else Some h)"

text \<open>With a capacity of zero keys \<open>next(iter({}))\<close> raises \<open>StopIteration\<close>, which leaves a
  coroutine as a \<open>RuntimeError\<close>.\<close>

definition inmem_check ::
  "limiter_cfg \<Rightarrow> real \<Rightarrow> string \<Rightarrow> hit_table \<Rightarrow> (error + unit) \<times> hit_table" where
  "inmem_check cfg now key h =
     (let h1 = evict_expired cfg now key h in
      case make_room cfg key h1 of
        None \<Rightarrow> (Inl (OtherErr ''RuntimeError''), h1)
      | Some h2 \<Rightarrow>
          let bucket = (case map_of h2 key of None \<Rightarrow> [] | Some b \<Rightarrow> b);
              h3 = dict_set key bucket h2
          in if length bucket \<ge> rl_max cfg then (Inl too_many, h3)
             else (Inr (), dict_set key (bucket @ [now]) h3))"

subsection \<open>Dictionaries\<close>

lemma map_of_dict_set: "map_of (dict_set k v h) = (map_of h)(k \<mapsto> v)"
  by (induction k v h rule: dict_set.induct) (auto simp: fun_eq_iff)

lemma map_of_dict_del: "map_of (dict_del k h) = (map_of h)(k := None)"
  unfolding dict_del_def by (induction h) (auto simp: fun_eq_iff)

lemma keys_dict_set: "map fst (dict_set k v h) = (if k \<in> fst ` set h then map fst h else map fst h @ [k])"
  by (induction k v h rule: dict_set.induct) auto

lemma fst_set_dict_set: "fst ` set (dict_set k v h) = insert k (fst ` set h)"
  by (induction k v h rule: dict_set.induct) auto

lemma distinct_dict_set: "distinct (map fst h) \<Longrightarrow> distinct (map fst (dict_set k v h))"
  by (auto simp: keys_dict_set)

lemma distinct_dict_del: "distinct (map fst h) \<Longrightarrow> distinct (map fst (dict_del k h))"
  unfolding dict_del_def by (rule distinct_map_filter)

lemma length_dict_set:
  "length (dict_set k v h) = (if map_of h k = None then Suc (length h) else length h)"
  by (induction k v h rule: dict_set.induct) auto

lemma map_of_None_key: "map_of h k = None \<longleftrightarrow> k \<notin> fst ` set h"
  by (simp add: map_of_eq_None_iff)

section \<open>The Redis limiter\<close>

text \<open>A counter and the time it expires, if it has one.\<close>

type_synonym redis_store = "string \<rightharpoonup> int \<times> real option"

definition redis_live :: "real \<Rightarrow> redis_store \<Rightarrow> string \<Rightarrow> (int \<times> real option) option" where
  "redis_live now st k = (case st k of None \<Rightarrow> None
     | Some (c, e) \<Rightarrow> (case e of None \<Rightarrow> Some (c, e) | Some x \<Rightarrow> if now < x then Some (c, e) else None))"

text \<open>The script: INCR creates the counter at one, EXPIRE is set on the first hit only.\<close>

definition incr_and_expire :: "real \<Rightarrow> string \<Rightarrow> real \<Rightarrow> redis_store \<Rightarrow> int \<times> redis_store" where
  "incr_and_expire now k ttl st =
     (let (c, e) = (case redis_live now st k of None \<Rightarrow> (0, None) | Some ce \<Rightarrow> ce);
          count = c + 1
      in (count, st(k \<mapsto> (count, if count = 1 then Some (now + ttl) else e))))"

record redis_cfg =
  rc_namespace :: string
  rc_max :: int
  rc_window :: int
  rc_fail_open :: bool

definition redis_key :: "redis_cfg \<Rightarrow> int \<Rightarrow> string \<Rightarrow> string" where
  "redis_key cfg bucket key =
     ''rate:'' @ rc_namespace cfg @ '':'' @ py_str_int bucket @ '':'' @ key"

text \<open>\<open>int(time.time() // window)\<close>.\<close>

definition redis_bucket :: "redis_cfg \<Rightarrow> real \<Rightarrow> int" where
  "redis_bucket cfg now = \<lfloor>now / of_int (rc_window cfg)\<rfloor>"

definition redis_check ::
  "redis_cfg \<Rightarrow> bool \<Rightarrow> real \<Rightarrow> string \<Rightarrow> redis_store \<Rightarrow> (error + unit) \<times> redis_store" where
  "redis_check cfg outage now key st =
     (if outage
      then (if rc_fail_open cfg then (Inr (), st)
            else (Inl (DomainErr RateLimitedError ''Rate limiter unavailable, try again later''), st))
      else let (hits, st') = incr_and_expire now (redis_key cfg (redis_bucket cfg now) key)
                               (of_int (rc_window cfg + 1)) st
           in if hits > rc_max cfg then (Inl too_many, st') else (Inr (), st'))"

definition noop_check :: "string \<Rightarrow> error + unit" where
  "noop_check key = Inr ()"

text \<open>The factory picks the backend.\<close>

datatype backend = InMemory limiter_cfg | Redis redis_cfg

definition build_rate_limiter ::
  "string \<Rightarrow> nat \<Rightarrow> nat \<Rightarrow> string \<Rightarrow> nat \<Rightarrow> bool \<Rightarrow> backend" where
  "build_rate_limiter namespace max_hits window_seconds redis_url max_keys fail_open =
     (if py_strip redis_url = []
      then InMemory \<lparr>rl_max = max_hits, rl_window = real window_seconds, rl_max_keys = max_keys\<rparr>
      else Redis \<lparr>rc_namespace = namespace, rc_max = int max_hits, rc_window = int window_seconds,
             rc_fail_open = fail_open\<rparr>)"

section \<open>The client's address\<close>

text \<open>Python's \<open>ipaddress.ip_address\<close> on a string: dotted IPv4 octets without leading zeros, or
  IPv6 groups with at most one \<open>::\<close>, an optional dotted tail and an optional scope.\<close>

definition ipv4_octet :: "string \<Rightarrow> bool" where
  "ipv4_octet s \<longleftrightarrow> s \<noteq> [] \<and> (\<forall>c \<in> set s. is_ascii_digit c) \<and> length s \<le> 3
     \<and> \<not> (length s > 1 \<and> hd s = CHR ''0'')
     \<and> (case parse_digits False 0 s of None \<Rightarrow> False | Some n \<Rightarrow> n \<le> 255)"

definition is_ipv4 :: "string \<Rightarrow> bool" where
  "is_ipv4 s \<longleftrightarrow> length (split_char (CHR ''.'') s) = 4 \<and> (\<forall>p \<in> set (split_char (CHR ''.'') s). ipv4_octet p)"

definition is_hex_digit :: "char \<Rightarrow> bool" where
  "is_hex_digit c \<longleftrightarrow> is_ascii_digit c \<or> (let n = of_char (lower_char c) :: nat in 97 \<le> n \<and> n \<le> 102)"

definition hextet :: "string \<Rightarrow> bool" where
  "hextet s \<longleftrightarrow> s \<noteq> [] \<and> length s \<le> 4 \<and> (\<forall>c \<in> set s. is_hex_digit c)"

definition ipv6_groups :: "string list \<Rightarrow> bool" where
  "ipv6_groups parts \<longleftrightarrow>
     (let n = length parts;
          skips = filter (\<lambda>i. parts ! i = []) [1..<n - 1]
      in 3 \<le> n \<and> n \<le> 9 \<and>
         (case skips of
            [] \<Rightarrow> n = 8 \<and> (\<forall>p \<in> set parts. hextet p)
          | [k] \<Rightarrow>
              let hi = (if hd parts = [] then k - 1 else k);
                  lo = (if last parts = [] then n - k - 2 else n - k - 1)
              in (hd parts = [] \<longrightarrow> hi = 0) \<and> (last parts = [] \<longrightarrow> lo = 0) \<and> hi + lo < 8
                 \<and> (\<forall>p \<in> set (take hi parts). hextet p)
                 \<and> (\<forall>p \<in> set (drop (n - lo) parts). hextet p)
          | _ \<Rightarrow> False))"

definition is_ipv6 :: "string \<Rightarrow> bool" where
  "is_ipv6 s \<longleftrightarrow>
     (let scope = split_char (CHR ''%'') s; parts = split_char (CHR '':'') (hd scope)
      in CHR ''/'' \<notin> set s \<and> (length scope = 1 \<or> length scope = 2 \<and> scope ! 1 \<noteq> [])
       \<and> 3 \<le> length parts
       \<and> (if CHR ''.'' \<in> set (last parts)
          then is_ipv4 (last parts) \<and> ipv6_groups (butlast parts @ [''0'', ''0''])
          else ipv6_groups parts))"

definition is_ip_address :: "string \<Rightarrow> bool" where
  "is_ip_address value \<longleftrightarrow> is_ipv4 value \<or> is_ipv6 value"

definition client_ip :: "string \<Rightarrow> string option \<Rightarrow> bool \<Rightarrow> int \<Rightarrow> string" where
  "client_ip forwarded peer trust_proxy trusted_proxy_count =
     (let from_peer = (case peer of None \<Rightarrow> ''anonymous'' | Some p \<Rightarrow> if p = [] then ''anonymous'' else p)
      in if trust_proxy \<and> trusted_proxy_count \<ge> 1
         then let hops = (if py_strip forwarded \<noteq> []
                          then map py_strip (split_char (CHR '','') forwarded) else [])
              in if int (length hops) \<ge> trusted_proxy_count
                 then let candidate = hops ! (length hops - nat trusted_proxy_count)
                      in if is_ip_address candidate then candidate else from_peer
                 else from_peer
         else from_peer)"

section \<open>The protocol\<close>

text \<open>How many of \<open>n\<close> checks of one key at one instant are let through.\<close>

primrec burst_accepts ::
  "('s \<Rightarrow> real \<Rightarrow> string \<Rightarrow> (error + unit) \<times> 's) \<Rightarrow> nat \<Rightarrow> 's \<Rightarrow> real \<Rightarrow> string \<Rightarrow> nat" where
  "burst_accepts check 0 s now key = 0"
| "burst_accepts check (Suc n) s now key =
     (case check s now key of (r, s') \<Rightarrow>
        (if r = Inr () then 1 else 0) + burst_accepts check n s' now key)"

locale rate_limiter =
  fixes ok :: "'s \<Rightarrow> bool" and check :: "'s \<Rightarrow> real \<Rightarrow> string \<Rightarrow> (error + unit) \<times> 's"
    and spent :: "'s \<Rightarrow> real \<Rightarrow> string \<Rightarrow> nat" and allowance :: "'s \<Rightarrow> nat"
  assumes ok_check: "ok s \<Longrightarrow> check s now key = (r, s') \<Longrightarrow> ok s' \<and> allowance s' = allowance s"
    and accepted: "ok s \<Longrightarrow> check s now key = (Inr u, s') \<Longrightarrow>
      spent s now key < allowance s \<and> spent s' now key = Suc (spent s now key)"
    and refused: "ok s \<Longrightarrow> check s now key = (Inl e, s') \<Longrightarrow>
      allowance s \<le> spent s now key \<and> allowance s \<le> spent s' now key"
begin

lemma burst_exact: "ok s \<Longrightarrow> burst_accepts check n s now key = min n (allowance s - spent s now key)"
proof (induction n arbitrary: s)
  case (Suc n)
  obtain r s' where c: "check s now key = (r, s')" by force
  have s': "ok s'" "allowance s' = allowance s" using ok_check [OF Suc.prems c] by auto
  then have IH: "burst_accepts check n s' now key = min n (allowance s - spent s' now key)"
    using Suc.IH by simp
  show ?case
  proof (cases r)
    case (Inl e)
    then show ?thesis using refused [OF Suc.prems, of now key e s'] c IH by simp
  next
    case (Inr u)
    then show ?thesis using accepted [OF Suc.prems, of now key u s'] c IH by (auto simp: min_def)
  qed
qed simp

end

section \<open>The in-memory limiter keeps the protocol\<close>

definition bucket_of :: "string \<Rightarrow> hit_table \<Rightarrow> real list" where
  "bucket_of key h = (case map_of h key of None \<Rightarrow> [] | Some b \<Rightarrow> b)"

definition live_bucket :: "limiter_cfg \<Rightarrow> real \<Rightarrow> string \<Rightarrow> hit_table \<Rightarrow> real list" where
  "live_bucket cfg now key h = dropWhile (\<lambda>x. now - x > rl_window cfg) (bucket_of key h)"

definition limiter_ok :: "limiter_cfg \<Rightarrow> hit_table \<Rightarrow> bool" where
  "limiter_ok cfg h \<longleftrightarrow> 0 < rl_max_keys cfg \<and> 0 \<le> rl_window cfg \<and> distinct (map fst h)
     \<and> length h \<le> rl_max_keys cfg"

lemma bucket_of_evict:
  "bucket_of k (evict_expired cfg now key h) = (if k = key then live_bucket cfg now key h else bucket_of k h)"
  by (auto simp: bucket_of_def evict_expired_def live_bucket_def map_of_dict_set map_of_dict_del Let_def
      simp del: dropWhile_eq_Nil_conv split: option.splits)

lemma evict_length: "length (evict_expired cfg now key h) \<le> length h"
  by (auto simp: evict_expired_def length_dict_set dict_del_def Let_def split: option.splits)

lemma evict_distinct: "distinct (map fst h) \<Longrightarrow> distinct (map fst (evict_expired cfg now key h))"
  by (auto simp: evict_expired_def distinct_dict_set distinct_dict_del Let_def split: option.splits)

lemma fst_set_evict: "fst ` set (evict_expired cfg now key h) \<subseteq> insert key (fst ` set h)"
  by (auto simp: evict_expired_def dict_del_def Let_def fst_set_dict_set split: option.splits)

text \<open>One check, case by case. Where the table is full, the oldest other key makes room.\<close>

lemma make_room_cases:
  assumes "0 < rl_max_keys cfg" "distinct (map fst h)" "length h \<le> rl_max_keys cfg"
  obtains h2 where "make_room cfg key h = Some h2" "map_of h2 key = map_of h key" "distinct (map fst h2)"
    "length h2 \<le> rl_max_keys cfg" "map_of h key = None \<longrightarrow> length h2 < rl_max_keys cfg"
    "length h < rl_max_keys cfg \<or> map_of h key \<noteq> None \<longrightarrow> h2 = h"
proof (cases "map_of h key = None \<and> length h \<ge> rl_max_keys cfg")
  case True
  then obtain e rest where h: "h = e # rest" using assms(1) by (cases h) auto
  then have "make_room cfg key h = Some rest" using True by (simp add: make_room_def)
  moreover have "map_of rest key = None" using True h by (auto split: if_splits)
  ultimately show ?thesis using True assms h by (intro that [of rest]) simp_all
next
  case False
  then have "make_room cfg key h = Some h" by (auto simp: make_room_def)
  then show ?thesis using assms False by (intro that [of h]) auto
qed

lemma inmem_check_result:
  assumes "limiter_ok cfg h" "inmem_check cfg now key h = (r, h')"
  shows "limiter_ok cfg h'"
    and "r = (if length (live_bucket cfg now key h) < rl_max cfg then Inr () else Inl too_many)"
    and "bucket_of key h' = (if length (live_bucket cfg now key h) < rl_max cfg
      then live_bucket cfg now key h @ [now] else live_bucket cfg now key h)"
proof -
  let ?h1 = "evict_expired cfg now key h"
  have h1: "0 < rl_max_keys cfg" "distinct (map fst ?h1)" "length ?h1 \<le> rl_max_keys cfg"
    using assms(1) evict_length [of cfg now key h] by (auto simp: limiter_ok_def evict_distinct)
  obtain h2 where h2: "make_room cfg key ?h1 = Some h2" "map_of h2 key = map_of ?h1 key"
      "distinct (map fst h2)" "length h2 \<le> rl_max_keys cfg"
      "map_of ?h1 key = None \<longrightarrow> length h2 < rl_max_keys cfg"
      "length ?h1 < rl_max_keys cfg \<or> map_of ?h1 key \<noteq> None \<longrightarrow> h2 = ?h1"
    by (rule make_room_cases [OF h1, of key])
  have b: "(case map_of h2 key of None \<Rightarrow> [] | Some b \<Rightarrow> b) = live_bucket cfg now key h"
    using bucket_of_evict [of key cfg now key h] h2(2) by (simp add: bucket_of_def)
  let ?b = "live_bucket cfg now key h"
  have eq: "(r, h') = (if length ?b < rl_max cfg then (Inr (), dict_set key (?b @ [now]) (dict_set key ?b h2))
      else (Inl too_many, dict_set key ?b h2))"
    using assms(2) by (auto simp: inmem_check_def Let_def h2(1) b split: if_splits)
  then show "r = (if length ?b < rl_max cfg then Inr () else Inl too_many)" by (simp split: if_splits)
  show "bucket_of key h' = (if length ?b < rl_max cfg then ?b @ [now] else ?b)"
    using eq by (auto simp: bucket_of_def map_of_dict_set split: if_splits)
  have "length h' \<le> rl_max_keys cfg" "distinct (map fst h')"
    using eq h2 by (auto simp: length_dict_set map_of_dict_set distinct_dict_set split: if_splits)
  then show "limiter_ok cfg h'" using assms(1) by (simp add: limiter_ok_def)
qed

lemma live_bucket_again:
  assumes "bucket_of key h' = live_bucket cfg now key h @ ys" "0 \<le> rl_window cfg" "ys = [] \<or> ys = [now]"
  shows "live_bucket cfg now key h' = live_bucket cfg now key h @ ys"
proof (cases "live_bucket cfg now key h")
  case Nil
  then have "bucket_of key h' = ys" using assms(1) by simp
  then show ?thesis using Nil assms(2,3) by (auto simp: live_bucket_def [of cfg now key h'])
next
  case (Cons x xs)
  then have "\<not> now - x > rl_window cfg" unfolding live_bucket_def by (metis dropWhile_eq_Cons_conv)
  then show ?thesis using assms(1) Cons by (simp add: live_bucket_def [of cfg now key h'])
qed

interpretation inmem: rate_limiter
  "\<lambda>(cfg, h). limiter_ok cfg h" "\<lambda>(cfg, h) now key. (case inmem_check cfg now key h of (r, h') \<Rightarrow> (r, (cfg, h')))"
  "\<lambda>(cfg, h) now key. length (live_bucket cfg now key h)" "\<lambda>(cfg, h). rl_max cfg"
proof (unfold_locales, goal_cases)
  case (1 s now key r s')
  then show ?case using inmem_check_result(1) by (auto split: prod.splits)
next
  case (2 s now key u s')
  obtain cfg h where s: "s = (cfg, h)" by force
  obtain h' where c: "inmem_check cfg now key h = (Inr u, h')" "s' = (cfg, h')" using 2 s by (auto split: prod.splits)
  have ok: "limiter_ok cfg h" "0 \<le> rl_window cfg" using 2 s by (auto simp: limiter_ok_def)
  show ?case using inmem_check_result(2,3) [OF ok(1) c(1)] live_bucket_again [of key h' cfg now h "[now]"] ok c s
    by (simp split: if_splits)
next
  case (3 s now key e s')
  obtain cfg h where s: "s = (cfg, h)" by force
  obtain h' where c: "inmem_check cfg now key h = (Inl e, h')" "s' = (cfg, h')" using 3 s by (auto split: prod.splits)
  have ok: "limiter_ok cfg h" "0 \<le> rl_window cfg" using 3 s by (auto simp: limiter_ok_def)
  show ?case using inmem_check_result(2,3) [OF ok(1) c(1)] live_bucket_again [of key h' cfg now h "[]"] ok c s
    by (simp split: if_splits)
qed

section \<open>The sliding window\<close>

text \<open>A run of checks: each with its time, its key and whether it was let through.\<close>

fun inmem_run :: "limiter_cfg \<Rightarrow> (real \<times> string) list \<Rightarrow> hit_table \<Rightarrow> (real \<times> string \<times> bool) list" where
  "inmem_run cfg [] h = []"
| "inmem_run cfg ((now, key) # evs) h =
     (case inmem_check cfg now key h of (r, h') \<Rightarrow> (now, key, r = Inr ()) # inmem_run cfg evs h')"

definition accepted_times :: "string \<Rightarrow> (real \<times> string \<times> bool) list \<Rightarrow> real list" where
  "accepted_times key run = map fst (filter (\<lambda>(_, k, a). k = key \<and> a) run)"

definition window_limited :: "limiter_cfg \<Rightarrow> real list \<Rightarrow> bool" where
  "window_limited cfg ts \<longleftrightarrow>
     (\<forall>t. length (filter (\<lambda>x. t \<le> x \<and> x \<le> t + rl_window cfg) ts) \<le> rl_max cfg)"

lemma accepted_times_Cons [simp]:
  "accepted_times key ((now, k, a) # run)
   = (if k = key \<and> a then now # accepted_times key run else accepted_times key run)"
  by (simp add: accepted_times_def)

lemma accepted_times_Nil [simp]: "accepted_times key [] = []"
  by (simp add: accepted_times_def)

text \<open>What the table remembers of the hits \<open>acc\<close> of a key: all that are not past the window.\<close>

definition remembers :: "limiter_cfg \<Rightarrow> real \<Rightarrow> string \<Rightarrow> real list \<Rightarrow> hit_table \<Rightarrow> bool" where
  "remembers cfg T key acc h \<longleftrightarrow>
     (\<exists>gone. acc = gone @ bucket_of key h \<and> (\<forall>x \<in> set gone. T - x > rl_window cfg))"

lemma window_limited_snoc:
  assumes "window_limited cfg acc" "acc = gone @ bucket" "\<forall>x \<in> set gone. now - x > rl_window cfg"
    and "length bucket < rl_max cfg"
  shows "window_limited cfg (acc @ [now])"
  unfolding window_limited_def
proof
  fix t
  let ?in = "\<lambda>x. t \<le> x \<and> x \<le> t + rl_window cfg"
  show "length (filter ?in (acc @ [now])) \<le> rl_max cfg"
  proof (cases "?in now")
    case False
    then show ?thesis using assms(1) by (auto simp: window_limited_def)
  next
    case True
    have "filter ?in gone = []" using assms(3) True by (force simp: filter_empty_conv)
    then have "length (filter ?in acc) \<le> length bucket" by (simp add: assms(2))
    then show ?thesis using assms(4) True by simp
  qed
qed

lemma remembers_live:
  assumes "remembers cfg T key acc h" "T \<le> now"
  obtains gone where "acc = gone @ live_bucket cfg now key h" "\<forall>x \<in> set gone. now - x > rl_window cfg"
proof -
  let ?p = "\<lambda>x. now - x > rl_window cfg"
  obtain gone where g: "acc = gone @ bucket_of key h" "\<forall>x \<in> set gone. T - x > rl_window cfg"
    using assms(1) by (auto simp: remembers_def)
  show ?thesis
  proof (rule that [of "gone @ takeWhile ?p (bucket_of key h)"])
    show "acc = (gone @ takeWhile ?p (bucket_of key h)) @ live_bucket cfg now key h"
      by (simp add: g(1) live_bucket_def)
    show "\<forall>x \<in> set (gone @ takeWhile ?p (bucket_of key h)). ?p x"
      using g(2) assms(2) by (fastforce dest: set_takeWhileD)
  qed
qed

text \<open>A check of another key does not disturb the hits of this one as long as no key is evicted.\<close>

lemma inmem_check_other:
  assumes "limiter_ok cfg h" "inmem_check cfg now k h = (r, h')" "k \<noteq> key"
    and "finite K" "card K \<le> rl_max_keys cfg" "fst ` set h \<subseteq> K" "k \<in> K"
  shows "bucket_of key h' = bucket_of key h"
proof -
  let ?h1 = "evict_expired cfg now k h"
  have sub: "fst ` set ?h1 \<subseteq> K"
    using assms(6,7) fst_set_evict [of cfg now k h] by blast
  have len: "length ?h1 < rl_max_keys cfg \<or> map_of ?h1 k \<noteq> None"
  proof (rule ccontr)
    assume a: "\<not> ?thesis"
    then have "fst ` set ?h1 \<subset> K" using sub assms(7) by (auto simp: map_of_None_key)
    then have "card (fst ` set ?h1) < card K" using assms(4) by (rule psubset_card_mono [rotated])
    moreover have "card (fst ` set ?h1) = length ?h1"
      using assms(1) distinct_card [OF evict_distinct [of h cfg now k]] by (simp add: limiter_ok_def)
    ultimately show False using a assms(5) by simp
  qed
  then have room: "make_room cfg k ?h1 = Some ?h1" by (auto simp: make_room_def)
  show ?thesis using assms(2,3) bucket_of_evict [of key cfg now k h]
    by (auto simp: inmem_check_def room Let_def bucket_of_def map_of_dict_set split: if_splits)
qed

lemma fst_set_inmem_check:
  assumes "inmem_check cfg now key h = (r, h')"
  shows "fst ` set h' \<subseteq> insert key (fst ` set h)"
proof -
  let ?h1 = "evict_expired cfg now key h"
  have room: "set h2 \<subseteq> set ?h1" if "make_room cfg key ?h1 = Some h2" for h2
    using that by (auto simp: make_room_def split: if_splits list.splits)
  have "fst ` set h' \<subseteq> insert key (fst ` set ?h1)"
  proof (cases "make_room cfg key ?h1")
    case None
    then show ?thesis using assms by (auto simp: inmem_check_def)
  next
    case (Some h2)
    then have "\<exists>b1 b2. h' = dict_set key b1 h2 \<or> h' = dict_set key b1 (dict_set key b2 h2)"
      using assms by (auto simp: inmem_check_def Let_def split: if_splits)
    then have "fst ` set h' = insert key (fst ` set h2)"
      by (elim exE disjE) (simp_all only: fst_set_dict_set insert_absorb2)
    then show ?thesis using room [OF Some] by blast
  qed
  then show ?thesis using fst_set_evict [of cfg now key h] by blast
qed

lemma inmem_run_limited:
  assumes K: "finite K" "card K \<le> rl_max_keys cfg"
    and "limiter_ok cfg h" "fst ` set h \<subseteq> K" "snd ` set evs \<subseteq> K"
    and "remembers cfg T key acc h" "window_limited cfg acc"
    and "sorted (map fst evs)" "\<forall>e \<in> set evs. T \<le> fst e"
  shows "window_limited cfg (acc @ accepted_times key (inmem_run cfg evs h))"
  using assms(3-)
proof (induction evs arbitrary: h T acc)
  case (Cons e evs)
  obtain now k where e: "e = (now, k)" by force
  obtain r h' where c: "inmem_check cfg now k h = (r, h')" by force
  note res = inmem_check_result [OF Cons.prems(1) c]
  have kK: "k \<in> K" and le: "T \<le> now" using Cons.prems(3,7) by (auto simp: e)
  have sub: "fst ` set h' \<subseteq> K" using fst_set_inmem_check [OF c] Cons.prems(2) kK by blast
  have later: "\<forall>x \<in> set evs. now \<le> fst x" "sorted (map fst evs)" "snd ` set evs \<subseteq> K"
    using Cons.prems(3,6) by (auto simp: e)
  obtain gone where g: "acc = gone @ live_bucket cfg now key h" "\<forall>x \<in> set gone. now - x > rl_window cfg"
    using Cons.prems(4) le by (rule remembers_live)
  let ?acc = "if k = key \<and> r = Inr () then acc @ [now] else acc"
  have rem: "remembers cfg now key ?acc h'"
  proof (cases "k = key")
    case True
    then show ?thesis using res(2,3) g unfolding remembers_def
      by (intro exI [of _ gone]) (auto simp: too_many_def)
  next
    case False
    then have "bucket_of key h' = bucket_of key h"
      using inmem_check_other [OF Cons.prems(1) c False K Cons.prems(2) kK] by simp
    then show ?thesis using Cons.prems(4) le False by (force simp: remembers_def)
  qed
  have lim: "window_limited cfg ?acc"
    using Cons.prems(5) window_limited_snoc [OF Cons.prems(5) g] res(2) by (auto split: if_splits)
  have "window_limited cfg (?acc @ accepted_times key (inmem_run cfg evs h'))"
    by (rule Cons.IH [OF res(1) sub later(3) rem lim later(2,1)])
  moreover have "inmem_run cfg (e # evs) h = (now, k, r = Inr ()) # inmem_run cfg evs h'"
    by (simp add: e c)
  ultimately show ?case by (cases "k = key \<and> r = Inr ()") auto
qed simp

text \<open>C23: The in-memory limiter enforces its limit over every sliding window: in any run of checks under a
  monotone clock whose keys fit the table, no interval as long as the window contains more accepted hits
  of a key than the configured maximum.\<close>

theorem inmem_sliding_window:
  assumes "finite K" "card K \<le> rl_max_keys cfg" "0 < rl_max_keys cfg" "0 \<le> rl_window cfg"
    and "snd ` set evs \<subseteq> K" "sorted (map fst evs)"
  shows "length (filter (\<lambda>x. t \<le> x \<and> x \<le> t + rl_window cfg)
    (accepted_times key (inmem_run cfg evs []))) \<le> rl_max cfg"
proof (cases evs)
  case (Cons e es)
  have "window_limited cfg ([] @ accepted_times key (inmem_run cfg evs []))"
  proof (rule inmem_run_limited [OF assms(1,2)])
    show "remembers cfg (fst e) key [] []" by (simp add: remembers_def bucket_of_def)
    show "\<forall>x \<in> set evs. fst e \<le> fst x" using assms(6) Cons by auto
  qed (use assms in \<open>auto simp: limiter_ok_def window_limited_def\<close>)
  then show ?thesis by (simp add: window_limited_def)
qed simp

theorem inmem_sliding_window_witness:
  "accepted_times ''a'' (inmem_run \<lparr>rl_max = 2, rl_window = 10, rl_max_keys = 3\<rparr>
      [(0, ''a''), (1, ''b''), (4, ''a''), (9, ''a''), (11, ''a'')] []) = [0, 4, 11]
   \<and> length (filter (\<lambda>x. (1::real) \<le> x \<and> x \<le> 1 + 10) [0, 4, 11]) \<le> 2"
proof -
  let ?cfg = "\<lparr>rl_max = 2, rl_window = 10, rl_max_keys = 3\<rparr>"
  let ?evs = "[(0, ''a''), (1, ''b''), (4, ''a''), (9, ''a''), (11, ''a'')] :: (real \<times> string) list"
  have r: "accepted_times ''a'' (inmem_run ?cfg ?evs []) = [0, 4, 11]"
    by (simp add: inmem_check_def evict_expired_def make_room_def Let_def dict_del_def too_many_def)
  have "length (filter (\<lambda>x. 1 \<le> x \<and> x \<le> 1 + rl_window ?cfg)
      (accepted_times ''a'' (inmem_run ?cfg ?evs []))) \<le> rl_max ?cfg"
    by (rule inmem_sliding_window [of "{''a'', ''b''}"]) auto
  then show ?thesis using r by simp
qed

section \<open>Bounded memory\<close>

definition inmem_after :: "limiter_cfg \<Rightarrow> (real \<times> string) list \<Rightarrow> hit_table \<Rightarrow> hit_table" where
  "inmem_after cfg evs h = fold (\<lambda>(now, key) h. snd (inmem_check cfg now key h)) evs h"

definition buckets_bounded :: "limiter_cfg \<Rightarrow> hit_table \<Rightarrow> bool" where
  "buckets_bounded cfg h \<longleftrightarrow> (\<forall>(k, b) \<in> set h. length b \<le> rl_max cfg)"

lemma buckets_bounded_dict_set:
  "buckets_bounded cfg h \<Longrightarrow> length b \<le> rl_max cfg \<Longrightarrow> buckets_bounded cfg (dict_set k b h)"
  by (induction k b h rule: dict_set.induct) (auto simp: buckets_bounded_def)

lemma buckets_bounded_mono:
  "buckets_bounded cfg h \<Longrightarrow> set h' \<subseteq> set h \<Longrightarrow> buckets_bounded cfg h'"
  by (auto simp: buckets_bounded_def)

lemma buckets_bounded_lookup:
  "buckets_bounded cfg h \<Longrightarrow> map_of h k = Some b \<Longrightarrow> length b \<le> rl_max cfg"
  by (auto simp: buckets_bounded_def dest!: map_of_SomeD)

lemma buckets_bounded_check:
  assumes "buckets_bounded cfg h"
  shows "buckets_bounded cfg (snd (inmem_check cfg now key h))"
proof -
  let ?h1 = "evict_expired cfg now key h"
  have h1: "buckets_bounded cfg ?h1"
  proof (cases "map_of h key")
    case None
    then show ?thesis using assms by (simp add: evict_expired_def)
  next
    case (Some b)
    have "length (dropWhile p b) \<le> rl_max cfg" for p
      using buckets_bounded_lookup [OF assms Some] length_dropWhile_le order_trans by blast
    then have "buckets_bounded cfg (dict_set key (dropWhile p b) h)" for p
      using assms by (intro buckets_bounded_dict_set) auto
    moreover have "buckets_bounded cfg (dict_del key h)"
      by (rule buckets_bounded_mono [OF assms]) (auto simp: dict_del_def)
    ultimately show ?thesis using Some by (simp add: evict_expired_def Let_def)
  qed
  show ?thesis
  proof (cases "make_room cfg key ?h1")
    case None
    then show ?thesis using h1 by (simp add: inmem_check_def)
  next
    case (Some h2)
    then have "set h2 \<subseteq> set ?h1" by (auto simp: make_room_def split: if_splits list.splits)
    then have h2: "buckets_bounded cfg h2" by (rule buckets_bounded_mono [OF h1])
    have b: "length (case map_of h2 key of None \<Rightarrow> [] | Some b \<Rightarrow> b) \<le> rl_max cfg"
      using buckets_bounded_lookup [OF h2] by (auto split: option.splits)
    then show ?thesis using Some h2
      by (auto simp: inmem_check_def Let_def intro!: buckets_bounded_dict_set)
  qed
qed

text \<open>The limiter's memory is bounded whatever keys an attacker sends: after any sequence of checks,
  at any times and with any keys, the table has at most the configured number of keys, each at most
  once, and no key holds more hits than the limit.\<close>

theorem inmem_memory_bounded:
  assumes "0 < rl_max_keys cfg" "0 \<le> rl_window cfg"
  shows "length (inmem_after cfg evs []) \<le> rl_max_keys cfg \<and> distinct (map fst (inmem_after cfg evs []))
    \<and> (\<forall>k b. map_of (inmem_after cfg evs []) k = Some b \<longrightarrow> length b \<le> rl_max cfg)"
proof -
  have "limiter_ok cfg (inmem_after cfg evs h) \<and> buckets_bounded cfg (inmem_after cfg evs h)"
    if "limiter_ok cfg h" "buckets_bounded cfg h" for h
    using that
  proof (induction evs arbitrary: h)
    case (Cons e evs)
    obtain now key where e: "e = (now, key)" by force
    let ?h' = "snd (inmem_check cfg now key h)"
    have "limiter_ok cfg ?h'" using inmem_check_result(1) [OF Cons.prems(1)] by (metis prod.collapse)
    then show ?case using Cons.IH [of ?h'] buckets_bounded_check [OF Cons.prems(2)]
      by (simp add: inmem_after_def e)
  qed (simp add: inmem_after_def)
  from this [of "[]"] show ?thesis
    using assms buckets_bounded_lookup by (auto simp: limiter_ok_def buckets_bounded_def)
qed

theorem inmem_memory_bounded_witness:
  "length (inmem_after \<lparr>rl_max = 1, rl_window = 10, rl_max_keys = 2\<rparr>
     [(0, ''a''), (0, ''b''), (1, ''c''), (1, ''c'')] []) \<le> 2
   \<and> inmem_after \<lparr>rl_max = 1, rl_window = 10, rl_max_keys = 2\<rparr>
     [(0, ''a''), (0, ''b''), (1, ''c''), (1, ''c'')] [] = [(''b'', [0]), (''c'', [1])]"
proof -
  let ?cfg = "\<lparr>rl_max = 1, rl_window = 10, rl_max_keys = 2\<rparr>"
  have p: "0 < rl_max_keys ?cfg" "0 \<le> rl_window ?cfg" by simp_all
  show ?thesis
    using inmem_memory_bounded [OF p, of "[(0, ''a''), (0, ''b''), (1, ''c''), (1, ''c'')]"]
    by (simp add: inmem_after_def inmem_check_def evict_expired_def make_room_def Let_def)
qed

text \<open>The price of the bound: filling the table with other keys makes the limiter forget a blocked one.\<close>

lemma eviction_forgets_blocked_key:
  assumes "limiter_ok cfg ((key, b) # h)" "Suc (length h) = rl_max_keys cfg"
    and "map_of ((key, b) # h) other = None" "0 < rl_max cfg"
  shows "bucket_of key (snd (inmem_check cfg now other ((key, b) # h))) = []"
proof -
  have "map_of h key = None" using assms(1) by (simp add: limiter_ok_def map_of_eq_None_iff)
  then show ?thesis using assms
    by (auto simp: inmem_check_def evict_expired_def make_room_def bucket_of_def map_of_dict_set Let_def
        split: if_splits)
qed

section \<open>The Redis limiter: fixed windows\<close>

lemma append_sep_inject:
  "c \<notin> set xs \<Longrightarrow> c \<notin> set ys \<Longrightarrow> xs @ c # as = ys @ c # bs \<Longrightarrow> xs = ys \<and> as = bs"
proof (induction xs arbitrary: ys)
  case Nil
  then show ?case by (cases ys) auto
next
  case (Cons x xs)
  then show ?case by (cases ys) auto
qed

lemma colon_notin_py_str_int: "CHR '':'' \<notin> set (py_str_int i)"
proof
  assume "CHR '':'' \<in> set (py_str_int i)"
  then have "CHR '':'' \<in> set (show_nat (nat i)) \<or> CHR '':'' \<in> set (show_nat (nat (- i)))"
    by (auto simp: py_str_int_def split: if_splits)
  then have "is_ascii_digit (CHR '':'')" using show_nat_digits by blast
  then show False by (simp add: is_ascii_digit_def)
qed

lemma py_str_int_inject: "py_str_int i = py_str_int j \<longleftrightarrow> i = j"
  by (metis option.inject py_int_of_str_round_trip)

lemma redis_key_inject: "redis_key cfg b k = redis_key cfg b' k' \<longleftrightarrow> b = b' \<and> k = k'"
  using append_sep_inject [OF colon_notin_py_str_int colon_notin_py_str_int, of b k b' k']
  by (auto simp: redis_key_def py_str_int_inject)

lemma user_rate_limit_key_inject: "user_rate_limit_key ns u = user_rate_limit_key ns v \<longleftrightarrow> u = v"
  by (simp add: user_rate_limit_key_def py_str_int_inject)

definition redis_ok :: "redis_cfg \<Rightarrow> redis_store \<Rightarrow> bool" where
  "redis_ok cfg st \<longleftrightarrow> 0 \<le> rc_window cfg \<and> 0 \<le> rc_max cfg \<and> (\<forall>k c e. st k = Some (c, e) \<longrightarrow> 1 \<le> c)"

definition redis_spent :: "redis_cfg \<Rightarrow> redis_store \<Rightarrow> real \<Rightarrow> string \<Rightarrow> nat" where
  "redis_spent cfg st now key = (case redis_live now st (redis_key cfg (redis_bucket cfg now) key) of
     None \<Rightarrow> 0 | Some (c, _) \<Rightarrow> nat c)"

lemma redis_live_Some:
  "redis_live now st k = Some (c, e) \<Longrightarrow> st k = Some (c, e) \<and> (e = None \<or> (\<exists>x. e = Some x \<and> now < x))"
  by (auto simp: redis_live_def split: option.splits if_splits)

lemma incr_and_expire_live:
  assumes "\<forall>k c e. st k = Some (c, e) \<longrightarrow> 1 \<le> c" "0 < ttl"
  shows "fst (incr_and_expire now k ttl st)
      = (case redis_live now st k of None \<Rightarrow> 1 | Some (c, _) \<Rightarrow> c + 1)"
    and "map_option fst (redis_live now (snd (incr_and_expire now k ttl st)) k)
      = Some (fst (incr_and_expire now k ttl st))"
proof -
  show "fst (incr_and_expire now k ttl st)
      = (case redis_live now st k of None \<Rightarrow> 1 | Some (c, _) \<Rightarrow> c + 1)"
    by (auto simp: incr_and_expire_def Let_def split: option.splits prod.splits)
  show "map_option fst (redis_live now (snd (incr_and_expire now k ttl st)) k)
      = Some (fst (incr_and_expire now k ttl st))"
  proof (cases "redis_live now st k")
    case None
    then show ?thesis using assms(2) by (simp add: incr_and_expire_def redis_live_def)
  next
    case (Some ce)
    obtain c e where ce: "ce = (c, e)" by force
    have "1 \<le> c" using redis_live_Some [OF Some [unfolded ce]] assms(1) by blast
    then show ?thesis using redis_live_Some [OF Some [unfolded ce]] Some ce
      by (auto simp: incr_and_expire_def redis_live_def Let_def)
  qed
qed

lemma redis_check_spent:
  assumes "redis_ok cfg st" "redis_check cfg False now key st = (r, st')"
  shows "redis_ok cfg st'" "redis_spent cfg st' now key = Suc (redis_spent cfg st now key)"
    and "r = (if int (redis_spent cfg st now key) < rc_max cfg then Inr () else Inl too_many)"
proof -
  let ?k = "redis_key cfg (redis_bucket cfg now) key" and ?ttl = "of_int (rc_window cfg + 1) :: real"
  let ?x = "incr_and_expire now ?k ?ttl st"
  have pre: "\<forall>k c e. st k = Some (c, e) \<longrightarrow> 1 \<le> c" "0 < ?ttl" using assms(1) by (auto simp: redis_ok_def)
  have x: "st' = snd ?x" "r = (if fst ?x > rc_max cfg then Inl too_many else Inr ())"
    using assms(2) by (auto simp: redis_check_def split: prod.splits if_splits)
  have hits: "fst ?x = int (redis_spent cfg st now key) + 1"
    unfolding incr_and_expire_live(1) [OF pre] redis_spent_def
    using pre(1) redis_live_Some by (force split: option.splits prod.splits)
  show "r = (if int (redis_spent cfg st now key) < rc_max cfg then Inr () else Inl too_many)"
    using x(2) hits by auto
  show "redis_spent cfg st' now key = Suc (redis_spent cfg st now key)"
    using incr_and_expire_live(2) [OF pre, of now ?k] hits unfolding x(1)
    by (auto simp: redis_spent_def split: option.splits)
  obtain e' where "st' = st(?k \<mapsto> (fst ?x, e'))"
    using x(1) by (auto simp: incr_and_expire_def Let_def split: prod.splits)
  moreover have "1 \<le> fst ?x" using hits by simp
  ultimately show "redis_ok cfg st'" using assms(1) by (auto simp: redis_ok_def)
qed

interpretation redis: rate_limiter
  "\<lambda>(cfg, st). redis_ok cfg st"
  "\<lambda>(cfg, st) now key. (case redis_check cfg False now key st of (r, st') \<Rightarrow> (r, (cfg, st')))"
  "\<lambda>(cfg, st) now key. redis_spent cfg st now key" "\<lambda>(cfg, st). nat (rc_max cfg)"
proof (unfold_locales, goal_cases)
  case (1 s now key r s')
  then show ?case using redis_check_spent(1) by (auto split: prod.splits)
next
  case (2 s now key u s')
  obtain cfg st where s: "s = (cfg, st)" by force
  obtain st' where c: "redis_check cfg False now key st = (Inr u, st')" "s' = (cfg, st')"
    using 2 s by (auto split: prod.splits)
  show ?case using redis_check_spent(2,3) [OF _ c(1)] 2(1) c s by (auto split: if_splits)
next
  case (3 s now key e s')
  obtain cfg st where s: "s = (cfg, st)" by force
  obtain st' where c: "redis_check cfg False now key st = (Inl e, st')" "s' = (cfg, st')"
    using 3 s by (auto split: prod.splits)
  show ?case using redis_check_spent(2,3) [OF _ c(1)] 3(1) c s by (auto split: if_splits)
qed

text \<open>A run of checks against Redis: the time, the key and whether it was let through.\<close>

fun redis_run :: "redis_cfg \<Rightarrow> (real \<times> string) list \<Rightarrow> redis_store \<Rightarrow> (real \<times> string \<times> bool) list" where
  "redis_run cfg [] st = []"
| "redis_run cfg ((now, key) # evs) st =
     (case redis_check cfg False now key st of (r, st') \<Rightarrow> (now, key, r = Inr ()) # redis_run cfg evs st')"

definition accepted_in_bucket :: "redis_cfg \<Rightarrow> int \<Rightarrow> string \<Rightarrow> (real \<times> string \<times> bool) list \<Rightarrow> nat" where
  "accepted_in_bucket cfg b key run =
     length (filter (\<lambda>(now, k, a). redis_bucket cfg now = b \<and> k = key \<and> a) run)"

text \<open>The counter of a window, once created, outlives the window.\<close>

definition counts_window :: "redis_cfg \<Rightarrow> int \<Rightarrow> string \<Rightarrow> redis_store \<Rightarrow> int \<Rightarrow> bool" where
  "counts_window cfg b key st n \<longleftrightarrow> 0 \<le> n \<and> (case st (redis_key cfg b key) of None \<Rightarrow> n = 0
     | Some (c, e) \<Rightarrow> 0 < n \<and> c = n \<and> (\<exists>x. e = Some x \<and> of_int ((b + 1) * rc_window cfg) \<le> x))"

lemma in_bucket:
  assumes "0 < rc_window cfg" "redis_bucket cfg now = b"
  shows "of_int (b * rc_window cfg) \<le> now" "now < of_int ((b + 1) * rc_window cfg)"
proof -
  have w: "0 < (of_int (rc_window cfg) :: real)" using assms(1) by simp
  have "of_int b \<le> now / of_int (rc_window cfg)" "now / of_int (rc_window cfg) < of_int b + 1"
    using assms(2) unfolding redis_bucket_def by linarith+
  then have "of_int b * of_int (rc_window cfg) \<le> now" "now < (of_int b + 1) * of_int (rc_window cfg)"
    using w by (simp_all add: pos_le_divide_eq pos_divide_less_eq)
  then show "of_int (b * rc_window cfg) \<le> now" "now < of_int ((b + 1) * rc_window cfg)" by simp_all
qed

lemma counts_window_check:
  assumes w: "0 < rc_window cfg" and n: "counts_window cfg b key st n"
    and c: "redis_check cfg False now k st = (r, st')"
  shows "if redis_bucket cfg now = b \<and> k = key
    then counts_window cfg b key st' (n + 1) \<and> r = (if n < rc_max cfg then Inr () else Inl too_many)
    else counts_window cfg b key st' n"
proof (cases "redis_bucket cfg now = b \<and> k = key")
  case True
  let ?k = "redis_key cfg b key"
  have b: "of_int (b * rc_window cfg) \<le> now" "now < of_int ((b + 1) * rc_window cfg)"
    using in_bucket [OF w] True by auto
  show ?thesis
  proof (cases "st ?k")
    case None
    then have "redis_live now st ?k = None" "n = 0" using n by (simp_all add: redis_live_def counts_window_def)
    moreover have "of_int ((b + 1) * rc_window cfg) \<le> now + of_int (rc_window cfg + 1)"
      using b(1) by (simp add: distrib_right)
    ultimately show ?thesis using c True
      by (auto simp: redis_check_def incr_and_expire_def counts_window_def Let_def split: if_splits)
  next
    case (Some ce)
    then obtain x where ce: "ce = (n, Some x)" "of_int ((b + 1) * rc_window cfg) \<le> x" "0 < n"
      using n by (auto simp: counts_window_def)
    then have "redis_live now st ?k = Some (n, Some x)" using Some b(2) by (simp add: redis_live_def)
    then show ?thesis using c True ce
      by (auto simp: redis_check_def incr_and_expire_def counts_window_def Let_def split: if_splits)
  qed
next
  case False
  then have "redis_key cfg (redis_bucket cfg now) k \<noteq> redis_key cfg b key" by (auto simp: redis_key_inject)
  then have "st' (redis_key cfg b key) = st (redis_key cfg b key)"
    using c by (auto simp: redis_check_def incr_and_expire_def Let_def split: prod.splits if_splits)
  then have "counts_window cfg b key st' n" using n by (simp add: counts_window_def)
  then show ?thesis using False by auto
qed

text \<open>The Redis limiter enforces its limit per fixed window across all workers: whatever the
  interleaving of checks and keys, and although the counter carries an expiry, at most the configured
  number of checks of a key is let through in each window.\<close>

theorem redis_fixed_window:
  assumes "0 < rc_window cfg"
  shows "accepted_in_bucket cfg b key (redis_run cfg evs Map.empty) \<le> nat (rc_max cfg)"
proof -
  have "accepted_in_bucket cfg b key (redis_run cfg evs st) \<le> nat (rc_max cfg - n)"
    if "counts_window cfg b key st n" for st n
    using that
  proof (induction evs arbitrary: st n)
    case (Cons e evs)
    obtain now k where e: "e = (now, k)" by force
    obtain r st' where c: "redis_check cfg False now k st = (r, st')" by force
    note step = counts_window_check [OF assms Cons.prems c]
    have run: "accepted_in_bucket cfg b key (redis_run cfg (e # evs) st)
      = (if redis_bucket cfg now = b \<and> k = key \<and> r = Inr () then 1 else 0)
        + accepted_in_bucket cfg b key (redis_run cfg evs st')"
      by (simp add: e c accepted_in_bucket_def)
    show ?case
    proof (cases "redis_bucket cfg now = b \<and> k = key")
      case True
      then have "accepted_in_bucket cfg b key (redis_run cfg evs st') \<le> nat (rc_max cfg - (n + 1))"
        using Cons.IH step by simp
      then have "(if r = Inr () then 1 else 0) + accepted_in_bucket cfg b key (redis_run cfg evs st')
          \<le> nat (rc_max cfg - n)"
        using step True by (cases "n < rc_max cfg") (simp_all add: too_many_def)
      then show ?thesis using True unfolding run by simp
    next
      case False
      then show ?thesis using Cons.IH step unfolding run by auto
    qed
  qed (simp add: accepted_in_bucket_def)
  from this [of Map.empty 0] show ?thesis by (simp add: counts_window_def)
qed

theorem redis_fixed_window_witness:
  "accepted_in_bucket \<lparr>rc_namespace = ''login'', rc_max = 2, rc_window = 60, rc_fail_open = False\<rparr> 0 ''a''
     (redis_run \<lparr>rc_namespace = ''login'', rc_max = 2, rc_window = 60, rc_fail_open = False\<rparr>
       [(1, ''a''), (2, ''a''), (3, ''a'')] Map.empty) \<le> 2"
  using redis_fixed_window [of "\<lparr>rc_namespace = ''login'', rc_max = 2, rc_window = 60, rc_fail_open = False\<rparr>"
      0 "''a''" "[(1, ''a''), (2, ''a''), (3, ''a'')]"]
  by (simp del: redis_run.simps)

section \<open>The client's address cannot be forged\<close>

lemma split_char_append: "split_char c (a @ c # b) = split_char c a @ split_char c b"
proof (induction a)
  case (Cons x a)
  then show ?case by (cases "split_char c a") auto
qed simp

lemma py_strip_Nil_conv: "py_strip s = [] \<longleftrightarrow> (\<forall>c \<in> set s. py_isspace c)"
proof
  assume "py_strip s = []"
  then have "dropWhile py_isspace (rev (dropWhile py_isspace s)) = []"
    by (simp add: py_strip_def py_rstrip_def py_lstrip_def)
  then have "\<forall>c \<in> set (dropWhile py_isspace s). py_isspace c" by simp
  then have "dropWhile py_isspace s = []" by (metis hd_dropWhile hd_in_set)
  then show "\<forall>c \<in> set s. py_isspace c" by simp
next
  assume "\<forall>c \<in> set s. py_isspace c"
  then have "dropWhile py_isspace s = []" by simp
  then show "py_strip s = []" unfolding py_strip_def py_rstrip_def py_lstrip_def
    by (simp del: dropWhile_eq_Nil_conv)
qed

text \<open>C39: Behind trusted proxies the rate-limit address is the one the outermost trusted proxy observed:
  whatever an attacker puts in front of the hops the proxies append, the result depends on those hops
  and the socket peer only.\<close>

theorem client_ip_ignores_forged_prefix:
  assumes "length (split_char (CHR '','') trusted) = nat n" "1 \<le> n"
  shows "client_ip (forged @ CHR '','' # trusted) peer True n
    = (let hop = py_strip (hd (split_char (CHR '','') trusted))
       in if is_ip_address hop then hop else client_ip [] peer False n)"
proof -
  let ?t = "split_char (CHR '','') trusted" and ?f = "split_char (CHR '','') forged"
  have "py_strip (forged @ CHR '','' # trusted) \<noteq> []"
    by (simp add: py_strip_Nil_conv py_isspace_def)
  moreover have "map py_strip (split_char (CHR '','') (forged @ CHR '','' # trusted)) ! (length ?f)
      = py_strip (hd ?t)"
    by (simp add: split_char_append nth_append hd_conv_nth)
  ultimately show ?thesis using assms
    by (simp add: client_ip_def Let_def split_char_append)
qed

theorem client_ip_ignores_forged_prefix_witness:
  "client_ip (''6.6.6.6'' @ CHR '','' # '' 1.2.3.4'') (Some ''10.0.0.1'') True 1 = ''1.2.3.4''"
proof -
  have p: "length (split_char (CHR '','') '' 1.2.3.4'') = nat 1" "(1::int) \<le> 1" by simp_all
  have s: "py_strip (hd (split_char (CHR '','') '' 1.2.3.4'')) = ''1.2.3.4''" by code_simp
  have i: "is_ip_address ''1.2.3.4''" by code_simp
  show ?thesis using client_ip_ignores_forged_prefix [OF p, of "''6.6.6.6''" "Some ''10.0.0.1''"]
    unfolding s by (simp add: i)
qed

end
