(* ===== verification/AuthRoutes.thy ===== *)
theory AuthRoutes
  imports AuthProps RateLimit
begin

text \<open>
  The authentication routes (\<^verbatim>\<open>app/features/auth/router.py\<close>, \<^verbatim>\<open>schemas.py\<close>): request schemas, the limiters each
  route consults and in which order, and the service call behind them. The limiters are those of
  \<^verbatim>\<open>app/features/auth/dependencies.py\<close>; a route takes any of them by the check it offers. The validator of e-mail
  addresses is an argument, and a schema's error carries no list of the offending fields.
\<close>

section \<open>Limiters\<close>

datatype auth_limiter = RegisterLim | LoginLim | RefreshLim | RegisterIpLim | LoginIpLim | ChangePasswordLim

type_synonym 'l checks = "auth_limiter \<Rightarrow> string \<Rightarrow> 'l \<Rightarrow> (error + unit) \<times> 'l"

text \<open>The in-memory limiters, one table each, at one instant.\<close>

definition inmem_checks :: "(auth_limiter \<Rightarrow> limiter_cfg) \<Rightarrow> real \<Rightarrow> (auth_limiter \<Rightarrow> hit_table) checks" where
  "inmem_checks cfg now which key tables = (case inmem_check (cfg which) now key (tables which) of (r, h) \<Rightarrow> (r, tables(which := h)))"

section \<open>Outbound mail\<close>

text \<open>A mailer is off, or posts to the mail service with a key and a sender address. \<open>post\<close> is the HTTP client: the call
  answers with success, fails with an HTTP error, or raises something else. The requests sent are the result's second part.\<close>

datatype mailer = NullMailer | ResendMailer string string

record mail_request =
  mr_url :: string
  mr_headers :: "(string \<times> string) list"
  mr_from :: string
  mr_to :: "string list"
  mr_subject :: string
  mr_text :: string

datatype mail_answer = MailSent | MailHttpError | MailRaises error

definition RESEND_URL :: string where "RESEND_URL = ''https://api.resend.com/emails''"

definition mailer_send :: "(mail_request \<Rightarrow> mail_answer) \<Rightarrow> mailer \<Rightarrow> string \<Rightarrow> string \<Rightarrow> string \<Rightarrow> (error + unit) \<times> mail_request list" where
  "mailer_send post m recipient subject body = (case m of
     NullMailer \<Rightarrow> (Inr (), [])
   | ResendMailer api_key from_addr \<Rightarrow>
       let req = \<lparr>mr_url = RESEND_URL, mr_headers = [(''Authorization'', ''Bearer '' @ api_key)], mr_from = from_addr,
                  mr_to = [recipient], mr_subject = subject, mr_text = body\<rparr>
       in case post req of MailRaises e \<Rightarrow> (Inl e, [req]) | _ \<Rightarrow> (Inr (), [req]))"

definition build_mailer :: "bool \<Rightarrow> string \<Rightarrow> string \<Rightarrow> mailer" where
  "build_mailer mailer_enabled resend_api_key mail_from =
     (if mailer_enabled then ResendMailer (py_strip resend_api_key) (py_strip mail_from) else NullMailer)"

text \<open>The service's own wrapper lets nothing the mailer raises reach the caller.\<close>

definition send_mail :: "(mail_request \<Rightarrow> mail_answer) \<Rightarrow> mailer option \<Rightarrow> string \<Rightarrow> string \<Rightarrow> string \<Rightarrow> mail_request list" where
  "send_mail post m recipient subject body = (case m of None \<Rightarrow> [] | Some m' \<Rightarrow> snd (mailer_send post m' recipient subject body))"

definition register_mails ::
  "(mail_request \<Rightarrow> mail_answer) \<Rightarrow> mailer option \<Rightarrow> auth_env \<Rightarrow> string \<Rightarrow> string \<Rightarrow> string \<Rightarrow> dbtx \<Rightarrow> mail_request list" where
  "register_mails post m env email password native_language t = (case fst (register env email password native_language t) of
     Inl _ \<Rightarrow> []
   | Inr _ \<Rightarrow> send_mail post m (normalize_email email) ''Bienvenue sur APM''
       (''Ton compte Anglais Pour Moi est pr'' @ [CHR 0xEA] @ ''t. Tu peux te connecter et parler.''))"

definition reset_text :: "string \<Rightarrow> string" where
  "reset_text raw = ''Voici ton jeton de r'' @ [CHR 0xE9] @ ''initialisation (valide 1 heure).'' @ [CHR 0x0A, CHR 0x0A] @ raw @
     [CHR 0x0A, CHR 0x0A] @ ''Colle-le dans l'' @ [CHR 0x27] @ [CHR 0xE9] @ ''cran Nouveau mot de passe. Ne le partage pas.''"

definition reset_mails ::
  "(mail_request \<Rightarrow> mail_answer) \<Rightarrow> mailer option \<Rightarrow> auth_env \<Rightarrow> string \<Rightarrow> dbtx \<Rightarrow> mail_request list" where
  "reset_mails post m env email t = (case fst (request_password_reset env email t) of
     Inr (Some raw) \<Rightarrow> (case get_by_email (normalize_email email) (working t) of
         None \<Rightarrow> []
       | Some u \<Rightarrow> send_mail post m (u_email u) ([CHR ''R'', CHR 0xE9] @ ''initialise ton mot de passe APM'') (reset_text raw))
   | _ \<Rightarrow> [])"

text \<open>A reset token is mailed to the account's own address and to nobody else.\<close>

lemma send_mail_to:
  assumes "req \<in> set (send_mail post m recipient subject body)"
  shows "mr_to req = [recipient] \<and> mr_text req = body"
  using assms by (cases m) (auto simp: send_mail_def mailer_send_def Let_def split: mailer.split_asm mail_answer.split_asm)

lemma reset_mail_addressed:
  assumes "req \<in> set (reset_mails post m env email t)"
  shows "\<exists>u. get_by_email (normalize_email email) (working t) = Some u \<and> mr_to req = [u_email u]
    \<and> mr_text req = reset_text (en_fresh_token env)"
proof -
  obtain raw u where raw: "fst (request_password_reset env email t) = Inr (Some raw)"
    and u: "get_by_email (normalize_email email) (working t) = Some u"
    using assms by (cases "fst (request_password_reset env email t)"; cases "get_by_email (normalize_email email) (working t)")
      (auto simp: reset_mails_def split: option.split_asm)
  have "mr_to req = [u_email u] \<and> mr_text req = reset_text raw"
    using assms by (auto simp: reset_mails_def raw u dest!: send_mail_to)
  moreover have "raw = en_fresh_token env"
    using raw by (auto simp: request_password_reset_def u Let_def split: if_split_asm sum.split_asm prod.split_asm)
  ultimately show ?thesis using u by simp
qed

section \<open>Request schemas\<close>

definition PASSWORD_MIN_LENGTH :: nat where "PASSWORD_MIN_LENGTH = 8"
definition PASSWORD_MAX_LENGTH :: nat where "PASSWORD_MAX_LENGTH = 128"
definition NATIVE_LANGUAGE_MAX_LENGTH :: nat where "NATIVE_LANGUAGE_MAX_LENGTH = 8"

definition new_password_valid :: "string \<Rightarrow> bool" where
  "new_password_valid p \<longleftrightarrow> PASSWORD_MIN_LENGTH \<le> length p \<and> length p \<le> PASSWORD_MAX_LENGTH"

text \<open>\<open>valid_email\<close> is the normalised address, if the validator accepts it.\<close>

definition register_in :: "(string \<Rightarrow> string option) \<Rightarrow> string \<Rightarrow> string \<Rightarrow> string \<Rightarrow> error + string" where
  "register_in valid_email email password native_language = (case valid_email email of None \<Rightarrow> Inl (RequestValidationErr [])
    | Some e \<Rightarrow> if new_password_valid password \<and> length native_language \<le> NATIVE_LANGUAGE_MAX_LENGTH then Inr e
        else Inl (RequestValidationErr []))"

definition login_in :: "(string \<Rightarrow> string option) \<Rightarrow> string \<Rightarrow> string \<Rightarrow> error + string" where
  "login_in valid_email email password = (case valid_email email of None \<Rightarrow> Inl (RequestValidationErr [])
    | Some e \<Rightarrow> if length password \<le> PASSWORD_MAX_LENGTH then Inr e else Inl (RequestValidationErr []))"

section \<open>Routes\<close>

definition register_route ::
  "(string \<Rightarrow> string option) \<Rightarrow> 'l checks \<Rightarrow> auth_env \<Rightarrow> string \<Rightarrow> string \<Rightarrow> string \<Rightarrow> string \<Rightarrow> 'l \<times> dbtx \<Rightarrow> (error + auth_result) \<times> 'l \<times> dbtx" where
  "register_route valid_email check env client_host email0 password native_language w = (case w of (l, t) \<Rightarrow>
     (case register_in valid_email email0 password native_language of Inl e \<Rightarrow> (Inl e, (l, t))
      | Inr email \<Rightarrow> (case check RegisterIpLim (''register-ip:'' @ client_host) l of (Inl e, l1) \<Rightarrow> (Inl e, (l1, t))
      | (Inr _, l1) \<Rightarrow> (case check RegisterLim (''register:'' @ client_host @ '':'' @ py_lower email) l1 of (Inl e, l2) \<Rightarrow> (Inl e, (l2, t))
      | (Inr _, l2) \<Rightarrow> (case register env email password native_language t of (r, t') \<Rightarrow> (r, (l2, t')))))))"

definition login_guard :: "'l checks \<Rightarrow> string \<Rightarrow> string \<Rightarrow> 'l \<Rightarrow> (error + unit) \<times> 'l" where
  "login_guard check client_host email l = (case check LoginIpLim (''login-ip:'' @ client_host) l of (Inl e, l1) \<Rightarrow> (Inl e, l1)
     | (Inr _, l1) \<Rightarrow> check LoginLim (''login:'' @ client_host @ '':'' @ py_lower email) l1)"

definition login_route ::
  "(string \<Rightarrow> string option) \<Rightarrow> 'l checks \<Rightarrow> auth_env \<Rightarrow> string \<Rightarrow> string \<Rightarrow> string \<Rightarrow> 'l \<times> dbtx \<Rightarrow> (error + auth_result) \<times> 'l \<times> dbtx" where
  "login_route valid_email check env client_host email0 password w = (case w of (l, t) \<Rightarrow>
     (case login_in valid_email email0 password of Inl e \<Rightarrow> (Inl e, (l, t))
      | Inr email \<Rightarrow> (case login_guard check client_host email l of (Inl e, l1) \<Rightarrow> (Inl e, (l1, t))
      | (Inr _, l1) \<Rightarrow> (case login env email password t of (r, t') \<Rightarrow> (r, (l1, t'))))))"

definition refresh_route ::
  "'l checks \<Rightarrow> auth_env \<Rightarrow> string \<Rightarrow> string \<Rightarrow> 'l \<times> dbtx \<Rightarrow> (error + auth_result) \<times> 'l \<times> dbtx" where
  "refresh_route check env client_host token w = (case w of (l, t) \<Rightarrow>
     if 1024 < length token then (Inl (RequestValidationErr []), (l, t))
     else case check RefreshLim (''refresh:'' @ client_host @ '':'' @ en_hash_token env token) l of (Inl e, l1) \<Rightarrow> (Inl e, (l1, t))
       | (Inr _, l1) \<Rightarrow> (case refresh env token t of (r, t') \<Rightarrow> (r, (l1, t'))))"

definition logout_route :: "auth_env \<Rightarrow> string \<Rightarrow> dbtx \<Rightarrow> (error + unit) \<times> dbtx" where
  "logout_route env token t = (if 1024 < length token then (Inl (RequestValidationErr []), t) else logout env token t)"

definition me_route :: "auth_env \<Rightarrow> string option \<Rightarrow> db \<Rightarrow> error + user" where
  "me_route env credentials d = get_current_user env credentials d"

definition change_password_route ::
  "'l checks \<Rightarrow> auth_env \<Rightarrow> string option \<Rightarrow> string \<Rightarrow> string \<Rightarrow> 'l \<times> dbtx \<Rightarrow> (error + unit) \<times> 'l \<times> dbtx" where
  "change_password_route check env credentials old_password new_password w = (case w of (l, t) \<Rightarrow>
     (case get_current_user env credentials (working t) of Inl e \<Rightarrow> (Inl e, (l, t))
      | Inr u \<Rightarrow> if \<not> new_password_valid new_password then (Inl (RequestValidationErr []), (l, t))
          else case check ChangePasswordLim (user_rate_limit_key ''change_password'' (u_id u)) l of (Inl e, l1) \<Rightarrow> (Inl e, (l1, t))
            | (Inr _, l1) \<Rightarrow> (case change_password env u old_password new_password t of (r, t') \<Rightarrow> (r, (l1, t')))))"

definition forgot_password_route ::
  "(string \<Rightarrow> string option) \<Rightarrow> 'l checks \<Rightarrow> auth_env \<Rightarrow> bool \<Rightarrow> string \<Rightarrow> string \<Rightarrow> 'l \<times> dbtx
   \<Rightarrow> (error + (string \<times> string) list) \<times> 'l \<times> dbtx" where
  "forgot_password_route valid_email check env expose_reset_token client_host email0 w = (case w of (l, t) \<Rightarrow>
     (case valid_email email0 of None \<Rightarrow> (Inl (RequestValidationErr []), (l, t))
      | Some email \<Rightarrow> (case check LoginLim (''forgot:'' @ client_host) l of (Inl e, l1) \<Rightarrow> (Inl e, (l1, t))
      | (Inr _, l1) \<Rightarrow> (case request_password_reset env email t of
          (Inl e, t') \<Rightarrow> (Inl e, (l1, t'))
        | (Inr raw, t') \<Rightarrow> (Inr ((''status'', ''ok'') # (case raw of None \<Rightarrow> [] | Some x \<Rightarrow> if expose_reset_token then [(''token'', x)] else [])),
            (l1, t'))))))"

definition reset_password_route ::
  "'l checks \<Rightarrow> auth_env \<Rightarrow> string \<Rightarrow> string \<Rightarrow> string \<Rightarrow> 'l \<times> dbtx \<Rightarrow> (error + unit) \<times> 'l \<times> dbtx" where
  "reset_password_route check env client_host token new_password w = (case w of (l, t) \<Rightarrow>
     if length token < 8 \<or> 1024 < length token \<or> \<not> new_password_valid new_password then (Inl (RequestValidationErr []), (l, t))
     else case check LoginLim (''reset:'' @ client_host) l of (Inl e, l1) \<Rightarrow> (Inl e, (l1, t))
       | (Inr _, l1) \<Rightarrow> (case reset_password env token new_password t of (r, t') \<Rightarrow> (r, (l1, t'))))"

section \<open>Brute force\<close>

text \<open>A sequence of login requests with time, client address and e-mail: which of them reach the password check.\<close>

fun guard_run :: "(auth_limiter \<Rightarrow> limiter_cfg) \<Rightarrow> (real \<times> string \<times> string) list \<Rightarrow> (auth_limiter \<Rightarrow> hit_table) \<Rightarrow> (real \<times> string \<times> bool) list" where
  "guard_run cfg [] tables = []"
| "guard_run cfg ((now, host, email) # reqs) tables = (case login_guard (inmem_checks cfg now) host email tables of
     (r, tables') \<Rightarrow> (now, host, r = Inr ()) # guard_run cfg reqs tables')"

abbreviation ip_events :: "(real \<times> string \<times> string) list \<Rightarrow> (real \<times> string) list" where
  "ip_events reqs \<equiv> map (\<lambda>(now, host, email). (now, ''login-ip:'' @ host)) reqs"

lemma login_guard_ip:
  assumes "login_guard (inmem_checks cfg now) host email tables = (r, tables')"
    and "inmem_check (cfg LoginIpLim) now (''login-ip:'' @ host) (tables LoginIpLim) = (r1, h1)"
  shows "tables' LoginIpLim = h1 \<and> (r = Inr () \<longrightarrow> r1 = Inr ())"
  using assms by (auto simp: login_guard_def inmem_checks_def split: sum.splits prod.splits)

text \<open>The requests that pass are among those the address limiter lets through.\<close>

lemma guard_run_accepted:
  "length (filter (\<lambda>(t, h, ok). P t \<and> h = host \<and> ok) (guard_run cfg reqs tables))
   \<le> length (filter P (accepted_times (''login-ip:'' @ host) (inmem_run (cfg LoginIpLim) (ip_events reqs) (tables LoginIpLim))))"
proof (induction reqs arbitrary: tables)
  case (Cons req reqs)
  obtain now h email where q: "req = (now, h, email)" by (cases req) auto
  obtain r tables' where g: "login_guard (inmem_checks cfg now) h email tables = (r, tables')" by force
  obtain r1 h1 where c: "inmem_check (cfg LoginIpLim) now (''login-ip:'' @ h) (tables LoginIpLim) = (r1, h1)" by force
  note ip = login_guard_ip [OF g c]
  have IH: "length (filter (\<lambda>(t, h, ok). P t \<and> h = host \<and> ok) (guard_run cfg reqs tables'))
      \<le> length (filter P (accepted_times (''login-ip:'' @ host) (inmem_run (cfg LoginIpLim) (ip_events reqs) h1)))"
    using Cons [of tables'] ip by simp
  have run: "guard_run cfg (req # reqs) tables = (now, h, r = Inr ()) # guard_run cfg reqs tables'" by (simp add: q g)
  have hits: "inmem_run (cfg LoginIpLim) (ip_events (req # reqs)) (tables LoginIpLim)
      = (now, ''login-ip:'' @ h, r1 = Inr ()) # inmem_run (cfg LoginIpLim) (ip_events reqs) h1"
    using c by (simp add: q)
  show ?case unfolding run hits using IH ip by (auto simp: accepted_times_def)
qed simp


definition demo_limits :: "auth_limiter \<Rightarrow> limiter_cfg" where
  "demo_limits which = \<lparr>rl_max = 2, rl_window = 60, rl_max_keys = 3\<rparr>"


section \<open>Forgotten passwords\<close>

lemma request_reset_frame:
  assumes "en_fault env SaveUser = None" "request_password_reset env email t = (r, t')"
  shows "(\<exists>raw. r = Inr raw) \<and> (get_user uid (working t') \<noteq> get_user uid (working t) \<longrightarrow>
    (\<exists>u. get_by_email (normalize_email email) (working t) = Some u \<and> uid = u_id u))"
proof (cases "get_by_email (normalize_email email) (working t)")
  case (Some u)
  then show ?thesis using assms
    by (cases "uid = u_id u") (auto simp: request_password_reset_def save_user_def tx_modify_def tx_commit_def Let_def get_user_put_user_other split: if_split_asm)
qed (use assms in \<open>auto simp: request_password_reset_def Let_def\<close>)

text \<open>The forgotten-password route does not tell which accounts exist. Unless the reset token is exposed by a setting that
  deployed environments forbid, and as long as the write does not fail, its answer and the limiter's state are the same
  for every database; and it changes no user but the one whose address was given.\<close>

theorem forgot_password_reveals_nothing:
  assumes "en_fault env SaveUser = None"
    and "forgot_password_route valid_email check env False host email (l, t1) = (r1, (l1, t1'))"
    and "forgot_password_route valid_email check env False host email (l, t2) = (r2, (l2, t2'))"
  shows "r1 = r2 \<and> l1 = l2 \<and> (\<forall>body. r1 = Inr body \<longrightarrow> body = [(''status'', ''ok'')])
    \<and> (\<forall>uid. get_user uid (working t1') \<noteq> get_user uid (working t1) \<longrightarrow>
        (\<exists>e u. valid_email email = Some e \<and> get_by_email (normalize_email e) (working t1) = Some u \<and> uid = u_id u))"
proof (cases "valid_email email")
  case None
  then show ?thesis using assms(2, 3) by (auto simp: forgot_password_route_def)
next
  case (Some e)
  obtain c l' where c: "check LoginLim (''forgot:'' @ host) l = (c, l')" by force
  obtain q1 u1 where q1: "request_password_reset env e t1 = (q1, u1)" by force
  obtain q2 u2 where q2: "request_password_reset env e t2 = (q2, u2)" by force
  obtain raw1 where raw1: "q1 = Inr raw1" using request_reset_frame [THEN conjunct1, OF assms(1) q1] by (elim exE)
  obtain raw2 where raw2: "q2 = Inr raw2" using request_reset_frame [THEN conjunct1, OF assms(1) q2] by (elim exE)
  note frame = request_reset_frame [OF assms(1) q1]
  note 1 = assms(2) [unfolded forgot_password_route_def prod.case Some option.case c q1 raw1]
  note 2 = assms(3) [unfolded forgot_password_route_def prod.case Some option.case c q2 raw2]
  show ?thesis
  proof (cases c)
    case (Inl err)
    show ?thesis using 1 2 by (auto simp: Inl)
  next
    case (Inr u)
    have "r1 = Inr [(''status'', ''ok'')]" "l1 = l'" "t1' = u1" using 1 by (simp_all add: Inr split: option.split_asm)
    moreover have "r2 = Inr [(''status'', ''ok'')]" "l2 = l'" using 2 by (simp_all add: Inr split: option.split_asm)
    ultimately show ?thesis using frame Some by simp
  qed
qed

theorem forgot_password_reveals_nothing_witness:
  "fst (forgot_password_route Some (inmem_checks demo_limits 0) demo_env False ''10.0.0.1'' ''a@x.org'' (\<lambda>_. [], tx_begin empty_db))
   = fst (forgot_password_route Some (inmem_checks demo_limits 0) demo_env False ''10.0.0.1'' ''a@x.org'' (\<lambda>_. [],
       snd (register demo_env ''a@x.org'' ''longsecret'' ''fr'' (tx_begin empty_db))))"
proof -
  let ?r = "\<lambda>t. forgot_password_route Some (inmem_checks demo_limits 0) demo_env False ''10.0.0.1'' ''a@x.org'' (\<lambda>_. [], t)"
  let ?t2 = "snd (register demo_env ''a@x.org'' ''longsecret'' ''fr'' (tx_begin empty_db))"
  obtain r1 l1 t1' where 1: "?r (tx_begin empty_db) = (r1, (l1, t1'))" by (metis prod.exhaust)
  obtain r2 l2 t2' where 2: "?r ?t2 = (r2, (l2, t2'))" by (metis prod.exhaust)
  have f: "en_fault demo_env SaveUser = None" by (simp add: demo_env_def)
  show ?thesis using forgot_password_reveals_nothing [OF f 1 2] unfolding 1 2 by simp
qed

end
