(* ===== verification/ExportJson.thy ===== *)
theory ExportJson
  imports VoiceData JsonText AuthRoutes
begin

text \<open>
  The routes of a learner's voice data (\<^verbatim>\<open>app/features/voice_data/router.py\<close>, \<^verbatim>\<open>service.py\<close>): the JSON export, streamed
  row by row, and the erasure. The text sent is compared with a JSON reader that knows nothing of how it was assembled.
  \<open>isoformat\<close> of an instant is an argument; the order of an object's keys is the one in which the code writes them, and carries
  no meaning.
\<close>

section \<open>Rows as JSON\<close>

abbreviation JInt :: "int \<Rightarrow> json" where "JInt n \<equiv> JNum (py_str_int n)"

definition utterance_json :: "(instant \<Rightarrow> string) \<Rightarrow> utterance \<Rightarrow> json" where
  "utterance_json isoformat u = JObj [(''session_id'', JInt (ut_session_id u)), (''started_at'', JStr (isoformat (ut_started_at u))),
     (''text'', JStr (ut_text u))]"

definition vocabulary_json :: "string \<times> string \<times> string \<Rightarrow> json" where
  "vocabulary_json e = (case e of (word, translation, example) \<Rightarrow>
     JObj [(''word'', JStr word), (''translation'', JStr translation), (''example'', JStr example)])"

definition error_json :: "debrief_error \<Rightarrow> json" where
  "error_json e = JObj [(''original'', JStr (de_original e)), (''correction'', JStr (de_correction e)), (''rule'', JStr (de_rule e)),
     (''error_type'', JStr (de_error_type e)), (''explanation'', JStr (de_explanation e)),
     (''examples'', JList (map JStr (de_examples e))), (''alternatives'', JList (map JStr (de_alternatives e)))]"

definition debrief_json :: "(instant \<Rightarrow> string) \<Rightarrow> debrief_item \<Rightarrow> json" where
  "debrief_json isoformat b = JObj [(''session_id'', JInt (dx_session_id b)), (''started_at'', JStr (isoformat (dx_started_at b))),
     (''cefr_estimate'', JStr (dx_cefr_estimate b)), (''summary'', JStr (dx_summary b)), (''errors'', JList (map error_json (dx_errors b)))]"

definition review_json :: "(instant \<Rightarrow> string) \<Rightarrow> review_export \<Rightarrow> json" where
  "review_json isoformat r = (case r of (error_type, latest_correction, stage, status, next_review_at) \<Rightarrow>
     JObj [(''error_type'', JStr error_type), (''latest_correction'', JStr latest_correction), (''stage'', JInt stage),
       (''status'', JStr status), (''next_review_at'', case next_review_at of None \<Rightarrow> JNull | Some i \<Rightarrow> JStr (isoformat i))])"

section \<open>Assembling the stream\<close>

text \<open>The rows of a category may end in a failed query: what was yielded before has been sent, the rest is not.\<close>

fun item_chunks :: "bool \<Rightarrow> json list \<Rightarrow> string list" where
  "item_chunks first [] = []"
| "item_chunks first (x # xs) = (if first then [] else ['','']) @ dumps x # item_chunks False xs"

fun category_chunks :: "(string \<times> json list \<times> bool) list \<Rightarrow> string list \<times> bool" where
  "category_chunks [] = ([''}''], True)"
| "category_chunks ((key, rows, broken) # cs) =
     (let start = ('', '' @ [CHR 0x22] @ key @ [CHR 0x22] @ '': ['') # item_chunks True rows
      in if broken then (start, False) else case category_chunks cs of (rest, ok) \<Rightarrow> (start @ '']'' # rest, ok))"

definition assemble_export_json :: "(string \<times> json list \<times> bool) list \<Rightarrow> string list \<times> bool" where
  "assemble_export_json categories = (case category_chunks categories of (chunks, ok) \<Rightarrow>
     ((''{'' @ [CHR 0x22] @ ''raw_audio_retained'' @ [CHR 0x22] @ '': false'') # chunks, ok))"

text \<open>The four generators run one after the other, each page on its own database state; \<open>fault i\<close> is the number of rows after which
  the query of category \<open>i\<close> fails. \<open>None\<close> is a paging loop that never ends.\<close>

definition rows_sent :: "nat option \<Rightarrow> json list \<Rightarrow> json list \<times> bool" where
  "rows_sent fault rows = (case fault of None \<Rightarrow> (rows, False) | Some k \<Rightarrow> (take k rows, True))"

definition stream_export_json ::
  "(instant \<Rightarrow> string) \<Rightarrow> int \<Rightarrow> (nat \<Rightarrow> nat \<Rightarrow> db) \<Rightarrow> (nat \<Rightarrow> nat option) \<Rightarrow> (string list \<times> bool) option" where
  "stream_export_json isoformat uid ds fault =
     (case (export_utterances uid (ds 0), export_vocabulary uid (ds 1), export_debriefs uid (ds 2), export_review_items uid (ds 3)) of
        (Some us, Some vs, Some bs, Some rs) \<Rightarrow> Some (assemble_export_json
          [(''utterances'', rows_sent (fault 0) (map (utterance_json isoformat) us)),
           (''vocabulary'', rows_sent (fault 1) (map vocabulary_json vs)),
           (''debriefs'', rows_sent (fault 2) (map (debrief_json isoformat) bs)),
           (''review_items'', rows_sent (fault 3) (map (review_json isoformat) rs))])
      | _ \<Rightarrow> None)"

section \<open>Routes\<close>

definition VOICE_DATA_EXPORT_RATE_LIMIT_MAX :: nat where "VOICE_DATA_EXPORT_RATE_LIMIT_MAX = 5"
definition VOICE_DATA_EXPORT_RATE_LIMIT_WINDOW_SECONDS :: real where "VOICE_DATA_EXPORT_RATE_LIMIT_WINDOW_SECONDS = 3600"

definition export_limiter :: "nat \<Rightarrow> limiter_cfg" where
  "export_limiter max_keys = \<lparr>rl_max = VOICE_DATA_EXPORT_RATE_LIMIT_MAX, rl_window = VOICE_DATA_EXPORT_RATE_LIMIT_WINDOW_SECONDS,
     rl_max_keys = max_keys\<rparr>"

text \<open>The request's own transaction is rolled back before the download starts; the pages use others.\<close>

definition export_voice_data_route ::
  "(string \<Rightarrow> 'l \<Rightarrow> (error + unit) \<times> 'l) \<Rightarrow> auth_env \<Rightarrow> (instant \<Rightarrow> string) \<Rightarrow> string option \<Rightarrow> (nat \<Rightarrow> nat \<Rightarrow> db) \<Rightarrow> (nat \<Rightarrow> nat option) \<Rightarrow> 'l \<times> dbtx
   \<Rightarrow> (error + (string list \<times> bool) option) \<times> 'l \<times> dbtx" where
  "export_voice_data_route check env isoformat credentials ds fault w = (case w of (l, t) \<Rightarrow>
     (case get_current_user env credentials (working t) of Inl e \<Rightarrow> (Inl e, (l, t))
      | Inr u \<Rightarrow> (case check (user_rate_limit_key ''voice-data-export'' (u_id u)) l of
          (Inl e, l1) \<Rightarrow> (Inl e, (l1, t))
        | (Inr _, l1) \<Rightarrow> (Inr (stream_export_json isoformat (u_id u) ds fault), (l1, tx_rollback t)))))"

definition erase_voice_data_route ::
  "auth_env \<Rightarrow> string option \<Rightarrow> nat option \<Rightarrow> dbtx \<Rightarrow> (error + (string \<times> nat) list) \<times> dbtx" where
  "erase_voice_data_route env credentials fault t = (case get_current_user env credentials (working t) of
      Inl e \<Rightarrow> (Inl e, t) | Inr u \<Rightarrow> purge (u_id u) fault t)"

section \<open>What the client reads\<close>

lemma item_chunks_text:
  "concat (item_chunks True xs) = py_join '','' (map dumps xs)"
  "xs \<noteq> [] \<Longrightarrow> concat (item_chunks False xs) = '','' @ py_join '','' (map dumps xs)"
proof (induction xs)
  case (Cons x xs)
  {
    case 1
    then show ?case using Cons.IH(2) by (cases xs) auto
  next
    case 2
    then show ?case using Cons.IH(2) by (cases xs) auto
  }
qed auto

text \<open>The text of an object whose members are the categories, the last possibly cut.\<close>

definition category_text :: "string \<times> json list \<times> bool \<Rightarrow> string \<times> string" where
  "category_text c = (fst c, CHR ''['' # py_join '','' (map dumps (fst (snd c))) @ (if snd (snd c) then [] else '']''))"

fun sent_categories :: "(string \<times> json list \<times> bool) list \<Rightarrow> (string \<times> json list \<times> bool) list" where
  "sent_categories [] = []"
| "sent_categories (c # cs) = (if snd (snd c) then [c] else c # sent_categories cs)"

definition plain_key :: "string \<Rightarrow> bool" where
  "plain_key k \<longleftrightarrow> concat (map escape_char k) = k"

lemma category_chunks_text:
  assumes "category_chunks cs = (chunks, ok)" "list_all (\<lambda>c. plain_key (fst c)) cs"
  shows "concat chunks = concat (map (\<lambda>c. '', '' @ member_text '' '' (category_text c)) (sent_categories cs)) @ (if ok then ''}'' else [])
    \<and> (ok \<longleftrightarrow> list_all (\<lambda>c. \<not> snd (snd c)) cs)"
  using assms
proof (induction cs arbitrary: chunks ok)
  case (Cons c cs)
  obtain key rows broken where c: "c = (key, rows, broken)" by (cases c)
  obtain chunks' ok' where r: "category_chunks cs = (chunks', ok')" by force
  have k: "member_text '' '' (category_text c) = [CHR 0x22] @ key @ [CHR 0x22] @ '': ['' @ concat (item_chunks True rows) @ (if broken then [] else '']'')"
    using Cons.prems(2) by (simp add: c member_text_def category_text_def json_quote_def plain_key_def item_chunks_text)
  show ?case using Cons.IH [OF r] Cons.prems k by (cases broken) (auto simp: c r Let_def)
qed simp

lemma py_join_Cons: "py_join sep (t # ts) = t @ concat (map (\<lambda>u. sep @ u) ts)"
  by (induction ts arbitrary: t) auto

abbreviation retained :: "string \<times> string" where "retained \<equiv> (''raw_audio_retained'', ''false'')"

lemma retained_text: "member_text '' '' retained = [CHR 0x22] @ ''raw_audio_retained'' @ [CHR 0x22] @ '': false''"
  by (simp add: member_text_def json_quote_def escape_char_def)

lemma assembled_text:
  assumes "assemble_export_json cs = (chunks, ok)" "list_all (\<lambda>c. plain_key (fst c)) cs"
  shows "concat chunks = CHR ''{'' # py_join '', '' (map (member_text '' '') (retained # map category_text (sent_categories cs))) @ (if ok then ''}'' else [])"
    and "ok \<longleftrightarrow> list_all (\<lambda>c. \<not> snd (snd c)) cs"
  using assms category_chunks_text [of cs] retained_text
  by (auto simp: assemble_export_json_def py_join_Cons comp_def split: prod.splits)

lemma sent_all: "list_all (\<lambda>c. \<not> snd (snd c)) cs \<Longrightarrow> sent_categories cs = cs"
  by (induction cs) auto

lemma sent_cut:
  "\<not> list_all (\<lambda>c. \<not> snd (snd c)) cs \<Longrightarrow> \<exists>us c. sent_categories cs = us @ [c] \<and> list_all (\<lambda>c. \<not> snd (snd c)) us \<and> snd (snd c)
    \<and> set us \<union> {c} \<subseteq> set cs"
proof (induction cs)
  case (Cons d cs)
  show ?case
  proof (cases "snd (snd d)")
    case True
    then show ?thesis by (intro exI [of _ "[]"] exI [of _ d]) auto
  next
    case False
    then obtain us c where "sent_categories cs = us @ [c]" "list_all (\<lambda>c. \<not> snd (snd c)) us" "snd (snd c)" "set us \<union> {c} \<subseteq> set cs"
      using Cons by auto
    then show ?thesis using False by (intro exI [of _ "d # us"] exI [of _ c]) auto
  qed
qed simp

lemma reads_rows: "list_all json_ok rows \<Longrightarrow> list_all2 (\<lambda>t v. reads (length t) t v) (map dumps rows) rows"
  by (auto simp: list_all2_conv_all_nth list_all_length reads_dumps)

lemma reads_categories:
  assumes "list_all (\<lambda>c. list_all json_ok (fst (snd c)) \<and> \<not> snd (snd c)) cs"
  shows "list_all2 (\<lambda>e kv. fst e = fst kv \<and> reads (length (snd e)) (snd e) (snd kv))
    (retained # map category_text cs) ((''raw_audio_retained'', JBool False) # map (\<lambda>c. (fst c, JList (fst (snd c)))) cs)"
proof -
  have r: "reads (length ''false'') ''false'' (JBool False)" by (rule reads_mono [OF reads_atoms(3)]) simp
  have "reads (length (snd (category_text c))) (snd (category_text c)) (JList (fst (snd c)))" if "c \<in> set cs" for c
    using reads_list_length [OF _ reads_rows, of "[]" "fst (snd c)"] that assms by (auto simp: blanks_def category_text_def list_all_iff)
  then have "list_all2 (\<lambda>e kv. fst e = fst kv \<and> reads (length (snd e)) (snd e) (snd kv))
      (map category_text cs) (map (\<lambda>c. (fst c, JList (fst (snd c)))) cs)"
    by (simp add: list_all2_conv_all_nth) (simp add: category_text_def)
  then show ?thesis using r by simp
qed

text \<open>What the text means: all categories, or nothing at all when a query failed on the way.\<close>

lemma assembled_reads:
  assumes "assemble_export_json cs = (chunks, ok)" "list_all (\<lambda>c. plain_key (fst c) \<and> list_all json_ok (fst (snd c))) cs"
  shows "ok \<Longrightarrow> read_json (concat chunks) = Some (JObj ((''raw_audio_retained'', JBool False) # map (\<lambda>c. (fst c, JList (fst (snd c)))) cs))"
    and "\<not> ok \<Longrightarrow> read_json (concat chunks) = None"
proof -
  have plain: "list_all (\<lambda>c. plain_key (fst c)) cs" using assms(2) by (simp add: list_all_iff)
  note written = assembled_text [OF assms(1) plain]
  show "read_json (concat chunks) = Some (JObj ((''raw_audio_retained'', JBool False) # map (\<lambda>c. (fst c, JList (fst (snd c)))) cs))" if ok
  proof -
    have "list_all (\<lambda>c. list_all json_ok (fst (snd c)) \<and> \<not> snd (snd c)) cs" using that written(2) assms(2) by (simp add: list_all_iff)
    from reads_object_length [OF _ _ reads_categories [OF this], of "'' ''" "'' ''"] show ?thesis
      using that written sent_all [of cs] by (simp add: blanks_def Let_def read_json_reads)
  qed
  show "read_json (concat chunks) = None" if cut_off: "\<not> ok"
  proof -
    obtain us c where sent: "sent_categories cs = us @ [c]" "list_all (\<lambda>c. \<not> snd (snd c)) us" "snd (snd c)" "set us \<union> {c} \<subseteq> set cs"
      using sent_cut [of cs] cut_off written(2) by blast
    have us: "list_all (\<lambda>c. list_all json_ok (fst (snd c)) \<and> \<not> snd (snd c)) us"
      and c: "list_all json_ok (fst (snd c))" using sent assms(2) by (auto simp: list_all_iff)
    let ?es = "retained # map category_text us" and ?ts = "map dumps (fst (snd c))"
    let ?n = "Suc (sum_list (map (\<lambda>e. length (snd e)) ?es) + sum_list (map length ?ts) + length ?ts)"
    have members: "list_all2 (\<lambda>e kv. fst e = fst kv \<and> reads ?n (snd e) (snd kv))
        ?es ((''raw_audio_retained'', JBool False) # map (\<lambda>c. (fst c, JList (fst (snd c)))) us)"
      by (rule list_all2_mono [OF members_common [OF reads_categories [OF us]]]) (auto intro: reads_mono)
    have cut: "stuck ?n (snd (category_text c))"
      using stuck_list [OF _ reads_common [OF reads_rows [OF c]], of "[]"] sent(3) by (auto simp: stuck_def blanks_def category_text_def)
    have len: "sum_list (map (\<lambda>e. length (snd e)) ?es) + 3 * length ?es \<le> sum_list (map (length \<circ> member_text '' '') ?es)"
      by (rule members_length)
    have cut_text: "concat chunks = CHR ''{'' # py_join '', '' (map (member_text '' '') (?es @ [(fst c, snd (category_text c))]))"
      using written(1) cut_off by (simp add: sent(1) category_text_def)
    show ?thesis unfolding cut_text
      by (rule read_json_stuck [OF stuck_object [OF _ _ members cut]])
        (use len sent(3) in \<open>auto simp: blanks_def length_py_join category_text_def member_text_def [of _ "(fst c, x)" for x] comp_def\<close>)
  qed
qed

lemma export_keys_plain: "plain_key ''utterances'' \<and> plain_key ''vocabulary'' \<and> plain_key ''debriefs'' \<and> plain_key ''review_items''"
  by (simp add: plain_key_def escape_char_def)

lemma py_str_int_numeral: "json_ok (JInt n)"
proof -
  have "list_all is_num_char (show_nat k)" for k using show_nat_digits by (auto simp: list_all_iff is_num_char_def)
  then show ?thesis by (auto simp: py_str_int_def is_num_char_def show_nat_not_Nil)
qed

lemma rows_ok:
  "json_ok (utterance_json isoformat u)" "json_ok (vocabulary_json w)" "json_ok (debrief_json isoformat b)" "json_ok (review_json isoformat r)"
  using py_str_int_numeral
  by (auto simp: utterance_json_def vocabulary_json_def debrief_json_def error_json_def review_json_def split: prod.splits option.splits)

lemma rows_sent_ok: "(\<And>x. json_ok (f x)) \<Longrightarrow> list_all json_ok (fst (rows_sent fault (map f xs)))"
  by (auto simp: rows_sent_def list_all_iff take_map split: option.split)

definition export_document :: "(instant \<Rightarrow> string) \<Rightarrow> utterance list \<Rightarrow> (string \<times> string \<times> string) list \<Rightarrow> debrief_item list \<Rightarrow> review_export list \<Rightarrow> json" where
  "export_document isoformat us vs bs rs = JObj [(''raw_audio_retained'', JBool False),
     (''utterances'', JList (map (utterance_json isoformat) us)), (''vocabulary'', JList (map vocabulary_json vs)),
     (''debriefs'', JList (map (debrief_json isoformat) bs)), (''review_items'', JList (map (review_json isoformat) rs))]"

text \<open>C21: The streamed export is the JSON document it stands for, all of it or unreadable. Whatever the rows contain (quotes,
  backslashes, control and accented characters), the text sent while the four paged queries run reads back, with an
  independent JSON reader, as exactly the rows the queries produced; if a query fails on the way, after any number of
  rows, the text that was sent is not a JSON document, so that a cut download can never pass for a complete one.\<close>

theorem export_text_reads_back:
  assumes "stream_export_json isoformat uid ds fault = Some (chunks, whole)"
  shows "\<exists>us vs bs rs. export_utterances uid (ds 0) = Some us \<and> export_vocabulary uid (ds 1) = Some vs
    \<and> export_debriefs uid (ds 2) = Some bs \<and> export_review_items uid (ds 3) = Some rs
    \<and> (whole \<longleftrightarrow> (\<forall>i < 4. fault i = None))
    \<and> read_json (concat chunks) = (if whole then Some (export_document isoformat us vs bs rs) else None)"
proof -
  obtain us vs bs rs where q: "export_utterances uid (ds 0) = Some us" "export_vocabulary uid (ds 1) = Some vs"
    "export_debriefs uid (ds 2) = Some bs" "export_review_items uid (ds 3) = Some rs"
    using assms by (auto simp: stream_export_json_def split: option.split_asm)
  let ?cs = "[(''utterances'', rows_sent (fault 0) (map (utterance_json isoformat) us)),
    (''vocabulary'', rows_sent (fault 1) (map vocabulary_json vs)), (''debriefs'', rows_sent (fault 2) (map (debrief_json isoformat) bs)),
    (''review_items'', rows_sent (fault 3) (map (review_json isoformat) rs))]"
  have a: "assemble_export_json ?cs = (chunks, whole)" using assms [unfolded stream_export_json_def q] by simp
  have ok: "list_all (\<lambda>c. plain_key (fst c) \<and> list_all json_ok (fst (snd c))) ?cs"
    using export_keys_plain by (simp add: rows_sent_ok rows_ok)
  have "list_all (\<lambda>c. plain_key (fst c)) ?cs" using ok by (simp add: list_all_iff)
  from assembled_text(2) [OF a this] have c: "whole \<longleftrightarrow> fault 0 = None \<and> fault 1 = None \<and> fault 2 = None \<and> fault 3 = None"
    by (auto simp: rows_sent_def split: option.splits)
  have "whole \<longleftrightarrow> (\<forall>i < 4. fault i = None)" unfolding c by (auto simp: less_Suc_eq numeral_eq_Suc)
  moreover have "read_json (concat chunks) = (if whole then Some (export_document isoformat us vs bs rs) else None)"
  proof (cases whole)
    case True
    then have "fault 0 = None" "fault 1 = None" "fault 2 = None" "fault 3 = None" using c by blast+
    then show ?thesis using assembled_reads(1) [OF a ok True] True by (simp add: export_document_def rows_sent_def)
  qed (use assembled_reads(2) [OF a ok] in simp)
  ultimately show ?thesis using q by blast
qed

theorem export_text_reads_back_witness:
  "\<exists>chunks us. stream_export_json (\<lambda>_. ''2026-08-16'') 1 (\<lambda>_ _. demo_voice_db) (\<lambda>_. None) = Some (chunks, True)
    \<and> export_utterances 1 (\<lambda>_. demo_voice_db) = Some us
    \<and> (\<exists>rest. read_json (concat chunks) = Some (JObj ((''raw_audio_retained'', JBool False) #
        (''utterances'', JList (map (utterance_json (\<lambda>_. ''2026-08-16'')) us)) # rest)))"
proof -
  have ok: "export_ok demo_voice_db"
    by (simp add: export_ok_def unique_on_def demo_voice_db_def demo_started_def demo_db_def empty_db_def)
  note q = export_quiescent [OF ok, of 1]
  obtain chunks whole where s: "stream_export_json (\<lambda>_. ''2026-08-16'') 1 (\<lambda>_ _. demo_voice_db) (\<lambda>_. None) = Some (chunks, whole)"
    unfolding stream_export_json_def q by simp (blast intro: prod.exhaust)
  from export_text_reads_back [OF s] show ?thesis using s by (auto simp: export_document_def)
qed

end
