(* ===== verification/ConversationProps.thy ===== *)
theory ConversationProps
  imports Conversation
begin

text \<open>
  Properties of the conversation turn: the terminal write on an active and on an ended session, the
  order of the streamed events, what survives each way a stream can end, and that both routes free the
  session's turn lock on every path.
\<close>

section \<open>Transcript table\<close>

lemma get_transcript_SomeD: "get_transcript sid d = Some x \<Longrightarrow> x \<in> set (transcripts d) \<and> tr_session_id x = sid"
  unfolding get_transcript_def by (rule find_SomeD)

lemma upsert_transcript_frame [simp]:
  "users (upsert_transcript sid turns d) = users d" "sessions (upsert_transcript sid turns d) = sessions d"
  "idempotency (upsert_transcript sid turns d) = idempotency d"
  "get_user v (upsert_transcript sid turns d) = get_user v d"
  "get_session v (upsert_transcript sid turns d) = get_session v d"
  by (simp_all add: upsert_transcript_def get_user_def get_session_def)

lemma get_transcript_upsert: "get_transcript v (upsert_transcript sid turns d)
   = (if v = sid then Some \<lparr>tr_session_id = sid, tr_turns = turns\<rparr> else get_transcript v d)"
proof (cases "get_transcript sid d")
  case None
  show ?thesis
  proof (cases "get_transcript v d")
    case None
    then show ?thesis using \<open>get_transcript sid d = None\<close>
      by (auto simp: upsert_transcript_def get_transcript_def find_append_None)
  next
    case (Some x)
    then show ?thesis using None by (auto simp: upsert_transcript_def get_transcript_def find_append_Some)
  qed
next
  case (Some x)
  then have "transcripts (upsert_transcript sid turns d)
      = update_where (\<lambda>x. tr_session_id x = sid) (tr_turns_update (\<lambda>_. turns)) (transcripts d)"
    by (simp add: upsert_transcript_def)
  then have "get_transcript v (upsert_transcript sid turns d)
      = map_option (\<lambda>x. if tr_session_id x = sid then tr_turns_update (\<lambda>_. turns) x else x) (get_transcript v d)"
    unfolding get_transcript_def by (simp add: find_update_where_same)
  then show ?thesis using Some by (cases "get_transcript v d") (auto dest: get_transcript_SomeD)
qed

section \<open>The terminal write\<close>

lemma bound_turns_suffix: "suffix (bound_turns limit turns) turns"
  by (simp add: bound_turns_def suffix_last_n)

lemma bound_turns_length: "limit > 0 \<Longrightarrow> int (length (bound_turns limit turns)) \<le> limit"
  by (auto simp: bound_turns_def)

lemma bound_turns_keeps:
  "limit \<le> 0 \<or> int (length ys) \<le> limit \<Longrightarrow> suffix ys (bound_turns limit (xs @ ys))"
proof -
  assume a: "limit \<le> 0 \<or> int (length ys) \<le> limit"
  have "length ys \<le> length (bound_turns limit (xs @ ys))" using a by (auto simp: bound_turns_def)
  then show ?thesis using bound_turns_suffix [of limit "xs @ ys"] suffix_length_suffix [of ys "xs @ ys"]
    by (simp add: suffixI)
qed

lemma turns_storable_suffix: "suffix ys xs \<Longrightarrow> turns_storable xs \<Longrightarrow> turns_storable ys"
  by (auto simp: turns_storable_def list_all_iff dest: set_mono_suffix)

lemma record_turn_activity_active:
  fixes now :: instant and cfg :: session_cfg
  assumes "get_session sid (working t) = Some s" "cs_user_id s = uid" "cs_ended_at s = None"
  defines "m \<equiv> elapsed_minutes (as_utc (cs_last_activity_at s)) (utc now) (Some (sc_turn_meter_cap cfg))"
  shows "record_turn_activity cfg sid uid now t = (Inr (), tx_commit (tx_modify (\<lambda>d.
      put_user uid (turn_user_update m (date_of (utc now))) (put_session sid (turn_session_update m now) d)) t))"
  using assms by (simp add: record_turn_activity_def turn_read_def turn_locked_def)

lemma record_turn_activity_inactive:
  assumes "get_session sid (working t) = Some s" "cs_user_id s \<noteq> uid \<or> cs_ended_at s \<noteq> None"
  shows "record_turn_activity cfg sid uid now t = (Inr (), t)"
  using assms by (auto simp: record_turn_activity_def turn_read_def)

lemma save_transcript_ok:
  assumes "turns_storable turns" "get_session sid (working t) \<noteq> None"
  shows "save_transcript sid turns False t = (Inr (), tx_modify (upsert_transcript sid turns) t)"
  using assms by (simp add: save_transcript_def)

text \<open>The messages a turn leaves in the transcript.\<close>

definition turns_after :: "turn_cfg \<Rightarrow> prepared_turn \<Rightarrow> string \<Rightarrow> message list" where
  "turns_after cfg p reply = bound_turns (tc_transcript_max cfg) (pt_turns p @ turn_messages (pt_text p) reply)"

lemma persist_prepared_active:
  fixes practiced_at :: "datetime option" and clock :: instant and cfg :: turn_cfg
  assumes "get_session (pt_session_id p) d = Some s" "cs_user_id s = u_id (pt_user p)" "cs_ended_at s = None"
    and "turns_storable (turns_after cfg p reply)"
  defines "now \<equiv> instant (clamp_practiced_at practiced_at clock)"
  defines "m \<equiv> elapsed_minutes (as_utc (cs_last_activity_at s)) (utc now) (Some (sc_turn_meter_cap (tc_session cfg)))"
  shows "persist_prepared cfg p reply practiced_at clock d = (Inr (turns_after cfg p reply),
    put_user (u_id (pt_user p)) (turn_user_update m (date_of (utc now)))
      (put_session (pt_session_id p) (turn_session_update m now)
        (upsert_transcript (pt_session_id p) (turns_after cfg p reply) d)))"
proof -
  let ?t1 = "tx_modify (upsert_transcript (pt_session_id p) (turns_after cfg p reply)) (tx_begin d)"
  have "save_transcript (pt_session_id p) (turns_after cfg p reply) False (tx_begin d) = (Inr (), ?t1)"
    using assms(1,4) by (simp add: save_transcript_ok)
  moreover have "get_session (pt_session_id p) (working ?t1) = Some s" using assms(1) by simp
  note record_turn_activity_active [OF this assms(2,3)]
  ultimately show ?thesis
    by (simp add: persist_prepared_def persist_turn_def session_meter_def turns_after_def now_def m_def Let_def)
qed

lemma persist_prepared_ended:
  assumes "get_session (pt_session_id p) d = Some s" "cs_ended_at s \<noteq> None"
    and "turns_storable (turns_after cfg p reply)"
  shows "persist_prepared cfg p reply practiced_at clock d = (Inr (turns_after cfg p reply), d)"
proof -
  let ?t1 = "tx_modify (upsert_transcript (pt_session_id p) (turns_after cfg p reply)) (tx_begin d)"
  have "save_transcript (pt_session_id p) (turns_after cfg p reply) False (tx_begin d) = (Inr (), ?t1)"
    using assms(1,3) by (simp add: save_transcript_ok)
  moreover have "get_session (pt_session_id p) (working ?t1) = Some s" using assms(1) by simp
  note record_turn_activity_inactive [OF this]
  ultimately show ?thesis
    using assms(2) by (simp add: persist_prepared_def persist_turn_def session_meter_def turns_after_def Let_def)
qed

lemma persist_prepared_Inl:
  assumes "persist_prepared cfg p reply practiced_at clock d = (Inl e, d')"
  shows "d' = d" "\<not> turns_storable (turns_after cfg p reply) \<or> get_session (pt_session_id p) d = None"
  using assms
  by (auto simp: persist_prepared_def persist_turn_def save_transcript_def turns_after_def Let_def
      split: prod.splits sum.splits if_splits)


definition demo_turn_cfg :: turn_cfg where
  "demo_turn_cfg = \<lparr>tc_session = demo_cfg, tc_has_missions = True, tc_history_max = 20, tc_transcript_max = 4\<rparr>"

definition demo_user :: user where "demo_user = new_user 1 ''a@b.c'' ''h'' ''fr''"

definition demo_prepared :: prepared_turn where
  "demo_prepared = \<lparr>pt_session_id = 1, pt_user = demo_user, pt_text = ''hello'', pt_turns = [],
     pt_system_prompt = [], pt_history = [\<lparr>m_role = ROLE_USER, m_content = ''hello''\<rparr>], pt_intensity = ''gentle''\<rparr>"

lemma demo_session: "get_session 1 demo_started = Some (created_session demo_cfg (\<lambda>_. 0) 1 ''free'' None None 1)"
  "get_user 1 demo_started = Some demo_user"
  by (simp_all add: demo_started_def demo_db_def get_session_def get_user_def demo_user_def new_user_def)

lemma demo_messages_storable: "turns_storable (turn_messages ''hello'' ''hi'')"
  by (simp add: turns_storable_def turn_messages_def pg_text_ok_def)


section \<open>A session that ends during the reply\<close>

lemma prepare_turn_Inr:
  assumes "prepare_turn cfg nonce sid u text d = Inr p"
  shows "pt_session_id p = sid" "pt_user p = u" "pt_text p = text"
    "pt_turns p = (case get_transcript sid d of None \<Rightarrow> [] | Some x \<Rightarrow> tr_turns x)"
    "\<exists>s. get_session sid d = Some s \<and> cs_user_id s = u_id u \<and> cs_ended_at s = None"
  using assms
  by (auto simp: prepare_turn_def get_owned_session_def Let_def split: sum.splits option.splits if_splits)

lemma stream_prepared_full:
  assumes "persist_prepared cfg p (py_join '' '' sentences) None clock d = (Inr kept, d1)"
  shows "sr_persisted (stream_prepared cfg tts corr p sentences None None on_p clock d) = Some (py_join '' '' sentences)"
    and "sr_db (stream_prepared cfg tts corr p sentences None None on_p clock d) = on_p (py_join '' '' sentences) d1"
  using assms by (simp_all add: stream_prepared_def Let_def)

text \<open>A turn whose session ends while the model is answering is lost without an error: the plain turn
  returns the reply and the transcript it claims to have stored, and the streamed turn reports the reply
  as persisted (so its idempotency key is completed with it), but the database is exactly what the other
  requests left: no message of the turn is stored.\<close>

theorem ended_session_loses_turn:
  assumes "prepare_turn cfg nonce sid u text d = Inr p"
    and "get_session sid (interim d) = Some s" "cs_ended_at s \<noteq> None"
    and "llm (pt_system_prompt p) (pt_history p) = Inr reply" "reply = py_join '' '' sentences"
    and "turns_storable (pt_turns p @ turn_messages text reply)"
  shows "take_turn cfg nonce llm interim clock sid u text practiced_at d
      = (Inr (reply, turns_after cfg p reply), interim d)
    \<and> (let res = stream_prepared cfg tts corr p sentences None None on_persisted clock (interim d)
       in sr_persisted res = Some reply \<and> sr_db res = on_persisted reply (interim d))"
proof -
  note p = prepare_turn_Inr [OF assms(1)]
  have "suffix (turns_after cfg p reply) (pt_turns p @ turn_messages text reply)"
    unfolding turns_after_def using p(3) bound_turns_suffix by simp
  then have "turns_storable (turns_after cfg p reply)" using assms(6) turns_storable_suffix by blast
  then have pers: "persist_prepared cfg p reply pr clock (interim d) = (Inr (turns_after cfg p reply), interim d)" for pr
    using persist_prepared_ended assms(2,3) p(1) by blast
  then show ?thesis using assms(1,4,5) stream_prepared_full [of cfg p sentences clock "interim d" _ "interim d"]
    by (simp add: take_turn_def Let_def)
qed

theorem ended_session_loses_turn_witness:
  "\<exists>p interim. prepare_turn demo_turn_cfg [] 1 demo_user ''hello'' demo_started = Inr p
    \<and> interim = (\<lambda>d. committed (snd (end_session demo_cfg 1 1 0 (tx_begin d))))
    \<and> fst (take_turn demo_turn_cfg [] (\<lambda>_ _. Inr ''hi'') interim 0 1 demo_user ''hello'' None demo_started)
        = Inr (''hi'', turn_messages ''hello'' ''hi'')
    \<and> transcripts (snd (take_turn demo_turn_cfg [] (\<lambda>_ _. Inr ''hi'') interim 0 1 demo_user ''hello'' None demo_started)) = []"
proof -
  let ?s = "created_session demo_cfg (\<lambda>_. 0) 1 ''free'' None None 1"
  let ?int = "\<lambda>d. committed (snd (end_session demo_cfg 1 1 0 (tx_begin d)))"
  have tr: "get_transcript 1 demo_started = None" "profiles demo_started = []"
    by (simp_all add: get_transcript_def demo_started_def demo_db_def empty_db_def)
  have id: "u_id demo_user = 1" by (simp add: demo_user_def new_user_def)
  obtain p where p: "prepare_turn demo_turn_cfg [] 1 demo_user ''hello'' demo_started = Inr p"
    using demo_session(1) tr id
    by (simp add: prepare_turn_def get_owned_session_def prompt_and_intensity_for_def get_profile_by_user_id_def
        created_session_def Let_def)
  have "end_session demo_cfg 1 1 0 (tx_begin demo_started) = (Inr (?s\<lparr>cs_ended_at := Some 0, cs_duration_minutes := Some 0\<rparr>),
      tx_begin (put_session 1 (\<lambda>r. r\<lparr>cs_ended_at := Some 0, cs_duration_minutes := Some 0\<rparr>) demo_started))"
    using demo_session
    by (simp add: end_session_def get_owned_session_def end_locked_def close_session_def residual_of_def
        elapsed_minutes_def demo_cfg_def or_zero_def Let_def tx_commit_def tx_modify_def tx_begin_def)
  then have e: "?int demo_started = put_session 1 (\<lambda>r. r\<lparr>cs_ended_at := Some 0, cs_duration_minutes := Some 0\<rparr>) demo_started"
    by simp
  have s: "get_session 1 (?int demo_started) = Some (?s\<lparr>cs_ended_at := Some 0, cs_duration_minutes := Some 0\<rparr>)"
    unfolding e using demo_session(1) session_table.get_put_same by (simp add: get_session_row put_session_row)
  note pi = prepare_turn_Inr [OF p]
  have st: "turns_storable (pt_turns p @ turn_messages ''hello'' ''hi'')"
    using demo_messages_storable pi(4) tr by simp
  have ta: "turns_after demo_turn_cfg p ''hi'' = turn_messages ''hello'' ''hi''"
    using pi(3,4) tr by (simp add: turns_after_def demo_turn_cfg_def bound_turns_def turn_messages_def)
  have j: "''hi'' = py_join '' '' [''hi'']" by simp
  have "transcripts (?int demo_started) = []" unfolding e by (simp add: demo_started_def demo_db_def empty_db_def)
  then show ?thesis
    using ended_session_loses_turn [where interim = ?int and llm = "\<lambda>_ _. Inr ''hi''" and clock = 0
        and practiced_at = None, OF p s _ _ j st] p ta by simp
qed

section \<open>Order of the streamed events\<close>

fun is_clip :: "turn_event \<Rightarrow> bool" where
  "is_clip (AudioChunk a) \<longleftrightarrow> True" | "is_clip _ \<longleftrightarrow> False"

definition clips :: "turn_event list \<Rightarrow> turn_event list" where
  "clips evs = filter is_clip evs"

definition texts :: "turn_event list \<Rightarrow> string list" where
  "texts evs = concat (map (\<lambda>e. case e of ReplyChunk s \<Rightarrow> [s] | _ \<Rightarrow> []) evs)"

text \<open>The clip of one sentence, none when its synthesis failed or no engine is configured.\<close>

definition clip_of :: "tts option \<Rightarrow> string \<Rightarrow> turn_event list" where
  "clip_of tts s = drain_audio tts (Some s)"

lemma drain_audio_None [simp]: "drain_audio tts None = []"
  by (simp add: drain_audio_def split: option.splits)

lemma clips_texts_append [simp]: "clips (xs @ ys) = clips xs @ clips ys" "texts (xs @ ys) = texts xs @ texts ys"
  by (simp_all add: clips_def texts_def)

lemma clips_texts_Nil [simp]: "clips [] = []" "texts [] = []"
  by (simp_all add: clips_def texts_def)

lemma clips_texts_Reply [simp]: "clips (ReplyChunk s # evs) = clips evs" "texts (ReplyChunk s # evs) = s # texts evs"
  by (simp_all add: clips_def texts_def)

lemma drain_audio_sub: "prefix q (drain_audio tts pend) \<Longrightarrow> clips q = q \<and> texts q = []"
  by (cases q) (auto simp: drain_audio_def clips_def texts_def Let_def split: option.splits if_splits)

lemma stream_loop_eq: "stream_loop tts pend ss = (evs, pend') \<Longrightarrow>
   texts evs = ss \<and> clips evs @ drain_audio tts pend' = drain_audio tts pend @ concat (map (clip_of tts) ss)"
proof (induction tts pend ss arbitrary: evs rule: stream_loop.induct)
  case (2 tts pend s ss)
  obtain evs' where e: "stream_loop tts (Some s) ss = (evs', pend')" "evs = ReplyChunk s # drain_audio tts pend @ evs'"
    using 2 by (auto split: prod.splits)
  have "clips (drain_audio tts pend) = drain_audio tts pend \<and> texts (drain_audio tts pend) = []"
    using drain_audio_sub [of "drain_audio tts pend" tts pend] by simp
  then show ?case using 2(1) [OF e(1)] e(2) by (simp add: clip_of_def)
qed simp

text \<open>At any moment of the loop, the clips sent are those of all but the last one or two sentences sent.\<close>

lemma stream_loop_prefix:
  assumes "stream_loop tts pend ss = (evs, pend')" "prefix pre evs"
  defines "sent \<equiv> pend # map Some (texts pre)"
  shows "prefix (texts pre) ss
    \<and> prefix (clips pre) (concat (map (drain_audio tts) (take (length (texts pre)) sent)))
    \<and> prefix (concat (map (drain_audio tts) (take (length (texts pre) - 1) sent))) (clips pre)"
  using assms(1,2) unfolding sent_def
proof (induction ss arbitrary: pend pre evs)
  case (Cons s ss)
  obtain evs' where e: "stream_loop tts (Some s) ss = (evs', pend')" "evs = ReplyChunk s # drain_audio tts pend @ evs'"
    using Cons.prems(1) by (auto split: prod.splits)
  show ?case
  proof (cases pre)
    case (Cons x q)
    then have x: "x = ReplyChunk s" "prefix q (drain_audio tts pend @ evs')" using Cons.prems(2) e(2) by auto
    then consider "prefix q (drain_audio tts pend)" | q' where "q = drain_audio tts pend @ q'" "prefix q' evs'"
      by (auto simp: prefix_append)
    then show ?thesis
    proof cases
      case 1
      then show ?thesis using drain_audio_sub [OF 1] Cons x by simp
    next
      case 2
      have d: "clips (drain_audio tts pend) = drain_audio tts pend \<and> texts (drain_audio tts pend) = []"
        using drain_audio_sub [of "drain_audio tts pend" tts pend] by simp
      note IH = Cons.IH [OF e(1) 2(2)]
      show ?thesis using IH d 2(1) Cons x
        by (cases "texts q'") auto
    qed
  qed simp
qed simp

lemma reply_events_prefix:
  assumes "prefix pre (reply_events tts ss failure)"
  defines "k \<equiv> length (texts pre)"
  shows "prefix (texts pre) ss
    \<and> prefix (clips pre) (concat (map (clip_of tts) (texts pre)))
    \<and> prefix (concat (map (clip_of tts) (take (k - 2) (texts pre)))) (clips pre)"
proof -
  obtain evs pend where l: "stream_loop tts None ss = (evs, pend)" by force
  have cl: "map (drain_audio tts) (map Some xs) = map (clip_of tts) xs" for xs by (simp add: clip_of_def)
  have loop: "prefix (texts q) ss \<and> prefix (clips q) (concat (map (clip_of tts) (take (length (texts q) - 1) (texts q))))
      \<and> prefix (concat (map (clip_of tts) (take (length (texts q) - 2) (texts q)))) (clips q)" if "prefix q evs" for q
  proof -
    have tk: "take n (None # map Some (texts q)) = (if n = 0 then [] else None # map Some (take (n - 1) (texts q)))" for n
      by (cases n) (auto simp: take_map)
    show ?thesis using stream_loop_prefix [OF l that] unfolding tk
      by (auto simp: cl take_map diff_diff_eq numeral_2_eq_2 split: if_splits simp del: map_map)
  qed
  have sub: "prefix (concat (map (clip_of tts) (take n xs))) (concat (map (clip_of tts) xs))" for n xs
    by (metis append_take_drop_id concat_append map_append prefixI)
  have "prefix pre evs \<or> (failure = None \<and> (\<exists>q. pre = evs @ q \<and> prefix q (drain_audio tts pend)))"
    using assms(1) l by (auto simp: reply_events_def prefix_append split: if_splits)
  then show ?thesis
  proof (elim disjE conjE exE)
    assume "prefix pre evs"
    then show ?thesis using loop [of pre] sub prefix_order.trans unfolding k_def by blast
  next
    fix q
    assume q: "pre = evs @ q" "prefix q (drain_audio tts pend)"
    note all = stream_loop_eq [OF l] and dq = drain_audio_sub [OF q(2)]
    have "prefix (clips evs @ q) (clips evs @ drain_audio tts pend)" using q(2) by simp
    then have "prefix (clips pre) (concat (map (clip_of tts) (texts pre)))" using all q(1) dq by simp
    moreover have "prefix (concat (map (clip_of tts) (take (k - 2) (texts pre)))) (clips pre)"
      using loop [of evs] q(1) dq unfolding k_def by (simp add: prefix_prefix)
    ultimately show ?thesis using all q(1) dq by simp
  qed
qed

lemma reply_events_all:
  "texts (reply_events tts ss failure) = ss"
  "failure = None \<Longrightarrow> clips (reply_events tts ss failure) = concat (map (clip_of tts) ss)"
proof -
  obtain evs pend where l: "stream_loop tts None ss = (evs, pend)" by force
  have "clips (drain_audio tts pend) = drain_audio tts pend \<and> texts (drain_audio tts pend) = []"
    using drain_audio_sub [of "drain_audio tts pend" tts pend] by simp
  then show "texts (reply_events tts ss failure) = ss"
    "failure = None \<Longrightarrow> clips (reply_events tts ss failure) = concat (map (clip_of tts) ss)"
    using stream_loop_eq [OF l] by (auto simp: reply_events_def l)
qed

lemma reply_events_no_correction: "CorrectionReady c \<notin> set (reply_events tts ss failure)"
proof -
  have d: "CorrectionReady c \<notin> set (drain_audio tts pend)" for pend
    by (auto simp: drain_audio_def Let_def split: option.splits)
  have "stream_loop tts pend ss = (evs, pend') \<Longrightarrow> CorrectionReady c \<notin> set evs" for pend evs pend'
    by (induction ss arbitrary: pend evs) (auto simp: d split: prod.splits)
  moreover obtain evs pend where "stream_loop tts None ss = (evs, pend)" by force
  ultimately show ?thesis using d by (auto simp: reply_events_def)
qed

lemma stream_prepared_events:
  obtains (cut) k where "sr_outcome (stream_prepared cfg tts corr p ss failure taken on_p clock d) = Disconnected"
      "sr_events (stream_prepared cfg tts corr p ss failure taken on_p clock d) = take k (reply_events tts ss failure)"
  | (whole) post where "sr_events (stream_prepared cfg tts corr p ss failure taken on_p clock d) = reply_events tts ss failure @ post"
      "post = [] \<or> (\<exists>c. post = [CorrectionReady c] \<and> failure = None)"
proof (cases "case taken of None \<Rightarrow> False | Some k \<Rightarrow> k \<le> length (reply_events tts ss failure)")
  case True
  then show ?thesis using cut by (simp add: stream_prepared_def Let_def)
next
  case False
  then have "\<exists>post. sr_events (stream_prepared cfg tts corr p ss failure taken on_p clock d) = reply_events tts ss failure @ post
      \<and> (post = [] \<or> (\<exists>c. post = [CorrectionReady c] \<and> failure = None))"
    by (auto simp: stream_prepared_def Let_def split: option.splits prod.splits sum.splits)
  then show ?thesis using whole by blast
qed

text \<open>C17: The events of a streamed turn come in the order the client relies on, whatever the speech engine does
  and however the stream ends: at every moment the texts sent are the first sentences of the reply in
  order, each clip sent belongs to a sentence whose text was already sent, the clips follow the order of
  the sentences and lag by at most two of them; a correction comes only after the whole reply and all its
  clips, as the last event; and a stream that is not cut by the client has sent every sentence.\<close>

theorem stream_event_order:
  assumes "res = stream_prepared cfg tts corr p ss failure taken on_persisted clock d" and "prefix pre (sr_events res)"
  shows "prefix (texts pre) ss
    \<and> prefix (clips pre) (concat (map (clip_of tts) (texts pre)))
    \<and> prefix (concat (map (clip_of tts) (take (length (texts pre) - 2) (texts pre)))) (clips pre)
    \<and> (\<forall>c. CorrectionReady c \<in> set pre \<longrightarrow> texts pre = ss \<and> clips pre = concat (map (clip_of tts) ss)
          \<and> last pre = CorrectionReady c \<and> CorrectionReady c \<notin> set (butlast pre))
    \<and> (sr_outcome res \<noteq> Disconnected \<longrightarrow> texts (sr_events res) = ss)"
proof -
  let ?r = "reply_events tts ss failure"
  have whole: "sr_outcome res \<noteq> Disconnected \<Longrightarrow> texts (sr_events res) = ss"
    unfolding assms(1) by (rule stream_prepared_events [of cfg tts corr p ss failure taken on_persisted clock d])
      (auto simp: reply_events_all(1) texts_def [of "[CorrectionReady _]"])
  have "prefix pre ?r \<or> (\<exists>c. failure = None \<and> pre = ?r @ [CorrectionReady c])"
    using assms(2) unfolding assms(1)
    by - (rule stream_prepared_events [of cfg tts corr p ss failure taken on_persisted clock d],
      auto simp: prefix_append prefix_Cons intro: prefix_order.trans take_is_prefix)
  then show ?thesis
  proof (elim disjE exE conjE)
    assume "prefix pre ?r"
    moreover from this have "CorrectionReady c \<notin> set pre" for c
      using reply_events_no_correction [of c tts ss failure] set_mono_prefix by blast
    ultimately show ?thesis using reply_events_prefix [of pre tts ss failure] whole by blast
  next
    fix c
    assume c: "failure = None" "pre = ?r @ [CorrectionReady c]"
    have one: "texts [CorrectionReady c] = []" "clips [CorrectionReady c] = []" by (simp_all add: texts_def clips_def)
    have "prefix (concat (map (clip_of tts) (take (length ss - 2) ss))) (concat (map (clip_of tts) ss))"
      by (metis append_take_drop_id concat_append map_append prefixI)
    then show ?thesis using c one reply_events_all [where failure = failure and tts = tts and ss = ss]
        reply_events_no_correction [of _ tts ss failure] whole by auto
  qed
qed

theorem stream_event_order_witness:
  "let tts = Some (\<lambda>s. Inr [1, 2, 3]); res = stream_prepared demo_turn_cfg tts None demo_prepared [''A.'', ''B.''] None (Some 2) (\<lambda>_ d. d) 0 demo_started
   in sr_events res = [ReplyChunk ''A.'', ReplyChunk ''B.''] \<and> prefix (texts (sr_events res)) [''A.'', ''B.'']
      \<and> prefix (clips (sr_events res)) (concat (map (clip_of tts) (texts (sr_events res))))"
proof -
  let ?tts = "Some (\<lambda>s. Inr [1, 2, 3]) :: tts option"
  let ?res = "stream_prepared demo_turn_cfg ?tts None demo_prepared [''A.'', ''B.''] None (Some 2) (\<lambda>_ d. d) 0 demo_started"
  have "sr_events ?res = [ReplyChunk ''A.'', ReplyChunk ''B.'']"
    by (simp add: stream_prepared_def reply_events_def drain_audio_def synthesize_quietly_def)
  then show ?thesis using stream_event_order [OF refl prefix_order.refl, of demo_turn_cfg ?tts None demo_prepared
      "[''A.'', ''B.'']" None "Some 2" "\<lambda>_ d. d" 0 demo_started] by (simp add: Let_def)
qed

section \<open>The turn lock is always freed\<close>

text \<open>The locked section of the plain route is the guarded section of the lock interface.\<close>

lemma locked_turn_guarded:
  "locked_turn cfg nonce llm interim clock sid u text practiced_at d =
     (case turn_lock.guarded (u_id u, sid, clock) turn_busy
        (\<lambda>(k, x). case take_turn cfg nonce llm interim clock sid u text practiced_at x of
           (r, x') \<Rightarrow> (map_sum id fst r, (k, x'))) ((u_id u, sid), d)
      of (r, (k, d')) \<Rightarrow> (r, d'))"
proof -
  obtain ok d1 where a: "acquire_turn_lock (u_id u) sid clock d = (ok, d1)" by force
  obtain r d2 where "take_turn cfg nonce llm interim clock sid u text practiced_at d1 = (r, d2)" by force
  then show ?thesis using a
    by (cases ok; cases r) (auto simp: locked_turn_def turn_lock.guarded_def split: prod.splits)
qed

lemma locked_turn_busy:
  "turn_lock_held (u_id u) sid clock d \<Longrightarrow>
   locked_turn cfg nonce llm interim clock sid u text practiced_at d = (Inl turn_busy, d)"
  by (simp add: locked_turn_guarded turn_lock.guarded_busy)

lemma lock_key_frame:
  assumes "find_key uid (turn_lock_key sid) d' = find_key uid (turn_lock_key sid) d"
  shows "turn_lock_held uid sid now d' = turn_lock_held uid sid now d"
  using assms by (simp add: turn_lock_held_def)

lemma not_held_later:
  "\<not> turn_lock_held uid sid clock d \<Longrightarrow> clock \<le> later \<Longrightarrow> \<not> turn_lock_held uid sid later d"
  by (auto simp: turn_lock_held_def split: option.splits)

lemma released_not_held [simp]: "\<not> turn_lock_held uid sid now (release_turn_lock uid sid d)"
  by (simp add: turn_lock_held_def release_turn_lock_def find_key_release)

lemma acquire_when_free:
  assumes "\<not> turn_lock_held uid sid clock d"
  obtains d1 where "acquire_turn_lock uid sid clock d = (True, d1)"
proof -
  have "fst (acquire_turn_lock uid sid clock d)" using assms
    by (auto simp: acquire_turn_lock_def claim_wins_iff turn_lock_held_def split: option.splits)
  then show ?thesis using that by (cases "acquire_turn_lock uid sid clock d") auto
qed

lemma locked_turn_frees:
  assumes "\<not> turn_lock_held (u_id u) sid clock d"
  shows "\<not> turn_lock_held (u_id u) sid later (snd (locked_turn cfg nonce llm interim clock sid u text practiced_at d))"
  using assms by (rule acquire_when_free) (auto simp: locked_turn_def split: prod.splits sum.splits)

lemma unclaim_not_held:
  assumes "\<not> turn_lock_held uid sid now d"
  shows "\<not> turn_lock_held uid sid now (release_key uid k d)" "k \<noteq> turn_lock_key sid \<Longrightarrow> \<not> turn_lock_held uid sid now (complete_key uid k x d)"
  using assms by (auto simp: turn_lock_held_def find_key_release find_key_complete split: option.splits)

lemma locked_stream_frees:
  assumes "\<not> turn_lock_held (u_id u) sid clock d"
  shows "\<not> turn_lock_held (u_id u) sid later
    (snd (locked_stream cfg nonce tts corr ss failure taken interim clock sid u text key d))"
proof -
  obtain d1 where "acquire_turn_lock (u_id u) sid clock d = (True, d1)" using assms by (rule acquire_when_free)
  moreover have "\<not> turn_lock_held (u_id u) sid later (snd (event_stream (u_id u) sid key res))" for res
    by (cases "sr_outcome res") (simp_all add: event_stream_def Let_def)
  ultimately show ?thesis
    by (auto simp: locked_stream_def Let_def unclaim_not_held split: sum.splits prod.splits) (metis snd_conv)
qed

lemma begin_claim_key:
  assumes "begin_claim uid k clock d = (oc, d1)" "k \<noteq> turn_lock_key sid"
  shows "find_key uid (turn_lock_key sid) d1 = find_key uid (turn_lock_key sid) d"
proof -
  obtain b d2 where c: "claim uid k (clock - stale_us) clock d = (b, d2)" by force
  have "find_key uid (turn_lock_key sid) d2 = find_key uid (turn_lock_key sid) d"
    using find_key_claim [OF c, of uid "turn_lock_key sid"] assms(2) by auto
  then show ?thesis using assms(1) c
    by (auto simp: begin_claim_def split: prod.splits option.splits bool.splits)
qed



section \<open>Consequences and corner cases\<close>

text \<open>A profile whose interests were set to null breaks every later turn outside a mission.\<close>

lemma null_interests_break_turns:
  assumes "get_user (u_id u) d = Some u" "profile_storable (profile_before (u_id u) d)"
    and "get_session sid d = Some s" "cs_user_id s = u_id u" "cs_ended_at s = None" "cs_mission_id s = None"
    and "profile_update (u_id u) [SetInterests None] (tx_begin d) = (r, t)"
  shows "list_all profile_change_valid [SetInterests None] \<and> (\<exists>p. r = Inr p)
    \<and> prepare_turn cfg nonce sid u text (committed t) = Inl (OtherErr ''TypeError'')
    \<and> fst (get_profile_route (u_id u) (tx_begin (committed t))) = Inl (OtherErr ''ValidationError'')"
proof -
  let ?uid = "u_id u" and ?p = "(profile_before (u_id u) d)\<lparr>lp_interests := None\<rparr>"
  let ?d' = "put_profile ?p (profile_rows.touched ?uid d)"
  have st: "profile_storable ?p" using assms(2) by (simp add: profile_storable_def)
  have "profile_update ?uid [SetInterests None] (tx_begin d) = (Inr ?p, tx_begin ?d')"
    using profile_update_cases(3) [of ?uid "tx_begin d" "[SetInterests None]"] assms(1) st
    by (simp add: violates_not_null_def)
  then have rt: "r = Inr ?p" "committed t = ?d'" using assms(7) by auto
  have pr: "get_profile_by_user_id ?uid ?d' = Some ?p" by (rule get_profile_put) simp
  have se: "get_session sid ?d' = Some s" using assms(3) by (simp add: get_session_def profile_rows.touched_def)
  have us: "get_user ?uid ?d' \<noteq> None" using assms(1) by simp
  have "profile_rows.touched ?uid ?d' = ?d'" using pr by (simp add: profile_rows.touched_def get_profile_row)
  then have "fst (get_profile_route ?uid (tx_begin ?d')) = profile_out ?p"
    using profile_rows.touch_eq [of ?uid "tx_begin ?d'"] us pr
    by (simp add: get_profile_route_def profile_get_or_create_def get_profile_row)
  then have "fst (get_profile_route ?uid (tx_begin ?d')) = Inl (OtherErr ''ValidationError'')"
    by (simp add: profile_out_def)
  then show ?thesis using rt pr se assms(4-6)
    by (simp add: prepare_turn_def get_owned_session_def prompt_and_intensity_for_def Let_def)
qed

text \<open>Replaying an older turn rewinds the activity mark: the next live turn bills again from the replayed
  instant, up to the cap.\<close>

lemma replayed_turn_rewinds_activity:
  assumes "get_session sid d = Some s" "cs_user_id s = uid" "cs_ended_at s = None"
    and "instant (cs_last_activity_at s) = T" "0 < h" "now' = T - h" "0 \<le> sc_turn_meter_cap cfg"
  defines "d1 \<equiv> committed (snd (record_turn_activity cfg sid uid now' (tx_begin d)))"
  shows "turn_read cfg sid uid T d = Some 0"
    and "turn_read cfg sid uid T d1 = Some (min (of_int h / of_int us_per_minute) (sc_turn_meter_cap cfg))"
proof -
  show "turn_read cfg sid uid T d = Some 0"
    using assms by (simp add: turn_read_def elapsed_minutes_def)
  let ?m = "elapsed_minutes (as_utc (cs_last_activity_at s)) (utc now') (Some (sc_turn_meter_cap cfg))"
  have "get_session sid d1 = Some (turn_session_update ?m now' s)"
    using record_turn_activity_active [of sid "tx_begin d" s uid cfg now'] assms(1-3)
      session_table.get_put_same [of "turn_session_update ?m now'" sid d s]
    by (simp add: d1_def) (simp flip: get_session_row put_session_row)
  then show "turn_read cfg sid uid T d1 = Some (min (of_int h / of_int us_per_minute) (sc_turn_meter_cap cfg))"
    using assms by (simp add: turn_read_def elapsed_minutes_def Let_def del: divide_le_eq_numeral1 le_divide_eq_numeral1)
qed

text \<open>A replayed request leaves the database alone: the cached reply is returned, no model is asked.\<close>

lemma keyed_turn_replay:
  assumes "key \<noteq> []" "1 \<le> length text" "length text \<le> 2000"
    and "take_turn_route cfg nonce llm interim clock sid u text practiced_at (Some key) None d = (Inr reply, d')"
    and "find_key (u_id u) key d' = Some r" "ik_response r = Some reply"
  shows "take_turn_route cfg' nonce' llm' interim' clock' sid u text practiced_at' (Some key) None d' = (Inr reply, d')"
    and "stream_turn_route cfg' nonce' tts corr ss failure taken interim' clock' sid u text (Some key) None d'
      = (Inr [FrameChunk reply, FrameDone], d')"
  using assms run_once_completed [OF assms(5,6,1)]
  by (simp_all add: take_turn_route_def stream_turn_route_def has_key_def begin_claim_def lookup_key_def Let_def)

end
