(* ===== verification/Debrief.thy ===== *)
theory Debrief
  imports Analytics Conversation
begin

text \<open>
  The debrief of a session (\<^verbatim>\<open>app/features/debrief\<close>): the error taxonomy, the analysis of the
  model's answer, the CEFR step, the atomic core write, the best-effort enrichment behind it, and
  \<open>generate\<close>, which reads before the analysis and writes after it. The JSON decoder (with its error
  text), \<open>str\<close> on a decoded value and the model's answer are arguments, and so are the database as it
  is when the analysis returns and a row a sibling worker commits between the last read and the commit.
\<close>

section \<open>Error taxonomy\<close>

definition CANONICAL_ERROR_TYPES :: "string list" where
  "CANONICAL_ERROR_TYPES =
     [''grammar'', ''verb_tense'', ''verb_form'', ''subject_verb_agreement'', ''word_order'', ''article'',
      ''preposition'', ''pronoun'', ''plural'', ''spelling'', ''punctuation'', ''capitalization'',
      ''vocabulary'', ''word_choice'', ''fluency'', ''other'']"

definition ERROR_ALIASES :: "(string \<times> string) list" where
  "ERROR_ALIASES =
     [(''agreement'', ''subject_verb_agreement''), (''subject verb agreement'', ''subject_verb_agreement''),
      (''subject-verb agreement'', ''subject_verb_agreement''), (''sva'', ''subject_verb_agreement''),
      (''tense'', ''verb_tense''), (''verb tense'', ''verb_tense''), (''past tense'', ''verb_tense''),
      (''verb'', ''verb_form''), (''verb form'', ''verb_form''), (''word order'', ''word_order''),
      (''syntax'', ''word_order''), (''articles'', ''article''), (''determiner'', ''article''),
      (''prepositions'', ''preposition''), (''pronouns'', ''pronoun''), (''singular plural'', ''plural''),
      (''singular/plural'', ''plural''), (''capital i'', ''capitalization''),
      (''capitalisation'', ''capitalization''), (''vocab'', ''vocabulary''), (''lexical'', ''vocabulary''),
      (''word choice'', ''word_choice''), (''wrong word'', ''word_choice'')]"

definition taxonomy_char :: "char \<Rightarrow> bool" where
  "taxonomy_char c \<longleftrightarrow> is_ascii_lower c \<or> is_ascii_digit c"

text \<open>Each run of characters outside \<open>[a-z0-9]\<close> becomes one space.\<close>

function sub_non_word :: "string \<Rightarrow> string" where
  "sub_non_word [] = []"
| "sub_non_word (c # cs) =
     (if taxonomy_char c then c # sub_non_word cs
      else CHR '' '' # sub_non_word (dropWhile (\<lambda>x. \<not> taxonomy_char x) cs))"
  by pat_completeness auto
termination by (relation "measure length") (auto simp: le_imp_less_Suc length_dropWhile_le)

definition normalize_error_type :: "string \<Rightarrow> string" where
  "normalize_error_type val =
     (let normalized = py_strip (sub_non_word (py_lower val));
          named = (case map_of ERROR_ALIASES normalized of Some a \<Rightarrow> a
            | None \<Rightarrow> map (\<lambda>c. if c = CHR '' '' then CHR ''_'' else c) normalized)
      in if named \<in> set CANONICAL_ERROR_TYPES then named else ''other'')"

section \<open>Parsing\<close>

definition extract_json_object :: "string \<Rightarrow> error + string" where
  "extract_json_object text =
     (let body = rev (dropWhile (\<lambda>c. c \<noteq> CHR ''}'') (rev (dropWhile (\<lambda>c. c \<noteq> CHR ''{'') text)))
      in if body = [] then Inl (DomainErr DebriefAnalysisError ''No JSON object found in LLM output'') else Inr body)"

definition parse_debrief_json :: "(string \<Rightarrow> string + json) \<Rightarrow> string \<Rightarrow> error + (string \<times> json) list" where
  "parse_debrief_json loads text = (case extract_json_object text of
      Inl e \<Rightarrow> Inl e
    | Inr body \<Rightarrow> (case loads body of
        Inl msg \<Rightarrow> Inl (DomainErr DebriefAnalysisError (''Invalid JSON from debrief LLM: '' @ msg))
      | Inr (JObj ob) \<Rightarrow> Inr ob
      | Inr _ \<Rightarrow> Inl (DomainErr DebriefAnalysisError ''Debrief LLM output is not a JSON object'')))"

section \<open>Analysis\<close>

record debrief_result =
  dr_cefr_estimate :: string
  dr_summary :: string
  dr_errors :: "debrief_error list"
  dr_words :: "vocabulary_word list"

definition str_list :: "(json \<Rightarrow> string) \<Rightarrow> json \<Rightarrow> nat \<Rightarrow> string list" where
  "str_list str_of v cap = (case v of
      JList xs \<Rightarrow> take cap (map (\<lambda>x. py_strip (str_of x)) (filter (\<lambda>x. py_strip (str_of x) \<noteq> []) xs))
    | _ \<Rightarrow> [])"

fun dict_of :: "json \<Rightarrow> (string \<times> json) list option" where
  "dict_of (JObj ob) = Some ob"
| "dict_of _ = None"

definition dict_list :: "json \<Rightarrow> (string \<times> json) list list" where
  "dict_list v = (case v of JList xs \<Rightarrow> List.map_filter dict_of xs | _ \<Rightarrow> [])"

definition learner_turns :: "nat \<Rightarrow> message list \<Rightarrow> string list" where
  "learner_turns max_turns turns =
     (let said = map m_content (filter (\<lambda>m. m_role m = ROLE_USER) turns)
      in if max_turns > 0 then last_n max_turns said else said)"

definition learner_text :: "nat \<Rightarrow> message list \<Rightarrow> string" where
  "learner_text max_turns turns = py_join [CHR 0x0A] (learner_turns max_turns turns)"

text \<open>\<open>cefr not in VALID_CEFR\<close> hashes the value: a list or an object is unhashable.\<close>

definition read_estimate :: "json \<Rightarrow> string \<Rightarrow> error + string" where
  "read_estimate v fallback = (case v of
      JStr s \<Rightarrow> Inr (if s \<in> VALID_CEFR then s else fallback)
    | JList _ \<Rightarrow> Inl (OtherErr ''TypeError'') | JObj _ \<Rightarrow> Inl (OtherErr ''TypeError'')
    | _ \<Rightarrow> Inr fallback)"

definition str_get :: "(json \<Rightarrow> string) \<Rightarrow> (string \<times> json) list \<Rightarrow> string \<Rightarrow> string" where
  "str_get str_of ob k = str_of (json_get ob k (JStr []))"

definition error_item :: "(json \<Rightarrow> string) \<Rightarrow> string \<Rightarrow> (string \<times> json) list \<Rightarrow> debrief_error option" where
  "error_item str_of said ob =
     (let original = str_get str_of ob ''original''
      in if original \<noteq> [] \<and> py_in original said
         then Some \<lparr>de_original = original, de_correction = str_get str_of ob ''correction'',
                de_rule = str_get str_of ob ''rule'',
                de_error_type = normalize_error_type (str_get str_of ob ''error_type''),
                de_explanation = str_get str_of ob ''explanation'',
                de_examples = str_list str_of (json_get ob ''examples'' JNull) 2,
                de_alternatives = str_list str_of (json_get ob ''alternatives'' JNull) 2\<rparr>
         else None)"

definition word_item :: "(json \<Rightarrow> string) \<Rightarrow> (string \<times> json) list \<Rightarrow> vocabulary_word option" where
  "word_item str_of ob =
     (let word = py_strip (str_get str_of ob ''word'')
      in if word = [] then None
         else Some \<lparr>vw_word = word, vw_phonetic = py_strip (str_get str_of ob ''phonetic''),
                vw_translation = py_strip (str_get str_of ob ''translation''),
                vw_example = py_strip (str_get str_of ob ''example'')\<rparr>)"

record analyzer =
  an_loads :: "string \<Rightarrow> string + json"
  an_str :: "json \<Rightarrow> string"
  an_max_errors :: nat
  an_max_learner_turns :: nat

text \<open>\<open>raw\<close> is the model's answer to the analysis prompt, or its failure.\<close>

definition analyze :: "analyzer \<Rightarrow> message list \<Rightarrow> string \<Rightarrow> string option \<Rightarrow> (error + string) \<Rightarrow> error + debrief_result" where
  "analyze an turns fallback intensity raw =
     (let max_errors = (case intensity of Some i \<Rightarrow> st_max_errors (style_for_intensity i) | None \<Rightarrow> an_max_errors an);
          said = learner_text (an_max_learner_turns an) turns
      in case raw of Inl e \<Rightarrow> Inl e
       | Inr text \<Rightarrow> (case parse_debrief_json (an_loads an) text of Inl e \<Rightarrow> Inl e
       | Inr data \<Rightarrow> (case read_estimate (json_get data ''cefr_estimate'' (JStr [])) fallback of Inl e \<Rightarrow> Inl e
       | Inr cefr \<Rightarrow> Inr \<lparr>dr_cefr_estimate = cefr, dr_summary = str_get (an_str an) data ''summary'',
            dr_errors = List.map_filter (error_item (an_str an) said) (take max_errors (dict_list (json_get data ''errors'' JNull))),
            dr_words = List.map_filter (word_item (an_str an)) (take 3 (dict_list (json_get data ''words'' JNull)))\<rparr>)))"

section \<open>The CEFR step\<close>

definition cefr_index :: "string \<Rightarrow> nat" where
  "cefr_index l = length (takeWhile (\<lambda>x. x \<noteq> l) CEFR_LEVELS)"

definition next_cefr_level :: "string \<Rightarrow> string \<Rightarrow> string" where
  "next_cefr_level current0 estimate =
     (let current = (if current0 \<in> set CEFR_LEVELS then current0 else ''A1'')
      in if estimate \<notin> set CEFR_LEVELS then current
         else let cur = cefr_index current; est = cefr_index estimate
           in if est > cur then CEFR_LEVELS ! (cur + 1)
              else if est < cur then CEFR_LEVELS ! (cur - 1) else current)"

section \<open>Repository\<close>

definition find_debrief :: "int \<Rightarrow> db \<Rightarrow> debrief_row option" where
  "find_debrief sid d = List.find (\<lambda>r. db_session_id r = sid) (debriefs d)"

definition error_storable :: "debrief_error \<Rightarrow> bool" where
  "error_storable e \<longleftrightarrow> list_all pg_text_ok ([de_original e, de_correction e, de_rule e, de_error_type e, de_explanation e]
     @ de_examples e @ de_alternatives e)"

definition debrief_storable :: "debrief_row \<Rightarrow> bool" where
  "debrief_storable r \<longleftrightarrow> length (db_cefr_estimate r) \<le> 2 \<and> pg_text_ok (db_cefr_estimate r)
     \<and> pg_text_ok (db_summary r) \<and> list_all error_storable (db_errors r)"

definition put_debrief :: "debrief_row \<Rightarrow> db \<Rightarrow> db" where
  "put_debrief r d = debriefs_update (\<lambda>rs. if find_debrief (db_session_id r) d = None then rs @ [r]
     else update_where (\<lambda>x. db_session_id x = db_session_id r) (\<lambda>_. r) rs) d"

text \<open>\<open>raced\<close> is the database a sibling worker committed between the lookup and our commit, if one did: an insert
  then meets its row, is rolled back and read again. Any other failure leaves the transaction uncommitted.\<close>

definition save_debrief ::
  "db option \<Rightarrow> int \<Rightarrow> string \<Rightarrow> string \<Rightarrow> debrief_error list \<Rightarrow> dbtx \<Rightarrow> (error + debrief_row) \<times> dbtx" where
  "save_debrief raced sid cefr summary errors t =
     (let r = \<lparr>db_session_id = sid, db_cefr_estimate = cefr, db_summary = summary, db_errors = errors\<rparr>
      in if \<not> debrief_storable r then (Inl (DataErr ''debriefs''), tx_rollback t)
         else if find_debrief sid (working t) \<noteq> None then (Inr r, tx_commit (tx_modify (put_debrief r) t))
         else case raced of
             Some c \<Rightarrow> (case find_debrief sid c of
                 Some w \<Rightarrow> (Inr w, tx_begin c) | None \<Rightarrow> (Inl (IntegrityErr ''debriefs''), tx_begin c))
           | None \<Rightarrow> if get_session sid (working t) = None then (Inl (IntegrityErr ''debriefs_session_id_fkey''), tx_rollback t)
               else (Inr r, tx_commit (tx_modify (put_debrief r) t)))"

section \<open>The core write\<close>

definition MAX_RECURRING_FOCUS :: nat where "MAX_RECURRING_FOCUS = 3"

definition memory_of :: "string \<Rightarrow> string list \<Rightarrow> string" where
  "memory_of summary error_types0 =
     (let error_types = filter (\<lambda>x. x \<noteq> []) error_types0;
          details = strip_persistent_instructions summary MAX_MEMORY_CHARS
      in if error_types \<noteq> []
         then py_strip (details @ '' Recurring focus: '' @ py_join '', '' (take MAX_RECURRING_FOCUS error_types) @ ''.'')
         else details)"

definition stage_memory :: "string \<Rightarrow> debrief_error list \<Rightarrow> learner_profile \<Rightarrow> learner_profile" where
  "stage_memory summary errors p =
     (let details = memory_of summary (map de_error_type errors)
      in if details = [] then p else p\<lparr>lp_memory_summary := strip_persistent_instructions details MAX_MEMORY_CHARS\<rparr>)"

definition stage_core :: "int \<Rightarrow> debrief_result \<Rightarrow> db \<Rightarrow> db" where
  "stage_core uid res d =
     (let d1 = put_user uid (\<lambda>u. u\<lparr>u_cefr_level := next_cefr_level (u_cefr_level u) (dr_cefr_estimate res)\<rparr>) d
      in case get_profile_by_user_id uid d1 of None \<Rightarrow> d1
         | Some p \<Rightarrow> put_profile (stage_memory (dr_summary res) (dr_errors res) p) d1)"

definition persist_core :: "db option \<Rightarrow> int \<Rightarrow> int \<Rightarrow> debrief_result \<Rightarrow> dbtx \<Rightarrow> (error + debrief_row) \<times> dbtx" where
  "persist_core raced sid uid res t =
     save_debrief raced sid (dr_cefr_estimate res) (dr_summary res) (dr_errors res) (tx_modify (stage_core uid res) t)"

section \<open>Enrichment\<close>

definition errors_seen :: "debrief_error list \<Rightarrow> (string \<times> string) list" where
  "errors_seen errors = fold (\<lambda>e seen. if py_strip (de_error_type e) = [] \<or> map_of seen (de_error_type e) \<noteq> None then seen
     else seen @ [(de_error_type e, de_correction e)]) errors []"

definition capture_vocabulary :: "int \<Rightarrow> int \<Rightarrow> debrief_result \<Rightarrow> sess \<Rightarrow> sess" where
  "capture_vocabulary uid sid res s = (if dr_words res = [] then s else snd (capture uid (Some sid) (dr_words res) s))"

definition schedule_review :: "int \<Rightarrow> debrief_result \<Rightarrow> (string set \<Rightarrow> string list) \<Rightarrow> instant \<Rightarrow> sess \<Rightarrow> sess" where
  "schedule_review uid res order now s = snd (record_session uid (errors_seen (dr_errors res)) order now s)"

definition emit_analytics :: "int \<Rightarrow> int \<Rightarrow> debrief_result \<Rightarrow> nat \<Rightarrow> instant \<Rightarrow> sess \<Rightarrow> sess" where
  "emit_analytics uid sid res error_count now s = session_completed uid sid (dr_cefr_estimate res) error_count now s"

definition enrichment_run ::
  "int \<Rightarrow> int \<Rightarrow> debrief_result \<Rightarrow> (string set \<Rightarrow> string list) \<Rightarrow> instant \<Rightarrow> sess \<Rightarrow> sess" where
  "enrichment_run uid sid res order now s =
     emit_analytics uid sid res (length (dr_errors res)) now
       (schedule_review uid res order now (capture_vocabulary uid sid res s))"

section \<open>Service\<close>

definition EMPTY_SUMMARY :: string where
  "EMPTY_SUMMARY = ''Pas encore de conversation '' @ [CHR 0xE0] @ '' analyser.''"

datatype debrief_plan = Cached debrief_row | NoConversation | Analyse "message list" string

definition locked_plan :: "int \<Rightarrow> int \<Rightarrow> db \<Rightarrow> debrief_plan" where
  "locked_plan sid uid d = (case find_debrief sid d of Some r \<Rightarrow> Cached r
    | None \<Rightarrow> (case get_transcript sid d of None \<Rightarrow> NoConversation
    | Some x \<Rightarrow> if tr_turns x = [] then NoConversation
        else Analyse (tr_turns x) (case get_profile_by_user_id uid d of
            None \<Rightarrow> ''gentle'' | Some p \<Rightarrow> lp_correction_intensity p)))"

definition generate_plan :: "int \<Rightarrow> int \<Rightarrow> db \<Rightarrow> error + debrief_plan" where
  "generate_plan sid uid d = (case get_owned_session sid uid d of Inl e \<Rightarrow> Inl e
    | Inr _ \<Rightarrow> Inr (locked_plan sid uid d))"

text \<open>After the rollback of a lost race the loaded user row is expired: \<open>read_id\<close> is what the ORM gives for its
  \<open>id\<close> then, a value or the error of a lazy load outside the event loop's bridge.\<close>

definition generate_finish ::
  "(int \<Rightarrow> error + int) \<Rightarrow> db option \<Rightarrow> int \<Rightarrow> int \<Rightarrow> (string set \<Rightarrow> string list) \<Rightarrow> instant \<Rightarrow> debrief_result \<Rightarrow> db
   \<Rightarrow> (error + debrief_row) \<times> db" where
  "generate_finish read_id raced sid uid order now res d = (case persist_core raced sid uid res (tx_begin d) of
      (Inl e, t) \<Rightarrow> (Inl e, committed t)
    | (Inr row, t) \<Rightarrow> (case (if raced \<noteq> None \<and> find_debrief sid d = None then read_id uid else Inr uid) of
        Inl e \<Rightarrow> (Inl e, committed t)
      | Inr i \<Rightarrow> (Inr row, committed (fst (enrichment_run i sid res order now (t, False))))))"

text \<open>\<open>d\<close> is the database at the reads, \<open>d'\<close> the database when the analysis returns.\<close>

definition generate ::
  "analyzer \<Rightarrow> (message list \<Rightarrow> string \<Rightarrow> error + string) \<Rightarrow> (int \<Rightarrow> error + int) \<Rightarrow> db option \<Rightarrow> int \<Rightarrow> user \<Rightarrow> (string set \<Rightarrow> string list)
   \<Rightarrow> instant \<Rightarrow> db \<Rightarrow> db \<Rightarrow> (error + debrief_row) \<times> db" where
  "generate an llm read_id raced sid u order now d d' = (case generate_plan sid (u_id u) d of
      Inl e \<Rightarrow> (Inl e, d)
    | Inr (Cached r) \<Rightarrow> (Inr r, d)
    | Inr NoConversation \<Rightarrow>
        (case save_debrief raced sid (u_cefr_level u) EMPTY_SUMMARY [] (tx_begin d) of (r, t) \<Rightarrow> (r, committed t))
    | Inr (Analyse turns intensity) \<Rightarrow> (case analyze an turns ''A1'' (Some intensity) (llm turns intensity) of
        Inl e \<Rightarrow> (Inl e, d')
      | Inr res \<Rightarrow> generate_finish read_id raced sid (u_id u) order now res d'))"

definition get_debrief :: "int \<Rightarrow> int \<Rightarrow> db \<Rightarrow> error + debrief_row" where
  "get_debrief sid uid d = (case get_owned_session sid uid d of Inl e \<Rightarrow> Inl e
    | Inr _ \<Rightarrow> (case find_debrief sid d of
        None \<Rightarrow> Inl (DomainErr NotFoundError ''No debrief for this session'') | Some r \<Rightarrow> Inr r))"

section \<open>The analysis\<close>

lemma normalize_canonical: "normalize_error_type val \<in> set CANONICAL_ERROR_TYPES"
  by (simp add: normalize_error_type_def Let_def CANONICAL_ERROR_TYPES_def)

lemma normalize_fixes_canonical: "e \<in> set CANONICAL_ERROR_TYPES \<Longrightarrow> normalize_error_type e = e"
proof -
  have "list_all (\<lambda>e. normalize_error_type e = e) CANONICAL_ERROR_TYPES" by code_simp
  then show "e \<in> set CANONICAL_ERROR_TYPES \<Longrightarrow> normalize_error_type e = e" by (simp add: list_all_iff)
qed

lemma alias_targets_canonical: "snd ` set ERROR_ALIASES \<subseteq> set CANONICAL_ERROR_TYPES"
  by (simp add: ERROR_ALIASES_def CANONICAL_ERROR_TYPES_def)

lemma length_map_filter: "length (List.map_filter f xs) \<le> length xs"
  by (induction xs) (auto simp: map_filter_simps split: option.splits)

lemma set_map_filter_SomeD: "y \<in> set (List.map_filter f xs) \<Longrightarrow> \<exists>x \<in> set xs. f x = Some y"
  by (auto simp: List.map_filter_def)

lemma error_item_SomeD:
  assumes "error_item str_of said ob = Some e"
  shows "de_original e \<noteq> []" "py_in (de_original e) said" "de_error_type e \<in> set CANONICAL_ERROR_TYPES"
    "length (de_examples e) \<le> 2" "length (de_alternatives e) \<le> 2"
  using assms normalize_canonical
  by (auto simp: error_item_def Let_def str_list_def split: if_split_asm json.splits)

lemma word_item_SomeD:
  assumes "word_item str_of ob = Some w"
  shows "vw_word w \<noteq> []" "py_strip (vw_word w) = vw_word w"
  using assms by (auto simp: word_item_def Let_def split: if_split_asm)

lemma read_estimate_valid: "read_estimate v fallback = Inr c \<Longrightarrow> c \<in> insert fallback VALID_CEFR"
  by (cases v) (auto simp: read_estimate_def)

lemma analyze_InrE:
  assumes "analyze an turns fallback (Some i) raw = Inr res"
  obtains data where "dr_cefr_estimate res \<in> insert fallback VALID_CEFR"
    "dr_errors res = List.map_filter (error_item (an_str an) (learner_text (an_max_learner_turns an) turns))
        (take (st_max_errors (style_for_intensity i)) (dict_list (json_get data ''errors'' JNull)))"
    "dr_words res = List.map_filter (word_item (an_str an)) (take 3 (dict_list (json_get data ''words'' JNull)))"
  using assms read_estimate_valid
  by (auto simp: analyze_def Let_def split: sum.splits)

text \<open>C30: What a debrief may contain, whatever the language model answers. An analysis that succeeds has a CEFR
  level of the scale (the fallback when the answer's is not one); at most one error for a gentle and five for a
  detailed learner; every error quotes a non-empty part of what the learner said in the last turns, has one of the
  sixteen canonical types and at most two examples and two alternatives; at most three words, none of them blank.
  Canonical types are fixed points of the taxonomy, so normalising twice changes nothing.\<close>

theorem analysis_is_grounded:
  assumes "analyze an turns fallback (Some intensity) raw = Inr res" "fallback \<in> VALID_CEFR"
  shows "dr_cefr_estimate res \<in> VALID_CEFR
    \<and> length (dr_errors res) \<le> (if intensity = ''detailed'' then 5 else 1)
    \<and> (\<forall>e \<in> set (dr_errors res). de_original e \<noteq> []
         \<and> py_in (de_original e) (learner_text (an_max_learner_turns an) turns)
         \<and> de_error_type e \<in> set CANONICAL_ERROR_TYPES \<and> normalize_error_type (de_error_type e) = de_error_type e
         \<and> length (de_examples e) \<le> 2 \<and> length (de_alternatives e) \<le> 2)
    \<and> length (dr_words res) \<le> 3 \<and> (\<forall>w \<in> set (dr_words res). vw_word w \<noteq> [] \<and> py_strip (vw_word w) = vw_word w)"
proof -
  obtain data where data: "dr_cefr_estimate res \<in> insert fallback VALID_CEFR"
    "dr_errors res = List.map_filter (error_item (an_str an) (learner_text (an_max_learner_turns an) turns))
        (take (st_max_errors (style_for_intensity intensity)) (dict_list (json_get data ''errors'' JNull)))"
    "dr_words res = List.map_filter (word_item (an_str an)) (take 3 (dict_list (json_get data ''words'' JNull)))"
    using assms(1) by (rule analyze_InrE)
  have "length (dr_errors res) \<le> st_max_errors (style_for_intensity intensity)" "length (dr_words res) \<le> 3"
    unfolding data(2, 3) by (rule order_trans [OF length_map_filter], simp)+
  then have "length (dr_errors res) \<le> (if intensity = ''detailed'' then 5 else 1)" "length (dr_words res) \<le> 3"
    by (simp_all add: style_for_intensity_def DETAILED_def GENTLE_def split: if_split_asm)
  then show ?thesis using data(1) assms(2)
    by (auto simp: data(2, 3) normalize_fixes_canonical dest!: set_map_filter_SomeD dest: error_item_SomeD word_item_SomeD)
qed

fun demo_str :: "json \<Rightarrow> string" where
  "demo_str (JStr s) = s"
| "demo_str _ = ''?''"

definition demo_analyzer :: analyzer where
  "demo_analyzer = \<lparr>an_loads = (\<lambda>s. Inr (JObj [(''cefr_estimate'', JStr ''B1''), (''summary'', JStr ''Good''),
     (''errors'', JList [JObj [(''original'', JStr ''a apple''), (''correction'', JStr ''an apple''), (''error_type'', JStr ''Articles!'')]]),
     (''words'', JList [JObj [(''word'', JStr '' apple '')]])])), an_str = demo_str, an_max_errors = 5, an_max_learner_turns = 60\<rparr>"

definition demo_turns :: "message list" where
  "demo_turns = [\<lparr>m_role = ROLE_USER, m_content = ''I eat a apple''\<rparr>]"

definition demo_result :: debrief_result where
  "demo_result = \<lparr>dr_cefr_estimate = ''B1'', dr_summary = ''Good'',
     dr_errors = [\<lparr>de_original = ''a apple'', de_correction = ''an apple'', de_rule = [], de_error_type = ''article'',
       de_explanation = [], de_examples = [], de_alternatives = []\<rparr>],
     dr_words = [\<lparr>vw_word = ''apple'', vw_phonetic = [], vw_translation = [], vw_example = []\<rparr>]\<rparr>"

lemma demo_analysis: "analyze demo_analyzer demo_turns ''A1'' (Some ''gentle'') (Inr ''{}'') = Inr demo_result"
  by code_simp

theorem analysis_is_grounded_witness:
  "dr_cefr_estimate demo_result \<in> VALID_CEFR \<and> length (dr_errors demo_result) \<le> 1
   \<and> py_in (de_original (hd (dr_errors demo_result))) (learner_text 60 demo_turns)"
proof -
  have "''A1'' \<in> VALID_CEFR" by (simp add: CEFR_LEVELS_def)
  from analysis_is_grounded [OF demo_analysis this]
  show ?thesis by (simp add: demo_result_def demo_analyzer_def)
qed

text \<open>An estimate outside the scale is not ignored: \<open>generate\<close> leaves the fallback at A1, and the learner is moved down.\<close>

lemma malformed_estimate_demotes:
  assumes "analyze an turns ''A1'' (Some i) raw = Inr res" "parse_debrief_json (an_loads an) text = Inr data" "raw = Inr text"
    "json_get data ''cefr_estimate'' (JStr []) = JStr s" "s \<notin> VALID_CEFR"
  shows "next_cefr_level ''B1'' (dr_cefr_estimate res) = ''A2''"
proof -
  have "dr_cefr_estimate res = ''A1''" using assms by (auto simp: analyze_def Let_def read_estimate_def)
  moreover have "next_cefr_level ''B1'' ''A1'' = ''A2''" by code_simp
  ultimately show ?thesis by simp
qed

end
