(* ===== verification/DebriefProps.thy ===== *)
theory DebriefProps
  imports Debrief
begin

text \<open>
  What a generated debrief leaves in the database: the CEFR step, the atomic core, the frame of the
  enrichment, what a failed vocabulary capture does to the effects behind it, and two workers that analyse the
  same session.
\<close>

section \<open>The CEFR step\<close>

lemma cefr_steps:
  "list_all (\<lambda>c. list_all (\<lambda>e. next_cefr_level c e \<in> set CEFR_LEVELS
     \<and> int (cefr_index (next_cefr_level c e)) - int (cefr_index c) = sgn (int (cefr_index e) - int (cefr_index c))) CEFR_LEVELS) CEFR_LEVELS"
  by code_simp

lemma next_cefr_one_step:
  assumes "c \<in> VALID_CEFR" "e \<in> VALID_CEFR"
  shows "next_cefr_level c e \<in> VALID_CEFR"
    "int (cefr_index (next_cefr_level c e)) - int (cefr_index c) = sgn (int (cefr_index e) - int (cefr_index c))"
  using cefr_steps assms unfolding list_all_iff by blast+

section \<open>Frames of the enrichment\<close>

lemma capture_sess_ok:
  assumes "\<And>uid sid w p tr ex d. P d \<Longrightarrow> P (put_card uid sid w p tr ex d)" "sess_ok P s"
  shows "sess_ok P (snd (capture uid sid ws s))"
  using assms(2)
proof (induction uid sid ws s rule: capture.induct)
  case (2 uid sid w ws s)
  let ?up = "upsert_card uid sid (py_lower (py_strip (vw_word w))) (py_strip (vw_phonetic w)) (py_strip (vw_translation w)) (py_strip (vw_example w))"
  have up: "sess_ok P (snd (sess_exec ?up s))"
    by (rule sess_ok_exec [OF _ 2(3)]) (auto simp: upsert_card_def assms(1) split: if_split_asm)
  obtain r1 s1 where e: "sess_exec ?up s = (r1, s1)" by (cases "sess_exec ?up s") auto
  show ?case using 2 up by (cases r1) (auto simp: e Let_def)
qed simp

lemma record_types_sess_ok:
  assumes "\<And>uid et st d. P d \<Longrightarrow> P (put_item uid et st d)" "sess_ok P s"
  shows "sess_ok P (snd (record_types uid ex errs now ets s))"
  using assms(2)
proof (induction ets arbitrary: s)
  case (Cons et ets)
  show ?case
  proof (cases "next_state errs now et (to_state (List.find (\<lambda>r. ri_error_type r = et) ex))")
    case (Inr st)
    have up: "sess_ok P (snd (sess_exec (upsert_item uid et st) s))"
      by (rule sess_ok_exec [OF _ Cons.prems]) (auto simp: upsert_item_def assms(1) split: if_split_asm)
    obtain r1 s1 where e: "sess_exec (upsert_item uid et st) s = (r1, s1)" by (cases "sess_exec (upsert_item uid et st) s") auto
    show ?thesis using Cons up Inr by (cases r1) (auto simp: e)
  qed (use Cons in simp)
qed simp

lemma record_session_sess_ok:
  assumes "\<And>uid et st d. P d \<Longrightarrow> P (put_item uid et st d)" "sess_ok P s"
  shows "sess_ok P (snd (record_session uid errs order now s))"
proof -
  obtain t ab where s: "s = (t, ab)" by (cases s)
  let ?ex = "list_items uid (working t)"
  let ?run = "record_types uid ?ex errs now (order (ri_error_type ` set ?ex \<union> fst ` set errs)) (t, False)"
  have "sess_ok P (t, False)" using assms(2) by (simp add: s sess_ok_def)
  then have ok: "sess_ok P (snd ?run)" by (rule record_types_sess_ok [where P = P, rotated]) (rule assms(1))
  obtain r s1 where run: "?run = (r, s1)" by (cases ?run)
  show ?thesis
  proof (cases ab)
    case True
    then show ?thesis using assms(2) by (simp add: s record_session_def)
  next
    case False
    then show ?thesis using ok run
      by (cases r) (auto simp: s record_session_def sess_exec_live sess_ok_def sess_rollback_def)
  qed
qed

lemma svc_emit_sess_ok:
  assumes "\<And>e d. P d \<Longrightarrow> P (d\<lparr>analytics := analytics d @ [e]\<rparr>)" "sess_ok P s"
  shows "sess_ok P (snd (svc_emit e s))"
proof -
  have "sess_ok P (snd (sess_exec (insert_event e) s))"
    by (rule sess_ok_exec [OF _ assms(2)]) (auto simp: insert_event_def assms(1) split: if_split_asm)
  then show ?thesis
    by (auto simp: svc_emit_def sink_emit_def sess_ok_def sess_rollback_def split: prod.splits sum.splits)
qed

lemma session_completed_sess_ok:
  assumes "\<And>e d. P d \<Longrightarrow> P (d\<lparr>analytics := analytics d @ [e]\<rparr>)" "sess_ok P s"
  shows "sess_ok P (session_completed uid sid cefr n now s)"
proof -
  have emit: "sess_ok P s \<Longrightarrow> sess_ok P (snd (svc_emit e s))" for e s
    by (rule svc_emit_sess_ok [where P = P]) (auto intro: assms(1))
  have "sess_ok P (snd (sess_exec (\<lambda>t. (Inr (count_events uid EVENT_SESSION_COMPLETED (working t)), t)) s))"
    by (rule sess_ok_exec [OF _ assms(2)]) auto
  then show ?thesis
    by (auto simp: session_completed_def Let_def split: prod.splits sum.splits) (metis emit snd_conv)+
qed

text \<open>A predicate the three kinds of write keep is kept by the enrichment.\<close>

lemma enrichment_sess_ok:
  assumes "\<And>uid sid w p tr ex d. P d \<Longrightarrow> P (put_card uid sid w p tr ex d)"
    and "\<And>uid et st d. P d \<Longrightarrow> P (put_item uid et st d)"
    and "\<And>e d. P d \<Longrightarrow> P (d\<lparr>analytics := analytics d @ [e]\<rparr>)" and "sess_ok P s"
  shows "sess_ok P (enrichment_run uid sid res order now s)"
  unfolding enrichment_run_def emit_analytics_def schedule_review_def capture_vocabulary_def
  using assms(4)
  by (auto intro!: session_completed_sess_ok assms(3) record_session_sess_ok assms(2) capture_sess_ok assms(1))

definition core_of :: "db \<Rightarrow> user list \<times> learner_profile list \<times> debrief_row list \<times> conv_session list \<times> transcript list" where
  "core_of d = (users d, profiles d, debriefs d, sessions d, transcripts d)"

lemma enrichment_keeps_core: "core_of (committed (fst (enrichment_run uid sid res order now (tx_begin d, ab)))) = core_of d"
proof -
  have "sess_ok (\<lambda>d'. core_of d' = core_of d) (enrichment_run uid sid res order now (tx_begin d, ab))"
    by (rule enrichment_sess_ok) (simp_all add: core_of_def put_card_def put_item_def sess_ok_def)
  then show ?thesis by (simp add: sess_ok_def)
qed

section \<open>The core\<close>

lemma find_replace:
  "key r = k \<Longrightarrow> List.find (\<lambda>x. key x = j) (update_where (\<lambda>x. key x = k) (\<lambda>_. r) rows)
     = map_option (\<lambda>x. if key x = k then r else x) (List.find (\<lambda>x. key x = j) rows)"
  by (induction rows) auto

lemma unique_replace: "key r = k \<Longrightarrow> unique_on key (update_where (\<lambda>x. key x = k) (\<lambda>_. r) rows) = unique_on key rows"
  by (rule unique_on_update_where) simp

definition row_for :: "int \<Rightarrow> debrief_result \<Rightarrow> debrief_row" where
  "row_for sid res = \<lparr>db_session_id = sid, db_cefr_estimate = dr_cefr_estimate res, db_summary = dr_summary res,
     db_errors = dr_errors res\<rparr>"

lemma find_debrief_SomeD: "find_debrief s d = Some r \<Longrightarrow> r \<in> set (debriefs d) \<and> db_session_id r = s"
  unfolding find_debrief_def by (rule find_SomeD)

lemma find_put_debrief:
  "find_debrief s (put_debrief r d) = (if s = db_session_id r then Some r else find_debrief s d)"
proof (cases "find_debrief (db_session_id r) d")
  case None
  then show ?thesis
    by (cases "find_debrief s d") (auto simp: find_debrief_def put_debrief_def find_append_None find_append_Some)
next
  case (Some r0)
  have "find_debrief s (put_debrief r d)
      = map_option (\<lambda>x. if db_session_id x = db_session_id r then r else x) (find_debrief s d)"
    using Some unfolding find_debrief_def put_debrief_def by (simp add: find_replace [where key = db_session_id])
  then show ?thesis using Some find_debrief_SomeD by (cases "find_debrief s d") fastforce+
qed

lemma unique_put_debrief:
  "unique_on db_session_id (debriefs d) \<Longrightarrow> unique_on db_session_id (debriefs (put_debrief r d))"
  by (auto simp: put_debrief_def find_debrief_def find_None_conv unique_on_snoc unique_replace)

lemma put_debrief_frame [simp]:
  "users (put_debrief r d) = users d" "profiles (put_debrief r d) = profiles d" "sessions (put_debrief r d) = sessions d"
  "transcripts (put_debrief r d) = transcripts d" "get_user v (put_debrief r d) = get_user v d"
  by (simp_all add: put_debrief_def get_user_def)

lemma stage_core_frame [simp]:
  "debriefs (stage_core uid res d) = debriefs d" "sessions (stage_core uid res d) = sessions d"
  "transcripts (stage_core uid res d) = transcripts d"
  "find_debrief sid (stage_core uid res d) = find_debrief sid d"
  "get_session sid (stage_core uid res d) = get_session sid d"
  by (auto simp: stage_core_def Let_def put_profile_def find_debrief_def get_session_def split: option.split)

lemma get_user_stage_core: "get_user v (stage_core uid res d) = map_option (\<lambda>u. if u_id u = uid
    then u\<lparr>u_cefr_level := next_cefr_level (u_cefr_level u) (dr_cefr_estimate res)\<rparr> else u) (get_user v d)"
proof -
  let ?f = "\<lambda>u. u\<lparr>u_cefr_level := next_cefr_level (u_cefr_level u) (dr_cefr_estimate res)\<rparr>"
  have "get_user v (stage_core uid res d) = get_user v (put_user uid ?f d)"
    by (auto simp: stage_core_def Let_def put_profile_def get_user_def split: option.split)
  then show ?thesis by (simp add: get_user_put_user)
qed

lemma lp_user_stage_memory [simp]: "lp_user_id (stage_memory summary errors p) = lp_user_id p"
  by (simp add: stage_memory_def Let_def)

lemma get_profile_stage_core: "get_profile_by_user_id v (stage_core uid res d) = (if v = uid
    then map_option (stage_memory (dr_summary res) (dr_errors res)) (get_profile_by_user_id v d) else get_profile_by_user_id v d)"
proof -
  let ?d1 = "put_user uid (\<lambda>u. u\<lparr>u_cefr_level := next_cefr_level (u_cefr_level u) (dr_cefr_estimate res)\<rparr>) d"
  have d1: "get_profile_by_user_id w ?d1 = get_profile_by_user_id w d" for w by (simp add: get_profile_by_user_id_def)
  show ?thesis
  proof (cases "get_profile_by_user_id uid d")
    case None
    then show ?thesis by (auto simp: stage_core_def Let_def d1)
  next
    case (Some p)
    let ?q = "stage_memory (dr_summary res) (dr_errors res) p"
    have q: "lp_user_id ?q = uid" using Some profile_rows.row_of_SomeD by (simp add: get_profile_row)
    have "profile_rows.row_of uid ?d1 \<noteq> None" using Some d1 by (simp add: get_profile_row)
    from profile_rows.row_of_put [OF this q, of v] show ?thesis
      using Some q d1 by (simp add: stage_core_def Let_def put_profile_def get_profile_row)
  qed
qed

text \<open>The memory that goes back into later prompts is sanitised.\<close>

lemma stage_memory_clean:
  "stage_memory summary errors p = p \<or> text_normal (lp_memory_summary (stage_memory summary errors p))
     \<and> length (lp_memory_summary (stage_memory summary errors p)) \<le> MAX_MEMORY_CHARS"
  by (auto simp: stage_memory_def Let_def strip_persistent_instructions_def text_normal_clean_text length_clean_text)

lemma persist_core_cases:
  assumes "persist_core raced sid uid res (tx_begin d) = (r, t)"
  obtains (failed) e where "r = Inl e" "t = tx_begin d \<or> (\<exists>c. raced = Some c \<and> t = tx_begin c)"
  | (written) "r = Inr (row_for sid res)" "t = tx_begin (put_debrief (row_for sid res) (stage_core uid res d))"
      "raced = None \<or> find_debrief sid d \<noteq> None"
  | (lost) c w where "r = Inr w" "raced = Some c" "find_debrief sid c = Some w" "find_debrief sid d = None" "t = tx_begin c"
  using assms
  by (cases raced)
    (auto simp: persist_core_def save_debrief_def Let_def row_for_def tx_begin_def tx_modify_def tx_commit_def tx_rollback_def
      split: if_split_asm option.splits)

text \<open>What a database looks like after the core of a debrief was written over \<open>d\<close>.\<close>

definition debrief_written :: "int \<Rightarrow> int \<Rightarrow> debrief_result \<Rightarrow> db \<Rightarrow> db \<Rightarrow> bool" where
  "debrief_written sid uid res d d' \<longleftrightarrow>
     find_debrief sid d' = Some (row_for sid res) \<and> (\<forall>s. s \<noteq> sid \<longrightarrow> find_debrief s d' = find_debrief s d)
     \<and> unique_on db_session_id (debriefs d')
     \<and> (\<forall>v. v \<noteq> uid \<longrightarrow> get_user v d' = get_user v d \<and> get_profile_by_user_id v d' = get_profile_by_user_id v d)
     \<and> (\<forall>u. get_user uid d = Some u \<longrightarrow> (\<exists>l. get_user uid d' = Some (u\<lparr>u_cefr_level := l\<rparr>) \<and> l \<in> VALID_CEFR
          \<and> int (cefr_index l) - int (cefr_index (u_cefr_level u))
            = sgn (int (cefr_index (dr_cefr_estimate res)) - int (cefr_index (u_cefr_level u)))))
     \<and> (\<forall>p. get_profile_by_user_id uid d = Some p \<longrightarrow> (\<exists>p'. get_profile_by_user_id uid d' = Some p'
          \<and> (p' = p \<or> (\<exists>m. p' = p\<lparr>lp_memory_summary := m\<rparr> \<and> text_normal m \<and> length m \<le> MAX_MEMORY_CHARS))))
     \<and> sessions d' = sessions d \<and> transcripts d' = transcripts d"

lemma stage_memory_shape:
  "stage_memory summary errors p = p \<or> (\<exists>m. stage_memory summary errors p = p\<lparr>lp_memory_summary := m\<rparr>
     \<and> text_normal m \<and> length m \<le> MAX_MEMORY_CHARS)"
  by (auto simp: stage_memory_def Let_def strip_persistent_instructions_def text_normal_clean_text length_clean_text
      intro!: exI)

lemma core_written:
  assumes "unique_on db_session_id (debriefs d)" "dr_cefr_estimate res \<in> VALID_CEFR"
    "\<forall>u \<in> set (users d). u_cefr_level u \<in> VALID_CEFR"
    "core_of d' = core_of (put_debrief (row_for sid res) (stage_core uid res d))"
  shows "debrief_written sid uid res d d'"
proof -
  let ?e = "put_debrief (row_for sid res) (stage_core uid res d)"
  have same: "users d' = users ?e" "profiles d' = profiles ?e" "debriefs d' = debriefs ?e" "sessions d' = sessions d" "transcripts d' = transcripts d"
    using assms(4) by (simp_all add: core_of_def)
  have fd: "find_debrief s d' = (if s = sid then Some (row_for sid res) else find_debrief s d)" for s
    using find_put_debrief [of s "row_for sid res" "stage_core uid res d"]
    by (simp add: find_debrief_def same row_for_def)
  have gu: "get_user v d' = map_option (\<lambda>u. if u_id u = uid
      then u\<lparr>u_cefr_level := next_cefr_level (u_cefr_level u) (dr_cefr_estimate res)\<rparr> else u) (get_user v d)" for v
    using get_user_stage_core [of v uid res d] by (simp add: get_user_def same)
  have gp: "get_profile_by_user_id v d' = get_profile_by_user_id v (stage_core uid res d)" for v
    by (simp add: get_profile_by_user_id_def same)
  have "get_user v d' = get_user v d" if "v \<noteq> uid" for v
    using that get_user_SomeD [of v d] by (cases "get_user v d") (auto simp: gu)
  moreover have "\<exists>l. get_user uid d' = Some (u\<lparr>u_cefr_level := l\<rparr>) \<and> l \<in> VALID_CEFR
          \<and> int (cefr_index l) - int (cefr_index (u_cefr_level u))
            = sgn (int (cefr_index (dr_cefr_estimate res)) - int (cefr_index (u_cefr_level u)))"
    if "get_user uid d = Some u" for u
    using that get_user_SomeD [OF that] next_cefr_one_step [of "u_cefr_level u" "dr_cefr_estimate res"] assms(2, 3) by (auto simp: gu)
  moreover have "\<exists>p'. get_profile_by_user_id uid d' = Some p'
          \<and> (p' = p \<or> (\<exists>m. p' = p\<lparr>lp_memory_summary := m\<rparr> \<and> text_normal m \<and> length m \<le> MAX_MEMORY_CHARS))"
    if "get_profile_by_user_id uid d = Some p" for p
    using that stage_memory_shape [of "dr_summary res" "dr_errors res" p] by (auto simp: gp get_profile_stage_core)
  moreover have "unique_on db_session_id (debriefs d')"
    unfolding same(3) by (rule unique_put_debrief) (simp add: assms(1))
  ultimately show ?thesis
    using same(4, 5) by (auto simp: debrief_written_def fd gp get_profile_stage_core)
qed


definition demo_debrief_db :: db where
  "demo_debrief_db = empty_db\<lparr>users := [new_user 1 ''a'' ''h'' ''fr''], seq_users := 2,
     sessions := [\<lparr>cs_id = 7, cs_user_id = 1, cs_mode = ''free'', cs_scenario_id = None, cs_mission_id = None, cs_voice_engine = ''std'',
       cs_started_at = 0, cs_last_activity_at = utc 0, cs_ended_at = None, cs_duration_minutes = None\<rparr>], seq_sessions := 8\<rparr>"


section \<open>The enrichment is not isolated\<close>

lemma capture_fails_aborted:
  "capture uid sid ws s = (Inl e, s') \<Longrightarrow> snd s'"
proof (induction uid sid ws s rule: capture.induct)
  case (2 uid sid w ws s)
  let ?up = "upsert_card uid sid (py_lower (py_strip (vw_word w))) (py_strip (vw_phonetic w)) (py_strip (vw_translation w)) (py_strip (vw_example w))"
  obtain r1 s1 where e: "sess_exec ?up s = (r1, s1)" by (cases "sess_exec ?up s") auto
  show ?case
  proof (cases r1)
    case (Inl e1)
    then have "snd s1" using e by (cases s) (auto simp: sess_exec_def split: if_split_asm prod.splits sum.splits)
    then show ?thesis using 2 e Inl by (auto simp: Let_def split: if_split_asm)
  next
    case (Inr u)
    then show ?thesis using 2 e by (auto simp: Let_def split: if_split_asm)
  qed
qed simp

lemma record_session_aborted: "record_session uid errs order now (t, True) = (Inl (OtherErr ''InFailedSQLTransactionError''), (t, True))"
  by (simp add: record_session_def)

text \<open>A failed vocabulary statement silently cancels the other enrichments. When the capture of the debrief's
  words fails (a word longer than its column, a NUL from the model), the database session stays in its aborted
  transaction: the review schedule is not advanced and neither the completion nor the activation event is
  recorded.\<close>

theorem failed_capture_cancels_enrichment:
  assumes "capture uid (Some sid) (dr_words res) (tx_begin d, False) = (Inl e, s)"
  shows "review_items (committed (fst (enrichment_run uid sid res order now (tx_begin d, False)))) = review_items d
    \<and> analytics (committed (fst (enrichment_run uid sid res order now (tx_begin d, False)))) = analytics d"
proof -
  have words: "dr_words res \<noteq> []" using assms by (cases "dr_words res") auto
  obtain t where s: "s = (t, True)" using capture_fails_aborted [OF assms] by (cases s) simp
  have "sess_ok (\<lambda>d'. review_items d' = review_items d \<and> analytics d' = analytics d) (snd (capture uid (Some sid) (dr_words res) (tx_begin d, False)))"
    by (rule capture_sess_ok) (simp_all add: put_card_def sess_ok_def)
  then show ?thesis using assms words s
    by (simp add: enrichment_run_def capture_vocabulary_def schedule_review_def emit_analytics_def record_session_aborted
        session_completed_aborted sess_ok_def)
qed

definition long_word_result :: debrief_result where
  "long_word_result = demo_result\<lparr>dr_words := [\<lparr>vw_word = replicate 121 CHR ''a'', vw_phonetic = [], vw_translation = [], vw_example = []\<rparr>]\<rparr>"

theorem failed_capture_cancels_enrichment_witness:
  "review_items (committed (fst (enrichment_run 1 7 long_word_result (\<lambda>_. [''article'']) 5 (tx_begin demo_debrief_db, False)))) = []
   \<and> analytics (committed (fst (enrichment_run 1 7 long_word_result (\<lambda>_. [''article'']) 5 (tx_begin demo_debrief_db, False)))) = []"
proof -
  have fails: "\<not> card_storable (py_lower (py_strip (replicate 121 CHR ''a''))) [] [] []" by code_simp
  have nonempty: "py_lower (py_strip (replicate 121 CHR ''a'')) \<noteq> []" by code_simp
  have "capture 1 (Some 7) (dr_words long_word_result) (tx_begin demo_debrief_db, False)
      = (Inl (DataErr ''vocabulary_entries''), (tx_begin demo_debrief_db, True))"
    using fails nonempty
    by (simp add: long_word_result_def Let_def sess_exec_live upsert_card_def)
  from failed_capture_cancels_enrichment [OF this, of "\<lambda>_. [''article'']" 5]
  show ?thesis by (simp add: demo_debrief_db_def empty_db_def)
qed

section \<open>Two workers\<close>

text \<open>Both workers read before either wrote, so both analyse. When the second one writes after the first one committed,
  its lookup finds the row: it overwrites it, and moves the level a second time.\<close>

lemma second_worker_promotes_again:
  assumes "get_user uid d = Some u" "generate_finish read_id None sid uid order now res1 d = (Inr row1, d1)"
    "generate_finish read_id None sid uid order now' res2 d1 = (Inr row2, d2)"
  shows "row2 = row_for sid res2"
    "map_option u_cefr_level (get_user uid d2)
      = Some (next_cefr_level (next_cefr_level (u_cefr_level u) (dr_cefr_estimate res1)) (dr_cefr_estimate res2))"
proof -
  have step: "row = row_for sid res \<and> map_option u_cefr_level (get_user uid e')
      = Some (next_cefr_level (u_cefr_level v) (dr_cefr_estimate res))"
    if "generate_finish read_id None sid uid order k res e = (Inr row, e')" "get_user uid e = Some v" for res k e e' row v
  proof -
    obtain r t where run: "persist_core None sid uid res (tx_begin e) = (r, t)" by (cases "persist_core None sid uid res (tx_begin e)")
    have "row = row_for sid res \<and> core_of e' = core_of (put_debrief (row_for sid res) (stage_core uid res e))"
      using run by (cases rule: persist_core_cases) (use that(1) run in \<open>auto simp: generate_finish_def enrichment_keeps_core\<close>)
    then have "row = row_for sid res" "get_user uid e' = get_user uid (stage_core uid res e)"
      by (auto simp: core_of_def get_user_def)
    then show ?thesis using that(2) get_user_SomeD [OF that(2)] by (simp add: get_user_stage_core)
  qed
  have s1: "map_option u_cefr_level (get_user uid d1) = Some (next_cefr_level (u_cefr_level u) (dr_cefr_estimate res1))"
    using step [OF assms(2, 1)] by simp
  then obtain v where v: "get_user uid d1 = Some v" by auto
  then show "row2 = row_for sid res2"
    "map_option u_cefr_level (get_user uid d2)
      = Some (next_cefr_level (next_cefr_level (u_cefr_level u) (dr_cefr_estimate res1)) (dr_cefr_estimate res2))"
    using step [OF assms(3) v] s1 by auto
qed

end
