(* ===== verification/Generation.thy ===== *)
theory Generation
  imports DebriefProps
begin

text \<open>
  Concurrent generation of debriefs (\<^verbatim>\<open>app/features/debrief/service.py\<close>, \<^verbatim>\<open>app/database.py\<close>): the lock per session and
  process, the request's connection given back while the model answers, and the write that meets a sibling worker. Requests are
  interleaved at every await; a worker is a process with its own locks and its own connection pool.
\<close>

section \<open>State\<close>

text \<open>A request waits in its lock's queue, lets the model analyse, waits for a connection with the answer, and writes what it has
  (nothing for an empty conversation) over the lookup it made.\<close>

datatype gen_phase =
    Queued
  | Analysing "message list" string
  | Answered debrief_result
  | Writing "debrief_result option" db
  | is_finished: Finished "error + debrief_row"

record gen_task =
  gt_worker :: nat
  gt_sid :: int
  gt_user :: user
  gt_phase :: gen_phase

text \<open>\<open>gs_locks\<close> is \<open>_generation_locks\<close> of every worker: the queue of a lock, its holder first. \<open>gs_written\<close> records the sessions
  whose core was written, in order.\<close>

record gen_state =
  gs_tasks :: "gen_task list"
  gs_locks :: "nat \<times> int \<Rightarrow> nat list option"
  gs_db :: db
  gs_written :: "int list"

record gen_env =
  ge_analyzer :: analyzer
  ge_read_id :: "int \<Rightarrow> error + int"
  ge_order :: "string set \<Rightarrow> string list"
  ge_capacity :: nat

definition gen_init :: "db \<Rightarrow> gen_state" where
  "gen_init d = \<lparr>gs_tasks = [], gs_locks = (\<lambda>_. None), gs_db = d, gs_written = []\<rparr>"

abbreviation task :: "gen_state \<Rightarrow> nat \<Rightarrow> gen_task" where
  "task s i \<equiv> gs_tasks s ! i"

abbreviation phase :: "gen_state \<Rightarrow> nat \<Rightarrow> gen_phase" where
  "phase s i \<equiv> gt_phase (task s i)"

definition lock_key :: "gen_task \<Rightarrow> nat \<times> int" where
  "lock_key t = (gt_worker t, gt_sid t)"

text \<open>\<open>get_db\<close> keeps the request's connection from its first statement on; \<open>release_request_connection\<close> gives it back before the
  model is asked, and the next statement takes one again.\<close>

fun holds_connection :: "gen_phase \<Rightarrow> bool" where
  "holds_connection Queued = True"
| "holds_connection (Analysing _ _) = False"
| "holds_connection (Answered _) = False"
| "holds_connection (Writing _ _) = True"
| "holds_connection (Finished _) = False"

definition connections :: "nat \<Rightarrow> gen_state \<Rightarrow> nat" where
  "connections w s = length (filter (\<lambda>t. gt_worker t = w \<and> holds_connection (gt_phase t)) (gs_tasks s))"

section \<open>Operations\<close>

definition generation_lock :: "nat \<Rightarrow> int \<Rightarrow> (nat \<times> int \<Rightarrow> nat list option) \<Rightarrow> (nat \<times> int \<Rightarrow> nat list option)" where
  "generation_lock w sid locks = (case locks (w, sid) of None \<Rightarrow> locks((w, sid) := Some []) | Some _ \<Rightarrow> locks)"

definition add_task :: "nat \<Rightarrow> int \<Rightarrow> user \<Rightarrow> gen_phase \<Rightarrow> gen_state \<Rightarrow> gen_state" where
  "add_task w sid u p s = s\<lparr>gs_tasks := gs_tasks s @ [\<lparr>gt_worker = w, gt_sid = sid, gt_user = u, gt_phase = p\<rparr>]\<rparr>"

definition set_phase :: "nat \<Rightarrow> gen_phase \<Rightarrow> gen_state \<Rightarrow> gen_state" where
  "set_phase i p s = s\<lparr>gs_tasks := (gs_tasks s)[i := (task s i)\<lparr>gt_phase := p\<rparr>]\<rparr>"

text \<open>Leaving \<open>async with lock\<close>, by a result or an exception.\<close>

definition finish :: "nat \<Rightarrow> error + debrief_row \<Rightarrow> gen_state \<Rightarrow> gen_state" where
  "finish i r s = (let k = lock_key (task s i)
     in (set_phase i (Finished r) s)\<lparr>gs_locks := (gs_locks s)(k := map_option (remove1 i) (gs_locks s k))\<rparr>)"

text \<open>The route and the head of \<open>generate\<close>: the rate limiter's verdict, the ownership of the session, the queue of its lock.\<close>

definition generate_debrief :: "nat \<Rightarrow> int \<Rightarrow> user \<Rightarrow> error option \<Rightarrow> gen_state \<Rightarrow> gen_state" where
  "generate_debrief w sid u limited s =
     (case (case limited of Some e \<Rightarrow> Inl e | None \<Rightarrow> get_owned_session sid (u_id u) (gs_db s)) of
        Inl e \<Rightarrow> add_task w sid u (Finished (Inl e)) s
      | Inr _ \<Rightarrow> (let locks = generation_lock w sid (gs_locks s)
          in (add_task w sid u Queued s)\<lparr>gs_locks := locks((w, sid) := map_option (\<lambda>q. q @ [length (gs_tasks s)]) (locks (w, sid)))\<rparr>))"

definition read_locked :: "nat \<Rightarrow> gen_state \<Rightarrow> gen_state" where
  "read_locked i s = (case locked_plan (gt_sid (task s i)) (u_id (gt_user (task s i))) (gs_db s) of
      Cached r \<Rightarrow> finish i (Inr r) s
    | NoConversation \<Rightarrow> set_phase i (Writing None (gs_db s)) s
    | Analyse turns intensity \<Rightarrow> set_phase i (Analysing turns intensity) s)"

definition answer :: "gen_env \<Rightarrow> nat \<Rightarrow> message list \<Rightarrow> string \<Rightarrow> error + string \<Rightarrow> gen_state \<Rightarrow> gen_state" where
  "answer env i turns intensity raw s = (case analyze (ge_analyzer env) turns ''A1'' (Some intensity) raw of
      Inl e \<Rightarrow> finish i (Inl e) s | Inr res \<Rightarrow> set_phase i (Answered res) s)"

text \<open>The write over the lookup in \<open>d0\<close>. When a sibling worker committed the row since, the commit meets it.\<close>

definition commit_core :: "gen_env \<Rightarrow> instant \<Rightarrow> int \<Rightarrow> user \<Rightarrow> debrief_result option \<Rightarrow> db \<Rightarrow> db \<Rightarrow> (error + debrief_row) \<times> db" where
  "commit_core env now sid u content d0 d =
     (let lost = (find_debrief sid d0 = None \<and> find_debrief sid d \<noteq> None);
          raced = (if lost then Some d else None);
          base = (if lost then d0 else d)
      in case content of
          None \<Rightarrow> (case save_debrief raced sid (u_cefr_level u) EMPTY_SUMMARY [] (tx_begin base) of (r, t) \<Rightarrow> (r, committed t))
        | Some res \<Rightarrow> generate_finish (ge_read_id env) raced sid (u_id u) (ge_order env) now res base)"

text \<open>A failure commits nothing.\<close>

definition commit_debrief :: "gen_env \<Rightarrow> instant \<Rightarrow> nat \<Rightarrow> debrief_result option \<Rightarrow> db \<Rightarrow> gen_state \<Rightarrow> gen_state" where
  "commit_debrief env now i content d0 s =
     (let sid = gt_sid (task s i); d = gs_db s
      in case commit_core env now sid (gt_user (task s i)) content d0 d of
          (Inl e, _) \<Rightarrow> finish i (Inl e) s
        | (Inr row, d') \<Rightarrow> (finish i (Inr row) s)\<lparr>gs_db := d',
            gs_written := (if find_debrief sid d0 = None \<and> find_debrief sid d \<noteq> None then gs_written s else gs_written s @ [sid])\<rparr>)"

section \<open>Interleavings\<close>

definition open_request :: "gen_state \<Rightarrow> nat \<Rightarrow> bool" where
  "open_request s i \<longleftrightarrow> i < length (gs_tasks s) \<and> \<not> is_finished (phase s i)"

text \<open>What serves a request: it reads when it holds the lock, the model answers, it takes a connection, it commits.\<close>

inductive serve_step :: "gen_env \<Rightarrow> gen_state \<Rightarrow> gen_state \<Rightarrow> bool" for env where
  read: "i < length (gs_tasks s) \<Longrightarrow> phase s i = Queued \<Longrightarrow> gs_locks s (lock_key (task s i)) = Some (i # q)
    \<Longrightarrow> serve_step env s (read_locked i s)"
| answered: "i < length (gs_tasks s) \<Longrightarrow> phase s i = Analysing turns intensity \<Longrightarrow> serve_step env s (answer env i turns intensity raw s)"
| reload: "i < length (gs_tasks s) \<Longrightarrow> phase s i = Answered res \<Longrightarrow> connections (gt_worker (task s i)) s < ge_capacity env
    \<Longrightarrow> serve_step env s (set_phase i (Writing (Some res) (gs_db s)) s)"
| commit: "i < length (gs_tasks s) \<Longrightarrow> phase s i = Writing content d0 \<Longrightarrow> serve_step env s (commit_debrief env now i content d0 s)"

text \<open>Requests arrive, the pool's timeout or the server ends them, and other requests change other tables.\<close>

inductive gen_step :: "gen_env \<Rightarrow> gen_state \<Rightarrow> gen_state \<Rightarrow> bool" for env where
  arrive: "connections w s < ge_capacity env \<Longrightarrow> gen_step env s (generate_debrief w sid u limited s)"
| serve: "serve_step env s s' \<Longrightarrow> gen_step env s s'"
| pool_timeout: "i < length (gs_tasks s) \<Longrightarrow> phase s i = Answered res \<Longrightarrow> ge_capacity env \<le> connections (gt_worker (task s i)) s
    \<Longrightarrow> gen_step env s (finish i (Inl (OtherErr ''TimeoutError'')) s)"
| cancel: "open_request s i \<Longrightarrow> gen_step env s (finish i (Inl (OtherErr ''CancelledError'')) s)"
| others: "debriefs d = debriefs (gs_db s) \<Longrightarrow> gen_step env s (s\<lparr>gs_db := d\<rparr>)"

inductive_cases serve_stepE: "serve_step env s s'"
inductive_cases gen_stepE: "gen_step env s s'"

section \<open>Mutual exclusion\<close>

text \<open>Past the lock: the requests the lock keeps apart.\<close>

fun past_lock :: "gen_phase \<Rightarrow> bool" where
  "past_lock Queued = False"
| "past_lock (Analysing _ _) = True"
| "past_lock (Answered _) = True"
| "past_lock (Writing _ _) = True"
| "past_lock (Finished _) = False"

lemma past_lock_open [dest]: "past_lock p \<Longrightarrow> \<not> is_finished p"
  by (cases p) simp_all

lemma holds_connection_open [dest]: "holds_connection p \<Longrightarrow> \<not> is_finished p"
  by (cases p) simp_all

definition queue :: "gen_state \<Rightarrow> nat \<times> int \<Rightarrow> nat list" where
  "queue s k = (case gs_locks s k of None \<Rightarrow> [] | Some q \<Rightarrow> q)"

definition lock_inv :: "gen_state \<Rightarrow> bool" where
  "lock_inv s \<longleftrightarrow> (\<forall>k. distinct (queue s k) \<and> set (queue s k) = {i. open_request s i \<and> lock_key (task s i) = k}
     \<and> (\<forall>i. i < length (gs_tasks s) \<and> past_lock (phase s i) \<and> lock_key (task s i) = k \<longrightarrow> (\<exists>q. queue s k = i # q)))"

lemma lock_invD:
  assumes "lock_inv s"
  shows "distinct (queue s k)" "i \<in> set (queue s k) \<longleftrightarrow> open_request s i \<and> lock_key (task s i) = k"
    "i < length (gs_tasks s) \<Longrightarrow> past_lock (phase s i) \<Longrightarrow> lock_key (task s i) = k \<Longrightarrow> \<exists>q. queue s k = i # q"
  using assms [unfolded lock_inv_def, THEN spec, of k] by auto

lemma lock_invI:
  assumes "\<And>k. distinct (queue s k)" "\<And>i k. i \<in> set (queue s k) \<longleftrightarrow> open_request s i \<and> lock_key (task s i) = k"
    "\<And>i k. i < length (gs_tasks s) \<Longrightarrow> past_lock (phase s i) \<Longrightarrow> lock_key (task s i) = k \<Longrightarrow> \<exists>q. queue s k = i # q"
  shows "lock_inv s"
  unfolding lock_inv_def using assms by blast

lemma set_phase_sel [simp]:
  "length (gs_tasks (set_phase i p s)) = length (gs_tasks s)" "gs_locks (set_phase i p s) = gs_locks s"
  "gs_db (set_phase i p s) = gs_db s" "gs_written (set_phase i p s) = gs_written s"
  "queue (set_phase i p s) k = queue s k"
  by (simp_all add: set_phase_def queue_def)

lemma task_set_phase:
  "i < length (gs_tasks s) \<Longrightarrow> gs_tasks (set_phase i p s) ! j = (if j = i then (task s i)\<lparr>gt_phase := p\<rparr> else task s j)"
  by (simp add: set_phase_def)

lemma lock_key_phase [simp]: "lock_key (t\<lparr>gt_phase := p\<rparr>) = lock_key t"
  by (simp add: lock_key_def)

lemma finish_sel [simp]:
  "gs_tasks (finish i r s) = gs_tasks (set_phase i (Finished r) s)" "gs_db (finish i r s) = gs_db s" "gs_written (finish i r s) = gs_written s"
  by (simp_all add: finish_def Let_def)

lemma queue_finish:
  "queue (finish i r s) k = (if k = lock_key (task s i) then remove1 i (queue s k) else queue s k)"
  by (simp add: finish_def queue_def Let_def split: option.split)

lemma open_set_phase:
  "i < length (gs_tasks s) \<Longrightarrow> open_request (set_phase i p s) j = (if j = i then \<not> is_finished p else open_request s j)"
  by (simp add: open_request_def task_set_phase)

lemma open_finish:
  "i < length (gs_tasks s) \<Longrightarrow> open_request (finish i r s) j = (j \<noteq> i \<and> open_request s j)"
  by (simp add: open_request_def task_set_phase)

lemma lock_inv_cong:
  "gs_tasks s' = gs_tasks s \<Longrightarrow> gs_locks s' = gs_locks s \<Longrightarrow> lock_inv s' = lock_inv s"
  by (simp add: lock_inv_def queue_def open_request_def)

lemma lock_inv_set_phase:
  assumes "lock_inv s" "open_request s i" "queue s (lock_key (task s i)) = i # q" "\<not> is_finished p"
  shows "lock_inv (set_phase i p s)"
proof -
  have len: "i < length (gs_tasks s)" using assms(2) by (simp add: open_request_def)
  have "\<exists>q'. queue s (lock_key (gs_tasks (set_phase i p s) ! j)) = j # q'"
    if "j < length (gs_tasks s)" and "past_lock (gt_phase (gs_tasks (set_phase i p s) ! j))" for j
    using that assms(1, 3) len lock_invD(3) [OF assms(1)] by (cases "j = i") (auto simp: task_set_phase)
  then show ?thesis
    using assms len by (auto simp: lock_inv_def open_set_phase task_set_phase)
qed

lemma lock_inv_finish:
  assumes "lock_inv s" "open_request s i"
  shows "lock_inv (finish i r s)"
proof -
  let ?k = "lock_key (task s i)"
  have len: "i < length (gs_tasks s)" using assms(2) by (simp add: open_request_def)
  have "\<exists>q. queue (finish i r s) k = j # q"
    if j: "j < length (gs_tasks s)" "past_lock (gt_phase (gs_tasks (finish i r s) ! j))" "lock_key (gs_tasks (finish i r s) ! j) = k" for j k
  proof -
    have "j \<noteq> i" using j(2) len by (auto simp: task_set_phase split: if_split_asm)
    then obtain q where "queue s k = j # q" using lock_invD(3) [OF assms(1) j(1)] j(2, 3) len by (auto simp: task_set_phase)
    then show ?thesis using \<open>j \<noteq> i\<close> by (auto simp: queue_finish)
  qed
  moreover have "distinct (queue (finish i r s) k)" "j \<in> set (queue (finish i r s) k)
      \<longleftrightarrow> open_request (finish i r s) j \<and> lock_key (gs_tasks (finish i r s) ! j) = k" for j k
    using lock_invD(1, 2) [OF assms(1), where k = k] len by (auto simp: queue_finish open_finish task_set_phase)
  ultimately show ?thesis by (intro lock_invI) simp_all
qed

lemma add_task_sel [simp]:
  "gs_tasks (add_task w sid u p s) = gs_tasks s @ [\<lparr>gt_worker = w, gt_sid = sid, gt_user = u, gt_phase = p\<rparr>]"
  "gs_locks (add_task w sid u p s) = gs_locks s" "gs_db (add_task w sid u p s) = gs_db s" "gs_written (add_task w sid u p s) = gs_written s"
  by (simp_all add: add_task_def)

lemma generate_debrief_cases:
  obtains (refused) e where "generate_debrief w sid u limited s = add_task w sid u (Finished (Inl e)) s"
  | (queued) "gs_tasks (generate_debrief w sid u limited s) = gs_tasks (add_task w sid u Queued s)"
      "gs_db (generate_debrief w sid u limited s) = gs_db s" "gs_written (generate_debrief w sid u limited s) = gs_written s"
      "\<And>k. queue (generate_debrief w sid u limited s) k = (if k = (w, sid) then queue s k @ [length (gs_tasks s)] else queue s k)"
proof (cases "case limited of Some e \<Rightarrow> Inl e | None \<Rightarrow> get_owned_session sid (u_id u) (gs_db s)")
  case (Inl e)
  then show ?thesis using refused by (simp add: generate_debrief_def)
next
  case (Inr c)
  then show ?thesis
    by (intro queued) (simp_all add: generate_debrief_def generation_lock_def queue_def Let_def split: option.split)
qed

lemma lock_inv_append:
  assumes "lock_inv s" "gs_tasks s' = gs_tasks s @ [t]" "past_lock (gt_phase t) = False"
    "\<And>k. queue s' k = (if k = lock_key t \<and> \<not> is_finished (gt_phase t) then queue s k @ [length (gs_tasks s)] else queue s k)"
  shows "lock_inv s'"
proof -
  have old: "i < length (gs_tasks s) \<Longrightarrow> open_request s' i = open_request s i" for i
    by (simp add: open_request_def assms(2) nth_append)
  have new: "open_request s' (length (gs_tasks s)) = (\<not> is_finished (gt_phase t))" "\<not> open_request s (length (gs_tasks s))"
    by (simp_all add: open_request_def assms(2))
  have bound: "open_request s' i \<Longrightarrow> i \<le> length (gs_tasks s)" "open_request s i \<Longrightarrow> i < length (gs_tasks s)" for i
    by (simp_all add: open_request_def assms(2))
  have "i \<in> set (queue s' k) \<longleftrightarrow> open_request s' i \<and> lock_key (task s' i) = k" for i k
    using lock_invD(2) [OF assms(1), of i k] bound [of i] old [of i] new
    by (cases "i = length (gs_tasks s)") (auto simp: assms(2, 4) nth_append)
  moreover have "distinct (queue s' k)" for k
    using lock_invD(1, 2) [OF assms(1), where k = k] new(2) by (auto simp: assms(4))
  moreover have "\<exists>q. queue s' k = i # q"
    if "i < length (gs_tasks s')" "past_lock (phase s' i)" "lock_key (task s' i) = k" for i k
    using that assms(3) lock_invD(3) [OF assms(1), of i k]
    by (cases "i = length (gs_tasks s)") (auto simp: assms(2, 4) nth_append)
  ultimately show ?thesis by (intro lock_invI) simp_all
qed

lemma lock_inv_arrive: "lock_inv s \<Longrightarrow> lock_inv (generate_debrief w sid u limited s)"
  by (rule generate_debrief_cases [of w sid u limited s]; rule lock_inv_append [of s])
    (auto simp: lock_key_def queue_def)

lemma lock_inv_commit:
  assumes "lock_inv s" "open_request s i"
  shows "lock_inv (commit_debrief env now i content d0 s)"
  using lock_inv_finish [OF assms]
  by (auto simp: commit_debrief_def Let_def lock_inv_def queue_def open_request_def split: prod.split sum.split)

lemma head_of_queue:
  assumes "lock_inv s" "i < length (gs_tasks s)" "past_lock (phase s i)"
  shows "open_request s i" "\<exists>q. queue s (lock_key (task s i)) = i # q"
  using assms lock_invD(3) [OF assms(1)] by (auto simp: open_request_def)

lemma lock_inv_serve:
  assumes "serve_step env s s'" "lock_inv s"
  shows "lock_inv s'"
  using assms(1)
proof (rule serve_stepE)
  fix i q assume "i < length (gs_tasks s)" "phase s i = Queued" "gs_locks s (lock_key (task s i)) = Some (i # q)" "s' = read_locked i s"
  then show ?thesis using assms(2)
    by (auto simp: read_locked_def queue_def open_request_def intro!: lock_inv_finish lock_inv_set_phase split: debrief_plan.split)
next
  fix i turns intensity raw assume i: "i < length (gs_tasks s)" "phase s i = Analysing turns intensity" "s' = answer env i turns intensity raw s"
  then show ?thesis using assms(2) head_of_queue [OF assms(2) i(1)]
    by (auto simp: answer_def intro!: lock_inv_finish lock_inv_set_phase split: sum.split)
next
  fix i res assume i: "i < length (gs_tasks s)" "phase s i = Answered res" "s' = set_phase i (Writing (Some res) (gs_db s)) s"
  then show ?thesis using assms(2) head_of_queue [OF assms(2) i(1)] by (auto intro!: lock_inv_set_phase)
next
  fix i content d0 now assume i: "i < length (gs_tasks s)" "phase s i = Writing content d0" "s' = commit_debrief env now i content d0 s"
  then show ?thesis using assms(2) head_of_queue [OF assms(2) i(1)] by (simp add: lock_inv_commit)
qed

lemma lock_inv_step:
  assumes "gen_step env s s'" "lock_inv s"
  shows "lock_inv s'"
  using assms(1)
proof (cases rule: gen_step.cases)
  case (pool_timeout i res)
  then show ?thesis using assms(2) head_of_queue [OF assms(2), of i] by (simp add: lock_inv_finish)
next
  case (arrive w sid u limited)
  then show ?thesis using assms(2) by (simp add: lock_inv_arrive)
next
  case serve
  then show ?thesis using assms(2) by (simp add: lock_inv_serve)
next
  case (cancel i)
  then show ?thesis using assms(2) by (simp add: lock_inv_finish)
next
  case (others d)
  then show ?thesis using assms(2) lock_inv_cong [of s' s] by simp
qed

lemma lock_inv_init: "lock_inv (gen_init d)"
  by (rule lock_invI) (simp_all add: gen_init_def queue_def open_request_def)

lemma lock_inv_reach: "(gen_step env)\<^sup>*\<^sup>* (gen_init d) s \<Longrightarrow> lock_inv s"
  by (induction rule: rtranclp_induct) (auto intro: lock_inv_step lock_inv_init)

lemma past_lock_unique:
  assumes "lock_inv s" "i < length (gs_tasks s)" "j < length (gs_tasks s)" "past_lock (phase s i)" "past_lock (phase s j)"
    "lock_key (task s i) = lock_key (task s j)"
  shows "i = j"
proof -
  obtain q where q: "queue s (lock_key (task s i)) = i # q" using lock_invD(3) [OF assms(1, 2, 4) refl] by (elim exE)
  obtain q' where "queue s (lock_key (task s j)) = j # q'" using lock_invD(3) [OF assms(1, 3, 5) refl] by (elim exE)
  with q show ?thesis unfolding assms(6) by simp
qed

section \<open>One debrief for a session\<close>

lemma save_debrief_Inr:
  assumes "save_debrief raced sid cefr summary errors (tx_begin b) = (Inr row, t)"
  shows "raced = None \<Longrightarrow> find_debrief sid (committed t) = Some row \<and> (\<forall>s. s \<noteq> sid \<longrightarrow> find_debrief s (committed t) = find_debrief s b)"
    "raced = Some c \<Longrightarrow> find_debrief sid b = None \<Longrightarrow> committed t = c \<and> find_debrief sid c = Some row"
proof -
  let ?r = "\<lparr>db_session_id = sid, db_cefr_estimate = cefr, db_summary = summary, db_errors = errors\<rparr>"
  have stored: "debrief_storable ?r"
    using assms by (auto simp: save_debrief_def Let_def split: if_split_asm)
  show "raced = None \<Longrightarrow> find_debrief sid (committed t) = Some row \<and> (\<forall>s. s \<noteq> sid \<longrightarrow> find_debrief s (committed t) = find_debrief s b)"
    using assms stored
    by (auto simp: save_debrief_def Let_def find_put_debrief tx_begin_def tx_modify_def tx_commit_def split: if_split_asm)
  show "raced = Some c \<Longrightarrow> find_debrief sid b = None \<Longrightarrow> committed t = c \<and> find_debrief sid c = Some row"
    using assms stored by (cases "find_debrief sid c") (auto simp: save_debrief_def Let_def tx_begin_def)
qed

lemma find_debrief_core: "core_of d' = core_of d \<Longrightarrow> find_debrief s d' = find_debrief s d"
  by (simp add: core_of_def find_debrief_def)

lemma find_debrief_stage_core [simp]: "find_debrief s (stage_core uid res d) = find_debrief s d"
  by (simp add: find_debrief_def)

lemma generate_finish_Inr:
  assumes "generate_finish rd raced sid uid order now res b = (Inr row, d')"
  shows "raced = None \<Longrightarrow> find_debrief sid d' = Some row \<and> (\<forall>s. s \<noteq> sid \<longrightarrow> find_debrief s d' = find_debrief s b)"
    "raced = Some c \<Longrightarrow> find_debrief sid b = None \<Longrightarrow> (\<forall>s. find_debrief s d' = find_debrief s c) \<and> find_debrief sid c = Some row"
proof -
  obtain r1 t where run: "persist_core raced sid uid res (tx_begin b) = (r1, t)" by (cases "persist_core raced sid uid res (tx_begin b)")
  show "raced = None \<Longrightarrow> find_debrief sid d' = Some row \<and> (\<forall>s. s \<noteq> sid \<longrightarrow> find_debrief s d' = find_debrief s b)"
    using run
    by (cases rule: persist_core_cases)
      (use assms run in \<open>auto simp: generate_finish_def find_debrief_core [OF enrichment_keeps_core] find_put_debrief row_for_def\<close>)
  show "raced = Some c \<Longrightarrow> find_debrief sid b = None \<Longrightarrow> (\<forall>s. find_debrief s d' = find_debrief s c) \<and> find_debrief sid c = Some row"
    using run
    by (cases rule: persist_core_cases)
      (use assms run in \<open>auto simp: generate_finish_def find_debrief_core [OF enrichment_keeps_core] split: sum.splits\<close>)
qed

lemma commit_core_Inr:
  assumes "commit_core env now sid u content d0 d = (Inr row, d')"
  shows "find_debrief sid d' = Some row \<and> (\<forall>s. s \<noteq> sid \<longrightarrow> find_debrief s d' = find_debrief s d)"
proof (cases "find_debrief sid d0 = None \<and> find_debrief sid d \<noteq> None")
  case True
  then show ?thesis using assms
    by (cases content) (auto simp: commit_core_def Let_def split: prod.splits dest: save_debrief_Inr(2) generate_finish_Inr(2))
next
  case False
  have "commit_core env now sid u content d0 d = (case content of
      None \<Rightarrow> (case save_debrief None sid (u_cefr_level u) EMPTY_SUMMARY [] (tx_begin d) of (r, t) \<Rightarrow> (r, committed t))
    | Some res \<Rightarrow> generate_finish (ge_read_id env) None sid (u_id u) (ge_order env) now res d)"
    by (simp only: commit_core_def Let_def if_not_P [OF False])
  then show ?thesis using assms
    by (cases content) (auto split: prod.splits dest: save_debrief_Inr(1) generate_finish_Inr(1))
qed

text \<open>What holds of one session while all its requests go to one worker.\<close>

definition row_inv :: "int \<Rightarrow> gen_state \<Rightarrow> bool" where
  "row_inv sid s \<longleftrightarrow>
     (\<forall>i < length (gs_tasks s). gt_sid (task s i) = sid \<longrightarrow>
        (past_lock (phase s i) \<longrightarrow> find_debrief sid (gs_db s) = None)
      \<and> (\<forall>content d0. phase s i = Writing content d0 \<longrightarrow> find_debrief sid d0 = None)
      \<and> (\<forall>r. phase s i = Finished (Inr r) \<longrightarrow> find_debrief sid (gs_db s) = Some r))
   \<and> count_list (gs_written s) sid \<le> (if find_debrief sid (gs_db s) = None then 0 else 1)"

definition on_worker :: "nat \<Rightarrow> int \<Rightarrow> gen_state \<Rightarrow> bool" where
  "on_worker w sid s \<longleftrightarrow> (\<forall>t \<in> set (gs_tasks s). gt_sid t = sid \<longrightarrow> gt_worker t = w)"

lemma row_invD:
  assumes "row_inv sid s" "i < length (gs_tasks s)" "gt_sid (task s i) = sid"
  shows "past_lock (phase s i) \<Longrightarrow> find_debrief sid (gs_db s) = None"
    "phase s i = Writing content d0 \<Longrightarrow> find_debrief sid d0 = None"
    "phase s i = Finished (Inr r) \<Longrightarrow> find_debrief sid (gs_db s) = Some r"
  using assms by (auto simp: row_inv_def)

lemma row_inv_phase:
  assumes "row_inv sid s" "i < length (gs_tasks s)"
    "gs_tasks s' = gs_tasks (set_phase i p s)" "gs_db s' = gs_db s" "gs_written s' = gs_written s"
    "gt_sid (task s i) = sid \<Longrightarrow> (past_lock p \<longrightarrow> find_debrief sid (gs_db s) = None)
      \<and> (\<forall>content d0. p = Writing content d0 \<longrightarrow> find_debrief sid d0 = None)
      \<and> (\<forall>r. p = Finished (Inr r) \<longrightarrow> find_debrief sid (gs_db s) = Some r)"
  shows "row_inv sid s'"
  using assms(1, 2, 6) by (auto simp: row_inv_def assms(3-5) task_set_phase)

lemma row_inv_arrive: "row_inv sid s \<Longrightarrow> row_inv sid (generate_debrief w j u limited s)"
  by (rule generate_debrief_cases [of w j u limited s]) (auto simp: row_inv_def nth_append)

lemma row_inv_read:
  assumes "row_inv sid s" "i < length (gs_tasks s)"
  shows "row_inv sid (read_locked i s)"
  using assms
  by (auto simp: read_locked_def locked_plan_def split: option.split if_split
      intro!: row_inv_phase [of sid s i])

lemma row_inv_commit:
  assumes "row_inv sid s" "lock_inv s" "on_worker w sid s" "i < length (gs_tasks s)" "phase s i = Writing content d0"
  shows "row_inv sid (commit_debrief env now i content d0 s)"
proof (cases "commit_core env now (gt_sid (task s i)) (gt_user (task s i)) content d0 (gs_db s)")
  case (Pair r d')
  show ?thesis
  proof (cases r)
    case (Inl e)
    then show ?thesis using Pair assms by (simp add: commit_debrief_def Let_def row_inv_phase [of sid s i, where p = "Finished (Inl e)"])
  next
    case (Inr row)
    note written = commit_core_Inr [OF Pair [unfolded Inr]]
    show ?thesis
    proof (cases "gt_sid (task s i) = sid")
      case False
      then show ?thesis using assms(1, 4) written Pair Inr
        by (auto simp: commit_debrief_def Let_def row_inv_def task_set_phase split: if_split_asm)
    next
      case True
      have none: "find_debrief sid (gs_db s) = None" "find_debrief sid d0 = None"
        using row_invD [OF assms(1, 4) True] assms(5) by auto
      have "count_list (gs_written s) sid = 0" using assms(1) none by (simp add: row_inv_def)
      moreover have "\<not> past_lock (phase s j) \<and> (\<forall>r. phase s j \<noteq> Finished (Inr r))"
        if "j < length (gs_tasks s)" "gt_sid (task s j) = sid" "j \<noteq> i" for j
      proof -
        have "lock_key (task s j) = lock_key (task s i)"
          using assms(3, 4) that(1, 2) True by (simp add: on_worker_def lock_key_def)
        then show ?thesis
          using past_lock_unique [OF assms(2, 4) that(1)] that(3) assms(5) row_invD(3) [OF assms(1) that(1, 2)] none by auto
      qed
      ultimately show ?thesis using assms(4) written Pair Inr True none
        by (auto simp: commit_debrief_def Let_def row_inv_def task_set_phase split: if_split_asm) (metis past_lock.simps(4))+
    qed
  qed
qed

lemma row_inv_serve:
  assumes "serve_step env s s'" "row_inv sid s" "lock_inv s" "on_worker w sid s"
  shows "row_inv sid s'"
  using assms(1)
proof (rule serve_stepE)
  fix i turns intensity raw assume i: "i < length (gs_tasks s)" "phase s i = Analysing turns intensity" "s' = answer env i turns intensity raw s"
  then show ?thesis using assms(2) row_invD(1) [OF assms(2) i(1)]
    by (auto simp: answer_def intro!: row_inv_phase [of sid s i] split: sum.split)
next
  fix i res assume i: "i < length (gs_tasks s)" "phase s i = Answered res" "s' = set_phase i (Writing (Some res) (gs_db s)) s"
  then show ?thesis using assms(2) row_invD(1) [OF assms(2) i(1)] by (auto intro!: row_inv_phase [of sid s i])
qed (use assms in \<open>auto intro: row_inv_read row_inv_commit\<close>)

lemma row_inv_step:
  assumes "gen_step env s s'" "row_inv sid s" "lock_inv s" "on_worker w sid s"
  shows "row_inv sid s'"
  using assms(1)
proof (cases rule: gen_step.cases)
  case (others d)
  then show ?thesis using assms(2) by (auto simp: row_inv_def find_debrief_def)
next
  case (cancel i)
  then show ?thesis using assms(2) by (auto simp: open_request_def intro!: row_inv_phase [of sid s i])
next
  case (pool_timeout i res)
  then show ?thesis using assms(2) by (auto intro!: row_inv_phase [of sid s i])
next
  case (arrive w' sid' u limited)
  then show ?thesis using assms(2) by (simp add: row_inv_arrive)
next
  case serve
  then show ?thesis using assms(2-4) by (simp add: row_inv_serve)
qed

fun phases_left :: "gen_phase \<Rightarrow> nat" where
  "phases_left Queued = 4"
| "phases_left (Analysing _ _) = 3"
| "phases_left (Answered _) = 2"
| "phases_left (Writing _ _) = 1"
| "phases_left (Finished _) = 0"

text \<open>Every step of the service moves one request on.\<close>

lemma serve_step_shape:
  assumes "serve_step env s s'"
  obtains i p where "i < length (gs_tasks s)" "open_request s i" "gs_tasks s' = gs_tasks (set_phase i p s)"
    "phases_left p < phases_left (phase s i)"
  using assms
proof (rule serve_stepE)
  fix i q assume "i < length (gs_tasks s)" "phase s i = Queued" "s' = read_locked i s"
  then show ?thesis using that [of i]
    by (cases "locked_plan (gt_sid (task s i)) (u_id (gt_user (task s i))) (gs_db s)") (simp_all add: read_locked_def open_request_def)
next
  fix i turns intensity raw assume "i < length (gs_tasks s)" "phase s i = Analysing turns intensity" "s' = answer env i turns intensity raw s"
  then show ?thesis using that [of i]
    by (cases "analyze (ge_analyzer env) turns ''A1'' (Some intensity) raw") (simp_all add: answer_def open_request_def)
next
  fix i res assume "i < length (gs_tasks s)" "phase s i = Answered res" "s' = set_phase i (Writing (Some res) (gs_db s)) s"
  then show ?thesis using that [of i "Writing (Some res) (gs_db s)"] by (simp add: open_request_def)
next
  fix i content d0 now assume i: "i < length (gs_tasks s)" "phase s i = Writing content d0" "s' = commit_debrief env now i content d0 s"
  let ?c = "commit_core env now (gt_sid (task s i)) (gt_user (task s i)) content d0 (gs_db s)"
  have "gs_tasks s' = gs_tasks (set_phase i (Finished (fst ?c)) s)"
    unfolding i(3) commit_debrief_def Let_def by (cases ?c; cases "fst ?c") simp_all
  then show ?thesis using that [of i "Finished (fst ?c)"] i(1, 2) by (simp add: open_request_def)
qed

lemma step_keeps_tasks:
  assumes "gen_step env s s'" "i < length (gs_tasks s)"
  shows "i < length (gs_tasks s') \<and> gt_sid (task s' i) = gt_sid (task s i) \<and> gt_worker (task s' i) = gt_worker (task s i)"
proof -
  have phases: "i < length (gs_tasks (set_phase j p s)) \<and> gt_sid (task (set_phase j p s) i) = gt_sid (task s i)
      \<and> gt_worker (task (set_phase j p s) i) = gt_worker (task s i)" for j p
    using assms(2) by (cases "j = i") (simp_all add: set_phase_def)
  show ?thesis using assms(1)
  proof (cases rule: gen_step.cases)
    case (arrive w sid u limited)
    show ?thesis using assms(2) unfolding arrive(1)
      by (cases rule: generate_debrief_cases [of w sid u limited s]) (simp_all add: nth_append)
  next
    case serve
    then show ?thesis using phases by (elim serve_step_shape) simp
  qed (use phases assms(2) in auto)
qed

lemma on_worker_before:
  assumes "gen_step env s s'" "on_worker w sid s'"
  shows "on_worker w sid s"
proof -
  have "gt_worker t = w" if t: "t \<in> set (gs_tasks s)" "gt_sid t = sid" for t
  proof -
    obtain i where i: "i < length (gs_tasks s)" "t = task s i" using t(1) by (auto simp: in_set_conv_nth)
    then show ?thesis using step_keeps_tasks [OF assms(1) i(1)] assms(2) t(2) by (metis nth_mem on_worker_def)
  qed
  then show ?thesis by (simp add: on_worker_def)
qed

lemma row_inv_reach:
  assumes "(gen_step env)\<^sup>*\<^sup>* (gen_init d) s" "on_worker w sid s"
  shows "row_inv sid s"
  using assms
proof (induction rule: rtranclp_induct)
  case base
  then show ?case by (simp add: row_inv_def gen_init_def)
next
  case (step s s')
  then show ?case using on_worker_before row_inv_step lock_inv_reach by meson
qed

text \<open>C14: A double tap on the debrief costs one analysis. In every interleaving of requests, of the model's answers, of
  lost connections and cancellations, two requests of one worker for one session are never both past the lock. And as long as
  the requests for a session go to one worker, its core is written at most once, every request that succeeds returns the row that
  is stored, and once the row is there no request for it asks the model again.\<close>

theorem one_debrief_per_session:
  assumes "(gen_step env)\<^sup>*\<^sup>* (gen_init d) s" "on_worker w sid s"
  shows "(\<forall>i < length (gs_tasks s). \<forall>j < length (gs_tasks s). past_lock (phase s i) \<and> past_lock (phase s j)
        \<and> lock_key (task s i) = lock_key (task s j) \<longrightarrow> i = j)
    \<and> count_list (gs_written s) sid \<le> 1
    \<and> (\<forall>i < length (gs_tasks s). gt_sid (task s i) = sid \<longrightarrow>
        (\<forall>r. phase s i = Finished (Inr r) \<longrightarrow> find_debrief sid (gs_db s) = Some r)
      \<and> (\<forall>turns intensity. phase s i = Analysing turns intensity \<longrightarrow> find_debrief sid (gs_db s) = None))"
proof (intro conjI allI impI)
  note row = row_inv_reach [OF assms]
  show "i = j" if "i < length (gs_tasks s)" "j < length (gs_tasks s)"
    "past_lock (phase s i) \<and> past_lock (phase s j) \<and> lock_key (task s i) = lock_key (task s j)" for i j
    using that past_lock_unique [OF lock_inv_reach [OF assms(1)]] by blast
  show "count_list (gs_written s) sid \<le> 1" using row by (simp add: row_inv_def split: if_split_asm)
  fix i assume i: "i < length (gs_tasks s)" "gt_sid (task s i) = sid"
  show "find_debrief sid (gs_db s) = Some r" if "phase s i = Finished (Inr r)" for r
    by (rule row_invD(3) [OF row i that])
  show "find_debrief sid (gs_db s) = None" if "phase s i = Analysing turns intensity" for turns intensity
    using row_invD(1) [OF row i] that by simp
qed

section \<open>Progress and the pool\<close>

definition work_left :: "gen_state \<Rightarrow> nat" where
  "work_left s = sum_list (map (\<lambda>t. phases_left (gt_phase t)) (gs_tasks s))"

definition open_on :: "nat \<Rightarrow> gen_state \<Rightarrow> nat" where
  "open_on w s = length (filter (\<lambda>t. gt_worker t = w \<and> \<not> is_finished (gt_phase t)) (gs_tasks s))"

lemma sum_list_update_less:
  assumes "i < length xs" "f y < f (xs ! i)"
  shows "sum_list (map f (xs[i := y])) < (sum_list (map f xs) :: nat)"
  using assms by (induction xs arbitrary: i) (auto split: nat.split)

lemma length_filter_imp:
  "(\<And>x. P x \<Longrightarrow> Q x) \<Longrightarrow> length (filter P xs) \<le> length (filter Q xs)"
  by (induction xs) auto

lemma length_filter_strict:
  "x \<in> set xs \<Longrightarrow> Q x \<Longrightarrow> \<not> P x \<Longrightarrow> (\<And>x. P x \<Longrightarrow> Q x) \<Longrightarrow> length (filter P xs) < length (filter Q xs)"
  using length_filter_imp [of P Q] by (induction xs) (auto simp: less_Suc_eq_le)

lemma length_filter_update:
  "i < length xs \<Longrightarrow> (P y \<Longrightarrow> P (xs ! i)) \<Longrightarrow> length (filter P (xs[i := y])) \<le> length (filter P xs)"
  by (induction xs arbitrary: i) (auto split: nat.split simp: le_SucI)

lemma serve_less_work: "serve_step env s s' \<Longrightarrow> work_left s' < work_left s"
  by (elim serve_step_shape) (simp add: work_left_def set_phase_def sum_list_update_less)

lemma serve_open_on: "serve_step env s s' \<Longrightarrow> open_on w s' \<le> open_on w s \<and> length (gs_tasks s') = length (gs_tasks s)"
  by (elim serve_step_shape) (auto simp: open_on_def set_phase_def open_request_def intro!: length_filter_update)

lemma phases_left_le: "phases_left p \<le> 4"
  by (cases p) simp_all

lemma work_left_le: "work_left s \<le> 4 * length (gs_tasks s)"
proof -
  have "sum_list (map (\<lambda>t. phases_left (gt_phase t)) ts) \<le> 4 * length ts" for ts
    using phases_left_le by (induction ts) (auto intro: add_mono)
  then show ?thesis by (simp add: work_left_def)
qed

text \<open>A request that waits for a connection finds one while its worker has no more open requests than connections.\<close>

lemma connections_less_open:
  assumes "open_request s i" "\<not> holds_connection (phase s i)"
  shows "connections (gt_worker (task s i)) s < open_on (gt_worker (task s i)) s"
  unfolding connections_def open_on_def
proof (rule length_filter_strict [of "task s i"])
  show "task s i \<in> set (gs_tasks s)" using assms(1) by (simp add: open_request_def)
qed (use assms in \<open>auto simp: open_request_def\<close>)

lemma some_request_served:
  assumes "lock_inv s" "\<forall>w. open_on w s \<le> ge_capacity env" "open_request s i"
  shows "\<exists>s'. serve_step env s s'"
proof -
  let ?k = "lock_key (task s i)"
  have "i \<in> set (queue s ?k)" using lock_invD(2) [OF assms(1)] assms(3) by simp
  then obtain j q where q: "queue s ?k = j # q" by (cases "queue s ?k") auto
  then have j: "open_request s j" "lock_key (task s j) = ?k" using lock_invD(2) [OF assms(1), of j ?k] by auto
  have len: "j < length (gs_tasks s)" using j(1) by (simp add: open_request_def)
  have "gs_locks s (lock_key (task s j)) = Some (j # q)" using q j(2) by (simp add: queue_def split: option.splits)
  moreover have "connections (gt_worker (task s j)) s < ge_capacity env" if "\<not> holds_connection (phase s j)"
    using connections_less_open [OF j(1) that] assms(2) by (meson less_le_trans)
  ultimately show ?thesis
    using len j(1) by (cases "phase s j") (auto simp: open_request_def intro: serve_step.intros)
qed

text \<open>C15: Every debrief request is served while the pool is large enough. From a reachable state in which no worker has more open
  requests than connections, the requests that are there are served in at most four steps each, whatever the model answers
  and however the steps are interleaved, and the service never stands still while one of them is open.\<close>

theorem requests_all_served:
  assumes "(gen_step env)\<^sup>*\<^sup>* (gen_init d) s" "\<forall>w. open_on w s \<le> ge_capacity env"
  shows "(serve_step env ^^ n) s s' \<Longrightarrow> n \<le> 4 * length (gs_tasks s) \<and> (open_request s' i \<longrightarrow> (\<exists>s''. serve_step env s' s''))"
proof -
  assume run: "(serve_step env ^^ n) s s'"
  have "n + work_left s' \<le> work_left s \<and> lock_inv s' \<and> (\<forall>w. open_on w s' \<le> ge_capacity env)"
    using run
  proof (induction n arbitrary: s')
    case 0
    then show ?case using assms lock_inv_reach by auto
  next
    case (Suc n)
    then obtain t where t: "(serve_step env ^^ n) s t" "serve_step env t s'" by auto
    have "open_on w s' \<le> ge_capacity env" for w
      using Suc.IH [OF t(1)] serve_open_on [OF t(2), of w] by (meson le_trans)
    then show ?case using Suc.IH [OF t(1)] serve_less_work [OF t(2)] lock_inv_serve [OF t(2)] by simp
  qed
  then show "n \<le> 4 * length (gs_tasks s) \<and> (open_request s' i \<longrightarrow> (\<exists>s''. serve_step env s' s''))"
    using work_left_le [of s] some_request_served [of s' env i] by auto
qed

text \<open>A learner taps twice on the debrief of a session, on one worker with two connections.\<close>

definition demo_gen_env :: gen_env where
  "demo_gen_env = \<lparr>ge_analyzer = demo_analyzer, ge_read_id = Inr, ge_order = (\<lambda>_. [''article'']), ge_capacity = 2\<rparr>"

definition demo_gen_db :: db where
  "demo_gen_db = demo_debrief_db\<lparr>transcripts := [\<lparr>tr_session_id = 7, tr_turns = demo_turns\<rparr>]\<rparr>"

definition tapped :: "gen_state \<Rightarrow> gen_state" where
  "tapped s = generate_debrief 0 7 (new_user 1 ''a'' ''h'' ''fr'') None s"

definition first_reads :: gen_state where
  "first_reads = read_locked 0 (tapped (gen_init demo_gen_db))"

definition first_answered :: gen_state where
  "first_answered = answer demo_gen_env 0 demo_turns ''gentle'' (Inr ''{}'') (tapped first_reads)"

definition first_writes :: gen_state where
  "first_writes = set_phase 0 (Writing (Some demo_result) (gs_db first_answered)) first_answered"

definition first_done :: gen_state where
  "first_done = commit_debrief demo_gen_env 5 0 (Some demo_result) (gs_db first_answered) first_writes"

definition both_done :: gen_state where
  "both_done = read_locked 1 first_done"

lemma tap_step: "connections 0 s < 2 \<Longrightarrow> gen_step demo_gen_env s (tapped s)"
  unfolding tapped_def by (rule gen_step.arrive) (simp add: demo_gen_env_def)

lemma first_reads_reached: "(gen_step demo_gen_env)\<^sup>*\<^sup>* (gen_init demo_gen_db) first_reads"
proof -
  have "gen_step demo_gen_env (gen_init demo_gen_db) (tapped (gen_init demo_gen_db))" by (rule tap_step) code_simp
  moreover have "serve_step demo_gen_env (tapped (gen_init demo_gen_db)) first_reads"
    unfolding first_reads_def by (rule serve_step.read [where q = "[]"]) code_simp+
  ultimately show ?thesis by (meson converse_rtranclp_into_rtranclp gen_step.serve r_into_rtranclp)
qed

lemma first_answered_reached: "(gen_step demo_gen_env)\<^sup>*\<^sup>* (gen_init demo_gen_db) first_answered"
proof -
  have "gen_step demo_gen_env first_reads (tapped first_reads)" by (rule tap_step) code_simp
  moreover have "serve_step demo_gen_env (tapped first_reads) first_answered"
    unfolding first_answered_def by (rule serve_step.answered) code_simp+
  ultimately show ?thesis
    using first_reads_reached by (meson rtranclp.rtrancl_into_rtrancl gen_step.serve)
qed

lemma both_done_reached: "(gen_step demo_gen_env)\<^sup>*\<^sup>* (gen_init demo_gen_db) both_done"
proof -
  have "serve_step demo_gen_env first_answered first_writes"
    unfolding first_writes_def by (rule serve_step.reload) code_simp+
  moreover have "serve_step demo_gen_env first_writes first_done"
    unfolding first_done_def by (rule serve_step.commit) code_simp+
  moreover have "serve_step demo_gen_env first_done both_done"
    unfolding both_done_def by (rule serve_step.read [where q = "[]"]) code_simp+
  ultimately show ?thesis
    using first_answered_reached by (meson rtranclp.rtrancl_into_rtrancl gen_step.serve)
qed

theorem one_debrief_per_session_witness:
  "gs_written both_done = [7] \<and> (\<exists>r. map gt_phase (gs_tasks both_done) = [Finished (Inr r), Finished (Inr r)] \<and> find_debrief 7 (gs_db both_done) = Some r)"
proof -
  have sid: "on_worker 0 7 both_done" by code_simp
  have fin: "map gt_phase (gs_tasks both_done) = [Finished (Inr (row_for 7 demo_result)), Finished (Inr (row_for 7 demo_result))]"
    "length (gs_tasks both_done) = 2" "gt_sid (task both_done 0) = 7" "gs_written both_done = [7]" by code_simp+
  then have "phase both_done 0 = Finished (Inr (row_for 7 demo_result))" by (cases "gs_tasks both_done") auto
  then have "find_debrief 7 (gs_db both_done) = Some (row_for 7 demo_result)"
    using one_debrief_per_session [OF both_done_reached sid] fin(2, 3) by (metis zero_less_numeral)
  then show ?thesis by (intro conjI exI [of _ "row_for 7 demo_result"] fin)
qed

theorem requests_all_served_witness:
  "\<exists>s''. serve_step demo_gen_env (tapped first_reads) s''"
proof -
  have reach: "(gen_step demo_gen_env)\<^sup>*\<^sup>* (gen_init demo_gen_db) (tapped first_reads)"
    by (rule rtranclp.rtrancl_into_rtrancl [OF first_reads_reached], rule tap_step) code_simp
  have workers: "map gt_worker (gs_tasks (tapped first_reads)) = [0, 0]" by code_simp
  have "open_on w (tapped first_reads) \<le> ge_capacity demo_gen_env" for w
    using order_trans [OF length_filter_le, of "gs_tasks (tapped first_reads)" 2] arg_cong [OF workers, of length]
    by (simp add: open_on_def demo_gen_env_def numeral_2_eq_2)
  moreover have "open_request (tapped first_reads) 0" by code_simp
  ultimately show ?thesis
    using requests_all_served [OF reach, of 0 "tapped first_reads" 0] by simp
qed

text \<open>Once more than that, they can stand still: the waiters of the lock keep the connections of their own reads, and the request
  that holds the lock, whose connection was given back for the analysis, finds none to store it. Only the pool's timeout, which
  throws the analysis away, or a lost client moves it.\<close>

definition starved :: gen_state where
  "starved = answer demo_gen_env 0 demo_turns ''gentle'' (Inr ''{}'') (tapped (tapped first_reads))"

lemma waiters_starve_the_holder:
  "(gen_step demo_gen_env)\<^sup>*\<^sup>* (gen_init demo_gen_db) starved" "phase starved 0 = Answered demo_result"
  "\<not> serve_step demo_gen_env starved s'"
proof -
  have "gen_step demo_gen_env first_reads (tapped first_reads)" by (rule tap_step) code_simp
  moreover have "gen_step demo_gen_env (tapped first_reads) (tapped (tapped first_reads))" by (rule tap_step) code_simp
  moreover have "serve_step demo_gen_env (tapped (tapped first_reads)) starved"
    unfolding starved_def by (rule serve_step.answered) code_simp+
  ultimately show "(gen_step demo_gen_env)\<^sup>*\<^sup>* (gen_init demo_gen_db) starved"
    using first_reads_reached by (meson rtranclp.rtrancl_into_rtrancl gen_step.serve)
  have phases: "map gt_phase (gs_tasks starved) = [Answered demo_result, Queued, Queued]" by code_simp
  have keys: "map lock_key (gs_tasks starved) = [(0, 7), (0, 7), (0, 7)]" by code_simp
  have lock: "gs_locks starved (0, 7) = Some [0, 1, 2]" by code_simp
  have pool: "connections 0 starved = 2" by code_simp
  have len: "length (gs_tasks starved) = 3" using arg_cong [OF phases, of length] by simp
  have nths: "phase starved i = [Answered demo_result, Queued, Queued] ! i" "lock_key (task starved i) = (0, 7)"
    if "i < 3" for i
    using that len arg_cong [OF phases, of "\<lambda>xs. xs ! i"] arg_cong [OF keys, of "\<lambda>xs. xs ! i"]
    by (auto simp: less_Suc_eq numeral_3_eq_3)
  show "phase starved 0 = Answered demo_result" using nths(1) [of 0] by simp
  have workers: "gt_worker (task starved i) = 0" if "i < 3" for i using nths(2) [OF that] by (simp add: lock_key_def)
  have only: "i = 0" if "i < 3" "phase starved i = Answered res" for i res
    using that nths(1) [of i] by (auto simp: numeral_3_eq_3 less_Suc_eq)
  have queued: "i = 1 \<or> i = 2" if "i < 3" "phase starved i = Queued" for i
    using that nths(1) [of i] by (auto simp: numeral_3_eq_3 less_Suc_eq)
  have others: "phase starved i = Answered demo_result \<or> phase starved i = Queued" if "i < 3" for i
    using that nths(1) [of i] by (auto simp: numeral_3_eq_3 less_Suc_eq)
  show "\<not> serve_step demo_gen_env starved s'"
  proof (rule notI, erule serve_stepE)
    fix i q assume i: "i < length (gs_tasks starved)" "phase starved i = Queued" "gs_locks starved (lock_key (task starved i)) = Some (i # q)"
    have "i < 3" using i(1) len by simp
    show False using queued [OF \<open>i < 3\<close> i(2)] i(3) nths(2) [OF \<open>i < 3\<close>] lock by auto
  next
    fix i res assume i: "i < length (gs_tasks starved)" "phase starved i = Answered res"
      "connections (gt_worker (task starved i)) starved < ge_capacity demo_gen_env"
    have "i < 3" using i(1) len by simp
    show False using i(3) workers [OF \<open>i < 3\<close>] pool by (simp add: demo_gen_env_def)
  qed (use others len in force)+
qed

end
