(* ===== verification/Progress.thy ===== *)
theory Progress
  imports VoiceData Conversation "HOL-Library.List_Lexorder" "HOL-Library.Char_ord"
begin

text \<open>
  The learner's progress (\<^verbatim>\<open>app/features/progress\<close>) and the before/after proof of a skill
  (\<^verbatim>\<open>app/features/proof\<close>). Strings are ordered by code point. Rows that tie in a query's order come in
  table order. The two edge queries of the proof are separate statements and read their own state of the database.
\<close>

section \<open>Progress\<close>

record cefr_point =
  cp_session_id :: int
  cp_started_at :: instant
  cp_level :: string

record recurring_error =
  re_error_type :: string
  re_count :: nat
  re_latest_correction :: string

definition cefr_points :: "int \<Rightarrow> nat \<Rightarrow> db \<Rightarrow> cefr_point list" where
  "cefr_points uid limit d =
     rev (map (\<lambda>(s, b). \<lparr>cp_session_id = cs_id s, cp_started_at = cs_started_at s, cp_level = db_cefr_estimate b\<rparr>)
       (take limit (sort_key (\<lambda>(s, b). (- cs_started_at s, - cs_id s)) (session_debrief_rows uid d))))"

definition recent_error_rows :: "int \<Rightarrow> nat \<Rightarrow> db \<Rightarrow> (string \<times> string) list" where
  "recent_error_rows uid session_window d =
     concat (map (\<lambda>(s, b). map (\<lambda>e. (de_error_type e, de_correction e)) (db_errors b))
       (take session_window (sort_key (\<lambda>(s, b). - cs_started_at s) (session_debrief_rows uid d))))"

definition RECENT_DEBRIEFS_WINDOW :: nat where "RECENT_DEBRIEFS_WINDOW = 5"
definition MAX_RECURRING_ERRORS :: nat where "MAX_RECURRING_ERRORS = 3"
definition MAX_TREND_POINTS :: nat where "MAX_TREND_POINTS = 100"

definition type_or_other :: "string \<Rightarrow> string" where
  "type_or_other t = (let s = py_strip t in if s = [] then ''other'' else s)"

text \<open>The two dictionaries of the loop as one list in insertion order: type, count, first correction seen.\<close>

fun count_row :: "string \<times> string \<Rightarrow> recurring_error list \<Rightarrow> recurring_error list" where
  "count_row (t, c) [] = [\<lparr>re_error_type = type_or_other t, re_count = 1, re_latest_correction = c\<rparr>]"
| "count_row (t, c) (r # rs) =
     (if re_error_type r = type_or_other t then r\<lparr>re_count := re_count r + 1\<rparr> # rs else r # count_row (t, c) rs)"

definition recurring :: "(string \<times> string) list \<Rightarrow> recurring_error list" where
  "recurring rows = take MAX_RECURRING_ERRORS
     (sort_key (\<lambda>r. (- int (re_count r), re_error_type r)) (fold count_row rows []))"

record progress_snapshot =
  ps_cefr_trend :: "cefr_point list"
  ps_recurring_errors :: "recurring_error list"

definition learner_snapshot :: "int \<Rightarrow> db \<Rightarrow> progress_snapshot" where
  "learner_snapshot uid d = \<lparr>ps_cefr_trend = cefr_points uid MAX_TREND_POINTS d,
     ps_recurring_errors = recurring (recent_error_rows uid RECENT_DEBRIEFS_WINDOW d)\<rparr>"

section \<open>Proof\<close>

record session_errors =
  se_session_id :: int
  se_started_at :: instant
  se_cefr :: string
  se_error_counts :: "(string \<times> nat) list"
  se_turn_count :: nat

text \<open>A counter as its items in insertion order.\<close>

fun counter_add :: "string \<Rightarrow> (string \<times> nat) list \<Rightarrow> (string \<times> nat) list" where
  "counter_add t [] = [(t, 1)]"
| "counter_add t ((k, n) # xs) = (if k = t then (k, n + 1) # xs else (k, n) # counter_add t xs)"

definition counter_get :: "(string \<times> nat) list \<Rightarrow> string \<Rightarrow> nat" where
  "counter_get cs t = (case map_of cs t of None \<Rightarrow> 0 | Some n \<Rightarrow> n)"

definition to_session_errors :: "db \<Rightarrow> conv_session \<times> debrief_row \<Rightarrow> session_errors" where
  "to_session_errors d row = (case row of (s, b) \<Rightarrow>
     \<lparr>se_session_id = cs_id s, se_started_at = cs_started_at s, se_cefr = db_cefr_estimate b,
      se_error_counts = fold (\<lambda>e. counter_add (type_or_other (de_error_type e))) (db_errors b) [],
      se_turn_count = (case get_transcript (cs_id s) d of None \<Rightarrow> 0
        | Some x \<Rightarrow> length (filter (\<lambda>m. m_role m = ROLE_USER) (tr_turns x)))\<rparr>)"

definition skill_rows :: "int \<Rightarrow> string \<Rightarrow> db \<Rightarrow> (conv_session \<times> debrief_row) list" where
  "skill_rows uid skill d = filter (\<lambda>(s, b). cs_scenario_id s = Some skill) (session_debrief_rows uid d)"

definition baseline_row :: "int \<Rightarrow> string \<Rightarrow> db \<Rightarrow> session_errors option" where
  "baseline_row uid skill d = (case sort_key started_key (skill_rows uid skill d) of
      [] \<Rightarrow> None | r # _ \<Rightarrow> Some (to_session_errors d r))"

definition latest_row :: "int \<Rightarrow> string \<Rightarrow> db \<Rightarrow> session_errors option" where
  "latest_row uid skill d = (case sort_key (\<lambda>r. (- fst (started_key r), - snd (started_key r))) (skill_rows uid skill d) of
      [] \<Rightarrow> None | r # _ \<Rightarrow> Some (to_session_errors d r))"

definition sessions_for_skill :: "int \<Rightarrow> string \<Rightarrow> db \<Rightarrow> db \<Rightarrow> session_errors list" where
  "sessions_for_skill uid skill d1 d2 = (case baseline_row uid skill d1 of None \<Rightarrow> []
    | Some b \<Rightarrow> (case latest_row uid skill d2 of None \<Rightarrow> [b]
    | Some l \<Rightarrow> if se_session_id l = se_session_id b then [b] else [b, l]))"

definition rate :: "nat \<Rightarrow> nat \<Rightarrow> real" where
  "rate n turns = (if turns > 0 then real n / real turns else real n)"

definition resolved :: "session_errors \<Rightarrow> session_errors \<Rightarrow> string list" where
  "resolved b l = sort (map fst (filter (\<lambda>(t, n). n > 0 \<and> counter_get (se_error_counts l) t = 0) (se_error_counts b)))"

definition improved :: "session_errors \<Rightarrow> session_errors \<Rightarrow> string list" where
  "improved b l = sort (map fst (filter (\<lambda>(t, n). let late_n = counter_get (se_error_counts l) t
     in n > 0 \<and> late_n > 0 \<and> rate late_n (se_turn_count l) < rate n (se_turn_count b)) (se_error_counts b)))"

definition new_or_worse :: "session_errors \<Rightarrow> session_errors \<Rightarrow> string list" where
  "new_or_worse b l = sort (map fst (filter (\<lambda>(t, late_n). late_n > 0
     \<and> rate late_n (se_turn_count l) > rate (counter_get (se_error_counts b) t) (se_turn_count b)) (se_error_counts l)))"

record proof_delta =
  pd_skill :: string
  pd_baseline :: session_errors
  pd_latest :: session_errors
  pd_resolved :: "string list"
  pd_improved :: "string list"
  pd_new_or_worse :: "string list"

definition proof_of_skill :: "int \<Rightarrow> string \<Rightarrow> db \<Rightarrow> db \<Rightarrow> proof_delta option" where
  "proof_of_skill uid skill d1 d2 = (let ss = sessions_for_skill uid skill d1 d2 in
     if length ss < 2 then None
     else let b = hd ss; l = last ss in
       Some \<lparr>pd_skill = skill, pd_baseline = b, pd_latest = l, pd_resolved = resolved b l,
         pd_improved = improved b l, pd_new_or_worse = new_or_worse b l\<rparr>)"

section \<open>Recurring errors\<close>

text \<open>The answer of the route: too few sessions are not an error.\<close>

datatype proof_out = InsufficientData string | ProofOut proof_delta

definition get_proof_route :: "int \<Rightarrow> string \<Rightarrow> db \<Rightarrow> db \<Rightarrow> proof_out" where
  "get_proof_route uid skill d1 d2 = (case proof_of_skill uid skill d1 d2 of
      None \<Rightarrow> InsufficientData skill | Some p \<Rightarrow> ProofOut p)"

definition rows_of_type :: "string \<Rightarrow> (string \<times> string) list \<Rightarrow> (string \<times> string) list" where
  "rows_of_type t rows = filter (\<lambda>r. type_or_other (fst r) = t) rows"

text \<open>The table a fold of \<open>count_row\<close> builds: one entry per type with the number of its rows and the correction of
  the first one.\<close>

definition counts_rows :: "recurring_error list \<Rightarrow> (string \<times> string) list \<Rightarrow> bool" where
  "counts_rows rs rows \<longleftrightarrow> distinct (map re_error_type rs)
     \<and> re_error_type ` set rs = (type_or_other \<circ> fst) ` set rows
     \<and> (\<forall>r \<in> set rs. re_count r = length (rows_of_type (re_error_type r) rows)
          \<and> rows_of_type (re_error_type r) rows \<noteq> []
          \<and> re_latest_correction r = snd (hd (rows_of_type (re_error_type r) rows)))"

lemma count_row_types: "re_error_type ` set (count_row row rs) = insert (type_or_other (fst row)) (re_error_type ` set rs)"
  by (induction row rs rule: count_row.induct) auto

lemma count_row_distinct: "distinct (map re_error_type rs) \<Longrightarrow> distinct (map re_error_type (count_row row rs))"
proof (induction row rs rule: count_row.induct)
  case (2 t c r rs)
  then show ?case using count_row_types [of "(t, c)" rs] by auto
qed simp

lemma count_row_members:
  assumes "distinct (map re_error_type rs)"
  shows "set (count_row row rs) = {r \<in> set rs. re_error_type r \<noteq> type_or_other (fst row)}
    \<union> (if type_or_other (fst row) \<in> re_error_type ` set rs
       then (\<lambda>r. r\<lparr>re_count := re_count r + 1\<rparr>) ` {r \<in> set rs. re_error_type r = type_or_other (fst row)}
       else {\<lparr>re_error_type = type_or_other (fst row), re_count = 1, re_latest_correction = snd row\<rparr>})"
  using assms
proof (induction row rs rule: count_row.induct)
  case (2 t c r rs)
  show ?case
  proof (cases "re_error_type r = type_or_other t")
    case True
    then have "type_or_other t \<notin> re_error_type ` set rs" using 2(2) by simp
    then have "\<forall>x \<in> set rs. re_error_type x \<noteq> type_or_other t" by (metis imageI)
    then show ?thesis using True by auto
  next
    case False
    then show ?thesis using 2 by auto
  qed
qed simp

lemma counts_rows_step:
  assumes "counts_rows rs rows"
  shows "counts_rows (count_row row rs) (rows @ [row])"
proof -
  have d: "distinct (map re_error_type rs)" using assms by (simp add: counts_rows_def)
  have fresh: "rows_of_type (type_or_other (fst row)) rows = []" if "type_or_other (fst row) \<notin> re_error_type ` set rs"
  proof -
    have "type_or_other (fst row) \<notin> (type_or_other \<circ> fst) ` set rows" using assms that by (simp add: counts_rows_def)
    then have "\<forall>x \<in> set rows. type_or_other (fst x) \<noteq> type_or_other (fst row)"
      by (metis comp_apply imageI)
    then show ?thesis by (simp add: rows_of_type_def filter_empty_conv)
  qed
  show ?thesis
    unfolding counts_rows_def
  proof (intro conjI)
    show "distinct (map re_error_type (count_row row rs))" using d by (rule count_row_distinct)
    show "re_error_type ` set (count_row row rs) = (type_or_other \<circ> fst) ` set (rows @ [row])"
      using assms by (auto simp: counts_rows_def count_row_types)
    show "\<forall>r \<in> set (count_row row rs). re_count r = length (rows_of_type (re_error_type r) (rows @ [row]))
          \<and> rows_of_type (re_error_type r) (rows @ [row]) \<noteq> []
          \<and> re_latest_correction r = snd (hd (rows_of_type (re_error_type r) (rows @ [row])))"
      using assms fresh unfolding count_row_members [OF d] counts_rows_def
      by (auto simp: rows_of_type_def split: if_split_asm)
  qed
qed

lemma counts_rows_fold: "counts_rows rs seen \<Longrightarrow> counts_rows (fold count_row rows rs) (seen @ rows)"
proof (induction rows arbitrary: rs seen)
  case (Cons row rows)
  from Cons.IH [OF counts_rows_step [OF Cons.prems]] show ?case by simp
qed simp

definition error_rank :: "recurring_error \<Rightarrow> int \<times> string" where
  "error_rank r = (- int (re_count r), re_error_type r)"

lemma take_sort_best:
  assumes "x \<in> set (take n (sort_key f xs))" "y \<in> set xs" "y \<notin> set (take n (sort_key f xs))"
  shows "f x \<le> f y"
proof -
  have "sorted (map f (take n (sort_key f xs) @ drop n (sort_key f xs)))" by simp
  then have "\<forall>a \<in> set (take n (sort_key f xs)). \<forall>b \<in> set (drop n (sort_key f xs)). f a \<le> f b"
    by (simp only: map_append sorted_append) auto
  moreover have "y \<in> set (drop n (sort_key f xs))"
    using assms(2, 3) by (metis Un_iff append_take_drop_id set_append set_sort)
  ultimately show ?thesis using assms(1) by blast
qed

lemma recurring_table:
  "counts_rows (fold count_row rows []) rows"
  "unique_on error_rank (fold count_row rows [])"
  "recurring rows = take 3 (sort_key error_rank (fold count_row rows []))"
proof -
  have "counts_rows [] []" by (simp add: counts_rows_def)
  from counts_rows_fold [OF this, of rows] show c: "counts_rows (fold count_row rows []) rows" by simp
  then show "unique_on error_rank (fold count_row rows [])"
    by (auto simp: counts_rows_def unique_on_def distinct_map inj_on_def error_rank_def)
  show "recurring rows = take 3 (sort_key error_rank (fold count_row rows []))"
    by (simp add: recurring_def MAX_RECURRING_ERRORS_def error_rank_def [abs_def])
qed

lemma recurring_unlisted:
  assumes "q \<in> set (fold count_row rows [])" "q \<notin> set (recurring rows)"
  shows "length (recurring rows) = 3" "r \<in> set (recurring rows) \<Longrightarrow> error_rank r < error_rank q"
proof -
  let ?rs = "fold count_row rows []"
  show "length (recurring rows) = 3"
  proof (rule ccontr)
    assume "length (recurring rows) \<noteq> 3"
    then have "take 3 (sort_key error_rank ?rs) = sort_key error_rank ?rs" unfolding recurring_table(3) by simp
    then show False using assms unfolding recurring_table(3) by simp
  qed
  assume r: "r \<in> set (recurring rows)"
  then have "error_rank r \<le> error_rank q"
    using take_sort_best [of r 3 error_rank ?rs q] assms unfolding recurring_table(3) by simp
  moreover have "r \<in> set ?rs" using r unfolding recurring_table(3) by (auto dest: in_set_takeD)
  then have "error_rank r \<noteq> error_rank q"
    using unique_on_eq [OF recurring_table(2) _ assms(1)] r assms(2) by blast
  ultimately show "error_rank r < error_rank q" by simp
qed

lemma recurring_entry:
  assumes "row \<in> set rows"
  shows "\<exists>q \<in> set (fold count_row rows []). re_error_type q = type_or_other (fst row)
    \<and> error_rank q = (- int (length (rows_of_type (type_or_other (fst row)) rows)), type_or_other (fst row))"
proof -
  have "(type_or_other \<circ> fst) row \<in> re_error_type ` set (fold count_row rows [])"
    using recurring_table(1) [of rows] imageI [OF assms, of "type_or_other \<circ> fst"] unfolding counts_rows_def by blast
  then obtain q where q: "q \<in> set (fold count_row rows [])" "re_error_type q = type_or_other (fst row)"
    by (metis comp_apply imageE)
  then have "error_rank q = (- int (length (rows_of_type (type_or_other (fst row)) rows)), type_or_other (fst row))"
    using recurring_table(1) [of rows] by (simp add: counts_rows_def error_rank_def)
  then show ?thesis using q by blast
qed

text \<open>The recurring errors are the exact top of the ranking. Over any error rows, newest first, the snapshot lists
  at most three types, most frequent first and alphabetical on ties, without repetition; each count is the number of
  rows of that (stripped, blank read as ``other'') type and each correction the one of its newest row; and every type
  of the rows that is not listed ranks behind all listed ones, so nothing is left out unless three better ones are
  shown.\<close>

theorem recurring_errors_exact:
  "length (recurring rows) \<le> 3
   \<and> sorted_wrt (\<lambda>x y. error_rank x < error_rank y) (recurring rows)
   \<and> (\<forall>r \<in> set (recurring rows). re_count r = length (rows_of_type (re_error_type r) rows) \<and> re_count r > 0
        \<and> re_latest_correction r = snd (hd (rows_of_type (re_error_type r) rows)))
   \<and> (\<forall>row \<in> set rows. let t = type_or_other (fst row) in t \<in> re_error_type ` set (recurring rows)
        \<or> length (recurring rows) = 3
          \<and> (\<forall>r \<in> set (recurring rows). error_rank r < (- int (length (rows_of_type t rows)), t)))"
proof (intro conjI ballI)
  let ?rs = "fold count_row rows []"
  have strict: "sorted_wrt (\<lambda>x y. error_rank x < error_rank y) (sort_key error_rank ?rs)"
    by (rule sorted_wrt_strict_sort_key [OF recurring_table(2)])
  show "length (recurring rows) \<le> 3" unfolding recurring_table(3) by simp
  show "sorted_wrt (\<lambda>x y. error_rank x < error_rank y) (recurring rows)"
    unfolding recurring_table(3) using strict by (rule sorted_wrt_take)
  fix r
  assume "r \<in> set (recurring rows)"
  then have "r \<in> set ?rs" unfolding recurring_table(3) by (auto dest: in_set_takeD)
  then show "re_count r = length (rows_of_type (re_error_type r) rows)" "re_count r > 0"
    "re_latest_correction r = snd (hd (rows_of_type (re_error_type r) rows))"
    using recurring_table(1) [of rows] by (auto simp: counts_rows_def)
next
  fix row
  assume "row \<in> set rows"
  then obtain q where q: "q \<in> set (fold count_row rows [])" "re_error_type q = type_or_other (fst row)"
    "error_rank q = (- int (length (rows_of_type (type_or_other (fst row)) rows)), type_or_other (fst row))"
    using recurring_entry by blast
  show "let t = type_or_other (fst row) in t \<in> re_error_type ` set (recurring rows)
        \<or> length (recurring rows) = 3
          \<and> (\<forall>r \<in> set (recurring rows). error_rank r < (- int (length (rows_of_type t rows)), t))"
  proof (cases "q \<in> set (recurring rows)")
    case True
    then show ?thesis using imageI [OF True, of re_error_type] q(2) by (simp add: Let_def)
  next
    case False
    then show ?thesis using recurring_unlisted [OF q(1) False] by (simp add: Let_def q(3))
  qed
qed

theorem recurring_errors_exact_witness:
  "recurring [(''article'', ''an apple''), (''plural'', ''cats''), ('' '', ''x''), (''article'', ''an egg'')] \<noteq> []
   \<and> length (recurring [(''article'', ''an apple''), (''plural'', ''cats''), ('' '', ''x''), (''article'', ''an egg'')]) \<le> 3"
proof
  show "length (recurring [(''article'', ''an apple''), (''plural'', ''cats''), ('' '', ''x''), (''article'', ''an egg'')]) \<le> 3"
    using recurring_errors_exact by blast
  show "recurring [(''article'', ''an apple''), (''plural'', ''cats''), ('' '', ''x''), (''article'', ''an egg'')] \<noteq> []"
    by code_simp
qed

section \<open>What the proof of a skill claims\<close>

lemma counter_add_get: "counter_get (counter_add t cs) u = counter_get cs u + (if u = t then 1 else 0)"
  by (induction t cs rule: counter_add.induct) (auto simp: counter_get_def)

lemma counter_add_keys: "fst ` set (counter_add t cs) = insert t (fst ` set cs)"
  by (induction t cs rule: counter_add.induct) auto

lemma counter_add_distinct: "distinct (map fst cs) \<Longrightarrow> distinct (map fst (counter_add t cs))"
proof (induction t cs rule: counter_add.induct)
  case (2 t k n xs)
  then show ?case using counter_add_keys [of t xs] by auto
qed simp

definition counter_ok :: "(string \<times> nat) list \<Rightarrow> bool" where
  "counter_ok cs \<longleftrightarrow> distinct (map fst cs)"

lemma counter_fold_ok: "counter_ok cs \<Longrightarrow> counter_ok (fold (\<lambda>e. counter_add (f e)) xs cs)"
  by (induction xs arbitrary: cs) (simp_all add: counter_ok_def counter_add_distinct)

lemma counter_filter:
  assumes "counter_ok cs"
  shows "t \<in> set (sort (map fst (filter (\<lambda>(k, n). P k n) cs))) \<longleftrightarrow> (\<exists>n. map_of cs t = Some n \<and> P t n)"
proof -
  have "map_of cs t = Some n \<longleftrightarrow> (t, n) \<in> set cs" for n using assms by (simp add: counter_ok_def)
  then show ?thesis by (simp only: set_sort set_map set_filter) (auto simp: image_iff)
qed

lemma resolved_iff: "counter_ok (se_error_counts b) \<Longrightarrow>
  t \<in> set (resolved b l) \<longleftrightarrow> counter_get (se_error_counts b) t > 0 \<and> counter_get (se_error_counts l) t = 0"
  unfolding resolved_def
  by (subst counter_filter) (simp_all add: counter_get_def [of "se_error_counts b"] split: option.split)

lemma improved_iff: "counter_ok (se_error_counts b) \<Longrightarrow>
  t \<in> set (improved b l) \<longleftrightarrow> counter_get (se_error_counts b) t > 0 \<and> counter_get (se_error_counts l) t > 0
    \<and> rate (counter_get (se_error_counts l) t) (se_turn_count l) < rate (counter_get (se_error_counts b) t) (se_turn_count b)"
  unfolding improved_def
  by (subst counter_filter) (simp_all add: Let_def counter_get_def [of "se_error_counts b"] split: option.split)

lemma new_or_worse_iff: "counter_ok (se_error_counts l) \<Longrightarrow>
  t \<in> set (new_or_worse b l) \<longleftrightarrow> counter_get (se_error_counts l) t > 0
    \<and> rate (counter_get (se_error_counts l) t) (se_turn_count l) > rate (counter_get (se_error_counts b) t) (se_turn_count b)"
  unfolding new_or_worse_def
  by (subst counter_filter) (simp_all add: counter_get_def [of "se_error_counts l"] split: option.split)

lemma to_session_errors_ok: "counter_ok (se_error_counts (to_session_errors d row))"
proof (cases row)
  case (Pair sess b)
  have "counter_ok (fold (\<lambda>e. counter_add (type_or_other (de_error_type e))) (db_errors b) [])"
    by (rule counter_fold_ok) (simp add: counter_ok_def)
  then show ?thesis by (simp add: to_session_errors_def Pair)
qed

lemma proof_ends_ok:
  assumes "proof_of_skill uid skill d1 d2 = Some p"
  shows "counter_ok (se_error_counts (pd_baseline p))" "counter_ok (se_error_counts (pd_latest p))"
    "pd_resolved p = resolved (pd_baseline p) (pd_latest p)" "pd_improved p = improved (pd_baseline p) (pd_latest p)"
    "pd_new_or_worse p = new_or_worse (pd_baseline p) (pd_latest p)" "se_session_id (pd_baseline p) \<noteq> se_session_id (pd_latest p)"
  using assms to_session_errors_ok
  by (auto simp: proof_of_skill_def sessions_for_skill_def baseline_row_def latest_row_def Let_def
      split: option.splits list.splits if_split_asm)

text \<open>The before/after proof classifies honestly. Whatever two states of the database the two queries see, a proof
  compares two different sessions, and for every error type: it is resolved exactly when it was made at the baseline
  and not at all in the latest session, improved exactly when it is still made at a lower rate per learner turn, new or
  worse exactly when it is made at a higher rate; no type is in two lists, and a type in none of them was made at
  neither end or at the same rate at both.\<close>

theorem proof_classification:
  assumes "proof_of_skill uid skill d1 d2 = Some p"
  defines "before \<equiv> counter_get (se_error_counts (pd_baseline p))" and "after \<equiv> counter_get (se_error_counts (pd_latest p))"
    and "r0 \<equiv> \<lambda>n. rate n (se_turn_count (pd_baseline p))" and "r1 \<equiv> \<lambda>n. rate n (se_turn_count (pd_latest p))"
  shows "se_session_id (pd_baseline p) \<noteq> se_session_id (pd_latest p)
    \<and> (t \<in> set (pd_resolved p) \<longleftrightarrow> before t > 0 \<and> after t = 0)
    \<and> (t \<in> set (pd_improved p) \<longleftrightarrow> after t > 0 \<and> r1 (after t) < r0 (before t))
    \<and> (t \<in> set (pd_new_or_worse p) \<longleftrightarrow> r1 (after t) > r0 (before t))
    \<and> set (pd_resolved p) \<inter> set (pd_improved p) = {} \<and> set (pd_new_or_worse p) \<inter> (set (pd_resolved p) \<union> set (pd_improved p)) = {}
    \<and> (t \<notin> set (pd_resolved p) \<union> set (pd_improved p) \<union> set (pd_new_or_worse p) \<longrightarrow> r1 (after t) = r0 (before t))"
proof -
  note ends = proof_ends_ok [OF assms(1)]
  have pos: "rate n k \<ge> 0" "rate n k > 0 \<longleftrightarrow> n > 0" for n k
    by (auto simp: rate_def zero_less_divide_iff)
  have res: "u \<in> set (pd_resolved p) \<longleftrightarrow> before u > 0 \<and> after u = 0" for u
    using resolved_iff [OF ends(1)] by (simp add: ends(3) before_def after_def)
  have imp: "u \<in> set (pd_improved p) \<longleftrightarrow> after u > 0 \<and> r1 (after u) < r0 (before u)" for u
    using improved_iff [OF ends(1)] pos(2) [of "before u"] pos(1) [of "after u"]
    by (auto simp: ends(4) before_def after_def r0_def r1_def) (metis not_gr_zero not_less_iff_gr_or_eq order_le_less_trans pos(1) pos(2))
  have new: "u \<in> set (pd_new_or_worse p) \<longleftrightarrow> r1 (after u) > r0 (before u)" for u
    using new_or_worse_iff [OF ends(2)] by (auto simp: ends(5) before_def after_def r0_def r1_def) (metis order_le_less_trans pos)
  have zero: "after u = 0 \<Longrightarrow> r1 (after u) \<le> r0 (before u)" for u using pos by (simp add: r0_def r1_def rate_def)
  have disj: "set (pd_resolved p) \<inter> set (pd_improved p) = {}"
    "set (pd_new_or_worse p) \<inter> (set (pd_resolved p) \<union> set (pd_improved p)) = {}"
    using zero by (auto simp: res imp new) (metis not_le)
  have "r1 (after t) = r0 (before t)" if "t \<notin> set (pd_resolved p) \<union> set (pd_improved p) \<union> set (pd_new_or_worse p)"
    using that pos by (auto simp: res imp new r0_def r1_def rate_def)
  then show ?thesis using ends(6) res imp new disj by blast
qed

definition demo_session :: "int \<Rightarrow> conv_session" where
  "demo_session i = \<lparr>cs_id = i, cs_user_id = 1, cs_mode = ''scenario'', cs_scenario_id = Some ''hotel'', cs_mission_id = None,
     cs_voice_engine = ''std'', cs_started_at = i, cs_last_activity_at = utc i, cs_ended_at = None, cs_duration_minutes = None\<rparr>"

definition demo_error :: "string \<Rightarrow> debrief_error" where
  "demo_error t = \<lparr>de_original = ''x'', de_correction = ''y'', de_rule = [], de_error_type = t, de_explanation = [],
     de_examples = [], de_alternatives = []\<rparr>"

definition demo_proof_db :: db where
  "demo_proof_db = empty_db\<lparr>sessions := [demo_session 1, demo_session 2],
     debriefs := [\<lparr>db_session_id = 1, db_cefr_estimate = ''A2'', db_summary = [], db_errors = [demo_error ''article'', demo_error ''plural'']\<rparr>,
       \<lparr>db_session_id = 2, db_cefr_estimate = ''B1'', db_summary = [], db_errors = [demo_error ''plural'']\<rparr>]\<rparr>"

theorem proof_classification_witness:
  "\<exists>p. proof_of_skill 1 ''hotel'' demo_proof_db demo_proof_db = Some p \<and> ''article'' \<in> set (pd_resolved p)"
proof -
  have two: "map (\<lambda>x. (se_session_id x, se_error_counts x)) (sessions_for_skill 1 ''hotel'' demo_proof_db demo_proof_db)
      = [(1, [(''article'', 1), (''plural'', 1)]), (2, [(''plural'', 1)])]"
    by code_simp
  then obtain b l where bl: "sessions_for_skill 1 ''hotel'' demo_proof_db demo_proof_db = [b, l]"
    "se_error_counts b = [(''article'', 1), (''plural'', 1)]" "se_error_counts l = [(''plural'', 1)]"
    by (auto simp: map_eq_Cons_conv)
  then obtain p where p: "proof_of_skill 1 ''hotel'' demo_proof_db demo_proof_db = Some p" "pd_baseline p = b" "pd_latest p = l"
    by (simp add: proof_of_skill_def Let_def)
  have "''article'' \<in> set (pd_resolved p) \<longleftrightarrow> counter_get (se_error_counts b) ''article'' > 0 \<and> counter_get (se_error_counts l) ''article'' = 0"
    using proof_classification [OF p(1), of "''article''"] p(2, 3) by blast
  then show ?thesis using p(1) by (simp add: bl counter_get_def)
qed

text \<open>Being resolved ignores the length of the latest session: one without a single learner turn resolves everything.\<close>

lemma empty_session_resolves_everything:
  assumes "counter_ok (se_error_counts b)" "se_error_counts l = []" "se_turn_count l = 0"
  shows "set (resolved b l) = {t. counter_get (se_error_counts b) t > 0}"
  using assms by (auto simp: resolved_iff counter_get_def)

end
