(* ===== verification/Sentences.thy ===== *)
theory Sentences
  imports PyStr Errors
begin

text \<open>
  The OpenAI-compatible language model provider (\<^verbatim>\<open>app/core/llm/providers/deepseek.py\<close>): the request
  messages, the blocking completion and the stream cut into sentences while its tokens arrive. The client
  library is an argument: what it answers, or the tokens of its stream and whether the stream breaks off.
\<close>

section \<open>Sentence boundaries\<close>

definition is_terminal :: "char \<Rightarrow> bool" where
  "is_terminal c \<longleftrightarrow> c \<in> set ''.!?''"

definition is_closing :: "char \<Rightarrow> bool" where
  "is_closing c \<longleftrightarrow> c = CHR 0x22 \<or> c = CHR 0x27 \<or> c = CHR '')'' \<or> c = CHR '']''"

text \<open>The match of the boundary expression at the start of a text: a run of terminal punctuation, a run of closing
  characters, and whitespace behind it, which is not part of the match. Both runs are maximal in every match, since
  neither class contains whitespace.\<close>

definition match_here :: "string \<Rightarrow> nat option" where
  "match_here s =
     (let p = takeWhile is_terminal s; r = dropWhile is_terminal s;
          q = takeWhile is_closing r; r' = dropWhile is_closing r
      in if p \<noteq> [] \<and> r' \<noteq> [] \<and> py_isspace (hd r') then Some (length p + length q) else None)"

fun search_end :: "string \<Rightarrow> (nat \<times> nat) option" where
  "search_end [] = None"
| "search_end (c # cs) = (case match_here (c # cs) of
      Some n \<Rightarrow> Some (0, n)
    | None \<Rightarrow> map_option (\<lambda>(i, j). (Suc i, Suc j)) (search_end cs))"

definition sentence_end :: "string \<Rightarrow> nat \<Rightarrow> (nat \<times> nat) option" where
  "sentence_end buffer search_from = map_option (\<lambda>(i, j). (search_from + i, search_from + j)) (search_end (drop search_from buffer))"

definition ABBREVIATIONS :: "string list" where
  "ABBREVIATIONS = [''mr'', ''mrs'', ''ms'', ''dr'', ''prof'', ''st'', ''sr'', ''jr'', ''vs'', ''etc'', ''e.g'', ''i.e'', ''a.m'', ''p.m'', ''u.s'', ''u.k'']"

definition is_ascii_letter :: "char \<Rightarrow> bool" where
  "is_ascii_letter c \<longleftrightarrow> is_ascii_lower c \<or> (let n = of_char c :: nat in 65 \<le> n \<and> n \<le> 90)"

text \<open>The letters and dots the text ends with, from the first letter on; the end anchor also holds before a final
  newline.\<close>

definition trailing_word :: "string \<Rightarrow> string" where
  "trailing_word text =
     (let t = (if text \<noteq> [] \<and> last text = CHR 0x0A then butlast text else text)
      in dropWhile (\<lambda>c. c = CHR ''.'') (rev (takeWhile (\<lambda>c. is_ascii_letter c \<or> c = CHR ''.'') (rev t))))"

definition strip_dots :: "string \<Rightarrow> string" where
  "strip_dots s = rev (dropWhile (\<lambda>c. c = CHR ''.'') (rev (dropWhile (\<lambda>c. c = CHR ''.'') s)))"

definition ends_with_abbreviation :: "string \<Rightarrow> bool" where
  "ends_with_abbreviation text_before_period =
     (let word = strip_dots (py_lower (trailing_word text_before_period))
      in word \<noteq> [] \<and> (length word = 1 \<or> word \<in> set ABBREVIATIONS))"

definition boundary_core :: "string \<Rightarrow> string" where
  "boundary_core m = rev (dropWhile is_closing (rev m))"

section \<open>Cutting the buffer\<close>

lemma match_here_pos: "match_here s = Some n \<Longrightarrow> 0 < n \<and> n < length s"
proof -
  assume m: "match_here s = Some n"
  let ?r = "dropWhile is_terminal s"
  have "length s = length (takeWhile is_terminal s) + (length (takeWhile is_closing ?r) + length (dropWhile is_closing ?r))"
    by (metis length_append takeWhile_dropWhile_id)
  then show ?thesis using m by (auto simp: match_here_def Let_def split: if_split_asm)
qed

lemma search_end_bounds: "search_end s = Some (i, j) \<Longrightarrow> i < j \<and> j < length s"
proof (induction s arbitrary: i j)
  case (Cons c cs)
  then show ?case by (auto split: option.splits dest: match_here_pos)
qed simp

lemma sentence_end_bounds: "sentence_end buffer from = Some (i, j) \<Longrightarrow> from \<le> i \<and> i < j \<and> j < length buffer"
  using search_end_bounds [of "drop from buffer"] by (auto simp: sentence_end_def)

text \<open>The end of the next real boundary at or after \<open>search_from\<close>: a lone period behind an abbreviation or an initial is
  skipped.\<close>

function next_cut :: "string \<Rightarrow> nat \<Rightarrow> nat option" where
  "next_cut buffer search_from = (case sentence_end buffer search_from of
      None \<Rightarrow> None
    | Some (start, end_) \<Rightarrow>
        if boundary_core (drop start (take end_ buffer)) = ''.'' \<and> ends_with_abbreviation (take start buffer)
        then next_cut buffer end_ else Some end_)"
  by pat_completeness auto
termination
  by (relation "measure (\<lambda>(buffer, from). length buffer - from)") (use sentence_end_bounds in fastforce)+

declare next_cut.simps [simp del]

lemma next_cut_None: "sentence_end buffer from = None \<Longrightarrow> next_cut buffer from = None"
  by (subst next_cut.simps) simp

lemma next_cut_Some:
  "sentence_end buffer from = Some (s, e) \<Longrightarrow> next_cut buffer from =
    (if boundary_core (drop s (take e buffer)) = ''.'' \<and> ends_with_abbreviation (take s buffer) then next_cut buffer e else Some e)"
  by (subst next_cut.simps) simp

lemma next_cut_bounds: "next_cut buffer from = Some e \<Longrightarrow> from < e \<and> e < length buffer"
proof (induction buffer "from" rule: next_cut.induct)
  case (1 buffer "from")
  show ?case
  proof (cases "sentence_end buffer from")
    case None
    then show ?thesis using 1(2) by (simp add: next_cut_None)
  next
    case (Some p)
    then obtain s' e' where p: "sentence_end buffer from = Some (s', e')" by (cases p) simp
    show ?thesis
      using 1(1) [OF p refl] 1(2) sentence_end_bounds [OF p] by (fastforce simp: next_cut_Some [OF p] split: if_split_asm)
  qed
qed

text \<open>Every complete sentence of the buffer, and what is left.\<close>

function emit_sentences :: "string \<Rightarrow> string list \<times> string" where
  "emit_sentences buffer = (case next_cut buffer 0 of
      None \<Rightarrow> ([], buffer)
    | Some e \<Rightarrow> (case emit_sentences (drop e buffer) of (out, rest) \<Rightarrow>
        let sentence = py_strip (take e buffer) in (if sentence \<noteq> [] then sentence # out else out, rest)))"
  by pat_completeness auto
termination
  by (relation "measure length") (use next_cut_bounds in fastforce)+

declare emit_sentences.simps [simp del]

section \<open>The provider\<close>

fun read_stream :: "string \<Rightarrow> string option list \<Rightarrow> string list \<times> string" where
  "read_stream buffer [] = ([], buffer)"
| "read_stream buffer (delta # deltas) = (case delta of
      None \<Rightarrow> read_stream buffer deltas
    | Some d \<Rightarrow> if d = [] then read_stream buffer deltas
        else (case emit_sentences (buffer @ d) of (out, buffer') \<Rightarrow>
          (case read_stream buffer' deltas of (out', rest) \<Rightarrow> (out @ out', rest))))"

text \<open>The sentences the caller gets from a stream with these tokens, and the error if the stream breaks off behind them.\<close>

definition stream_complete_provider :: "string option list \<Rightarrow> bool \<Rightarrow> string list \<times> error option" where
  "stream_complete_provider deltas broken = (case read_stream [] deltas of (out, buffer) \<Rightarrow>
     if broken then (out, Some (DomainErr LlmProviderError ''LLM provider failed''))
     else let tail = py_strip buffer in (out @ (if tail \<noteq> [] then [tail] else []), None))"

definition request_messages :: "string \<Rightarrow> (string \<times> string) list \<Rightarrow> (string \<times> string) list" where
  "request_messages system_prompt history = (''system'', system_prompt) # history"

text \<open>\<open>create\<close> is the client's call: a failure, or the contents of the choices of the answer. The first choice is read outside
  the guard.\<close>

definition complete_provider ::
  "((string \<times> string) list \<Rightarrow> error + string option list) \<Rightarrow> string \<Rightarrow> (string \<times> string) list \<Rightarrow> error + string" where
  "complete_provider create system_prompt history = (case create (request_messages system_prompt history) of
      Inl _ \<Rightarrow> Inl (DomainErr LlmProviderError ''LLM provider failed'')
    | Inr [] \<Rightarrow> Inl (OtherErr ''IndexError'')
    | Inr (choice # _) \<Rightarrow> Inr (case choice of None \<Rightarrow> [] | Some text \<Rightarrow> text))"

section \<open>The cuts do not depend on the tokens\<close>

lemma terminal_not_space: "is_terminal c \<Longrightarrow> \<not> py_isspace c"
  by (auto simp: is_terminal_def py_isspace_def Let_def)

lemma closing_not_space: "is_closing c \<Longrightarrow> \<not> py_isspace c"
  by (auto simp: is_closing_def py_isspace_def Let_def)

lemma terminal_not_closing: "is_terminal c \<Longrightarrow> \<not> is_closing c"
  by (auto simp: is_terminal_def is_closing_def)

lemma match_here_iff:
  "match_here s = Some n \<longleftrightarrow> (\<exists>p q c r. s = p @ q @ c # r \<and> p \<noteq> [] \<and> (\<forall>x \<in> set p. is_terminal x)
     \<and> (\<forall>x \<in> set q. is_closing x) \<and> py_isspace c \<and> n = length p + length q)" (is "?l \<longleftrightarrow> ?r")
proof
  assume l: ?l
  let ?p = "takeWhile is_terminal s" and ?u = "dropWhile is_terminal s"
  let ?q = "takeWhile is_closing ?u" and ?v = "dropWhile is_closing ?u"
  have "s = ?p @ ?q @ ?v" by simp
  moreover have "?p \<noteq> []" "?v \<noteq> []" "py_isspace (hd ?v)" "n = length ?p + length ?q"
    using l by (auto simp: match_here_def Let_def split: if_split_asm)
  ultimately show ?r by (metis list.collapse set_takeWhileD)
next
  assume ?r
  then obtain p q c r where d: "s = p @ q @ c # r" "p \<noteq> []" "\<forall>x \<in> set p. is_terminal x" "\<forall>x \<in> set q. is_closing x"
    "py_isspace c" "n = length p + length q" by blast
  have c: "\<not> is_terminal c" "\<not> is_closing c" using d(5) terminal_not_space closing_not_space by blast+
  have nq: "\<forall>x \<in> set q. \<not> is_terminal x" using d(4) terminal_not_closing by blast
  have t: "takeWhile is_terminal (q @ c # r) = []" "dropWhile is_terminal (q @ c # r) = q @ c # r"
    using nq c(1) by (cases q; simp)+
  have u: "takeWhile is_terminal s = p" "dropWhile is_terminal s = q @ c # r"
    using d(3) t unfolding d(1) by (simp_all add: takeWhile_append dropWhile_append)
  have v: "takeWhile is_closing (q @ c # r) = q" "dropWhile is_closing (q @ c # r) = c # r"
    using d(4) c(2) by (simp_all add: takeWhile_append dropWhile_append)
  show ?l using d(2, 5, 6) c by (simp add: match_here_def u v)
qed

lemma match_here_extend: "match_here s = Some n \<Longrightarrow> match_here (s @ t) = Some n"
  unfolding match_here_iff by (metis append.assoc append_Cons)

lemma match_here_restrict:
  assumes "match_here (s @ t) = Some n" "n < length s"
  shows "match_here s = Some n"
proof -
  obtain p q c r where d: "s @ t = (p @ q) @ c # r" "p \<noteq> []" "\<forall>x \<in> set p. is_terminal x" "\<forall>x \<in> set q. is_closing x"
    "py_isspace c" "n = length (p @ q)" using assms(1) by (auto simp: match_here_iff)
  have "take n s = p @ q" "s ! n = c"
    using arg_cong [OF d(1), of "take n"] arg_cong [OF d(1), of "\<lambda>x. x ! n"] assms(2) d(6) by (simp_all add: nth_append)
  then have "s = p @ q @ c # drop (Suc n) s" using assms(2) by (metis append.assoc id_take_nth_drop)
  then show ?thesis using d(2-6) unfolding match_here_iff by (metis length_append)
qed

lemma match_here_chars: "match_here s = Some n \<Longrightarrow> c \<in> set (take n s) \<Longrightarrow> \<not> py_isspace c"
  using terminal_not_space closing_not_space by (auto simp: match_here_iff)

lemma search_end_space: "search_end s = Some (i, j) \<Longrightarrow> \<exists>c \<in> set s. py_isspace c"
proof (induction s arbitrary: i j)
  case (Cons c cs)
  show ?case
  proof (cases "match_here (c # cs)")
    case (Some n)
    then obtain p q x r where "c # cs = p @ q @ x # r" "py_isspace x" by (auto simp: match_here_iff)
    then show ?thesis by (metis in_set_conv_decomp append.assoc)
  qed (use Cons in \<open>auto split: option.splits\<close>)
qed simp

lemma search_end_extend: "search_end s = Some (i, j) \<Longrightarrow> search_end (s @ t) = Some (i, j)"
proof (induction s arbitrary: i j)
  case (Cons c cs)
  show ?case
  proof (cases "match_here (c # cs)")
    case (Some n)
    then show ?thesis using Cons.prems match_here_extend [OF Some, of t] by simp
  next
    case None
    then obtain i' j' where r: "search_end cs = Some (i', j')" "i = Suc i'" "j = Suc j'" using Cons.prems by auto
    have "match_here ((c # cs) @ t) = None"
    proof (rule ccontr)
      assume "match_here ((c # cs) @ t) \<noteq> None"
      then obtain n where n: "match_here ((c # cs) @ t) = Some n" by auto
      then have "length (c # cs) \<le> n" using match_here_restrict [OF n] None by (cases "n < length (c # cs)") auto
      then have "set cs \<subseteq> set (take n ((c # cs) @ t))" by (auto simp: take_Cons')
      then show False using search_end_space [OF r(1)] match_here_chars [OF n] by blast
    qed
    then show ?thesis using Cons.IH [OF r(1)] r(2, 3) by simp
  qed
qed simp

lemma sentence_end_extend:
  assumes "sentence_end b from = Some (i, j)"
  shows "sentence_end (b @ t) from = Some (i, j)"
proof -
  have "from \<le> length b" using sentence_end_bounds [OF assms] by linarith
  then show ?thesis using assms search_end_extend by (auto simp: sentence_end_def)
qed

lemma next_cut_extend: "next_cut b from = Some e \<Longrightarrow> next_cut (b @ t) from = Some e"
proof (induction b "from" rule: next_cut.induct)
  case (1 b "from")
  then obtain s' e' where p: "sentence_end b from = Some (s', e')"
    by (metis next_cut_None not_None_eq prod.exhaust)
  have "s' < length b" "e' < length b" using sentence_end_bounds [OF p] by auto
  then show ?case
    using 1(1) [OF p refl] 1(2) by (auto simp: next_cut_Some [OF p] next_cut_Some [OF sentence_end_extend [OF p]] split: if_split_asm)
qed

lemma emit_None: "next_cut b 0 = None \<Longrightarrow> emit_sentences b = ([], b)"
  by (subst emit_sentences.simps) simp

lemma emit_Some:
  "next_cut b 0 = Some e \<Longrightarrow> emit_sentences (drop e b) = (out, rest) \<Longrightarrow> emit_sentences b =
    (let sentence = py_strip (take e b) in (if sentence \<noteq> [] then sentence # out else out, rest))"
  by (subst emit_sentences.simps) simp

lemma emit_append:
  "emit_sentences b = (out, rest) \<Longrightarrow> emit_sentences (rest @ t) = (out', rest') \<Longrightarrow> emit_sentences (b @ t) = (out @ out', rest')"
proof (induction b arbitrary: out rule: emit_sentences.induct)
  case (1 b)
  show ?case
  proof (cases "next_cut b 0")
    case None
    then show ?thesis using 1(2, 3) by (simp add: emit_None)
  next
    case (Some e)
    obtain out1 rest1 where r: "emit_sentences (drop e b) = (out1, rest1)" by force
    have e: "e < length b" using next_cut_bounds [OF Some] by simp
    have rest: "rest1 = rest" using 1(2) by (simp add: emit_Some [OF Some r] Let_def)
    have ih: "emit_sentences (drop e b @ t) = (out1 @ out', rest')" using 1(1) [OF Some, of out1] r rest 1(3) by simp
    have "drop e (b @ t) = drop e b @ t" "take e (b @ t) = take e b" using e by simp_all
    then show ?thesis
      using 1(2) ih emit_Some [OF next_cut_extend [OF Some], of t "out1 @ out'" rest'] by (auto simp: emit_Some [OF Some r] Let_def)
  qed
qed

abbreviation stream_text :: "string option list \<Rightarrow> string" where
  "stream_text deltas \<equiv> concat (map (\<lambda>d. case d of None \<Rightarrow> [] | Some x \<Rightarrow> x) deltas)"

lemma emit_rest: "emit_sentences b = (out, rest) \<Longrightarrow> next_cut rest 0 = None"
proof (induction b arbitrary: out rule: emit_sentences.induct)
  case (1 b)
  show ?case
  proof (cases "next_cut b 0")
    case None
    then show ?thesis using 1(2) by (simp add: emit_None)
  next
    case (Some e)
    obtain out1 rest1 where r: "emit_sentences (drop e b) = (out1, rest1)" by force
    then show ?thesis using 1(1) [OF Some] 1(2) by (simp add: emit_Some [OF Some r] Let_def)
  qed
qed

lemma read_stream_emit: "next_cut buffer 0 = None \<Longrightarrow> read_stream buffer deltas = emit_sentences (buffer @ stream_text deltas)"
proof (induction deltas arbitrary: buffer)
  case (Cons delta deltas)
  show ?case
  proof (cases "delta = None \<or> delta = Some []")
    case True
    then show ?thesis using Cons by auto
  next
    case False
    then obtain d where d: "delta = Some d" "d \<noteq> []" by auto
    obtain out rest where r: "emit_sentences (buffer @ d) = (out, rest)" by force
    obtain out' rest' where r': "emit_sentences (rest @ stream_text deltas) = (out', rest')" by force
    show ?thesis
      using Cons.IH [OF emit_rest [OF r]] emit_append [OF r r'] by (simp add: d r r')
  qed
qed (simp add: emit_None)

lemma next_cut_Nil: "next_cut [] 0 = None"
  by (rule next_cut_None) (simp add: sentence_end_def)

lemmas read_stream_whole = read_stream_emit [OF next_cut_Nil, simplified]

section \<open>Nothing is lost\<close>

abbreviation visible :: "string \<Rightarrow> string" where
  "visible s \<equiv> filter (\<lambda>c. \<not> py_isspace c) s"

lemma visible_dropWhile: "visible (dropWhile py_isspace s) = visible s"
  by (induction s) auto

lemma visible_strip: "visible (py_strip s) = visible s"
proof -
  have "visible (py_rstrip t) = visible t" for t
    unfolding py_rstrip_def rev_filter [symmetric] visible_dropWhile by (simp add: rev_filter)
  then show ?thesis by (simp add: py_strip_def py_lstrip_def visible_dropWhile)
qed

lemma emit_sound:
  "emit_sentences b = (out, rest) \<Longrightarrow> visible (concat out @ rest) = visible b \<and> (\<forall>x \<in> set out. x \<noteq> [] \<and> py_strip x = x)"
proof (induction b arbitrary: out rule: emit_sentences.induct)
  case (1 b)
  show ?case
  proof (cases "next_cut b 0")
    case None
    then show ?thesis using 1(2) by (simp add: emit_None)
  next
    case (Some e)
    obtain out1 rest1 where r: "emit_sentences (drop e b) = (out1, rest1)" by force
    have v: "visible (py_strip (take e b)) @ visible (drop e b) = visible b"
      unfolding visible_strip filter_append [symmetric] by simp
    have "out = (if py_strip (take e b) \<noteq> [] then py_strip (take e b) # out1 else out1)" "rest1 = rest"
      using 1(2) by (simp_all add: emit_Some [OF Some r] Let_def)
    moreover have "visible (concat out1 @ rest1) = visible (drop e b) \<and> (\<forall>x \<in> set out1. x \<noteq> [] \<and> py_strip x = x)"
      using 1(1) [OF Some] r \<open>rest1 = rest\<close> by simp
    ultimately show ?thesis using v by (auto split: if_split_asm)
  qed
qed

text \<open>C7: The spoken sentences do not depend on how the model's tokens arrive, and no text is lost. Any two streams with
  the same text give the same sentences; they contain every visible character of that text in order, none of them is
  blank or has outer whitespace; and a stream that breaks off has delivered, before the error, a prefix of the sentences
  any continuation of it would have delivered.\<close>

theorem sentences_independent_of_tokens:
  assumes "stream_text ds = stream_text ds'" "stream_complete_provider ds False = (out, e)"
    and "stream_complete_provider early True = (pre, e')" "stream_complete_provider (early @ late) False = (full, e'')"
  shows "stream_complete_provider ds' False = (out, None)
    \<and> visible (concat out) = visible (stream_text ds) \<and> (\<forall>x \<in> set out. x \<noteq> [] \<and> py_strip x = x)
    \<and> e' = Some (DomainErr LlmProviderError ''LLM provider failed'') \<and> prefix pre full"
proof -
  obtain o1 r1 where w: "emit_sentences (stream_text ds) = (o1, r1)" by force
  have out: "out = o1 @ (if py_strip r1 \<noteq> [] then [py_strip r1] else [])" "stream_complete_provider ds' False = (out, None)"
    using assms(1, 2) w by (auto simp: stream_complete_provider_def read_stream_whole Let_def)
  have v: "visible (concat out) = visible (concat o1) @ visible (py_strip r1)" unfolding out(1) by simp
  obtain o2 r2 where w2: "emit_sentences (stream_text early) = (o2, r2)" by force
  obtain o3 r3 where w3: "emit_sentences (r2 @ stream_text late) = (o3, r3)" by force
  have "emit_sentences (stream_text (early @ late)) = (o2 @ o3, r3)" using emit_append [OF w2 w3] by simp
  then have "pre = o2" "e' = Some (DomainErr LlmProviderError ''LLM provider failed'')" "prefix o2 full"
    using assms(3, 4) w2 by (auto simp: stream_complete_provider_def read_stream_whole Let_def)
  then show ?thesis using emit_sound [OF w] out v by (auto simp: visible_strip)
qed

theorem sentences_independent_of_tokens_witness:
  "stream_complete_provider [Some ''Hi Mr. X! Ho'', Some ''w are you?''] False = ([''Hi Mr. X!'', ''How are you?''], None)"
proof -
  have a: "stream_complete_provider [Some ''Hi M'', Some ''r. X!'', None, Some '' How are you?''] False = ([''Hi Mr. X!'', ''How are you?''], None)"
    by code_simp
  have b: "stream_complete_provider [Some ''Hi M'', Some ''r. X!''] True = ([], Some (DomainErr LlmProviderError ''LLM provider failed''))"
    by code_simp
  have t: "stream_text [Some ''Hi M'', Some ''r. X!'', None, Some '' How are you?''] = stream_text [Some ''Hi Mr. X! Ho'', Some ''w are you?'']"
    by simp
  show ?thesis
    using sentences_independent_of_tokens [OF t a b, of "[None, Some '' How are you?'']"] a by simp
qed

text \<open>An answer without choices escapes the guard of the blocking call: the caller sees no provider error.\<close>

lemma empty_choices_escape:
  "(\<And>ms. create ms = Inr []) \<Longrightarrow> complete_provider create prompt history = Inl (OtherErr ''IndexError'')"
  by (simp add: complete_provider_def)

end
