(* ===== verification/Edge.thy ===== *)
theory Edge
  imports PyStr Errors
begin

text \<open>
  The edge of the backend: the body limit and the response headers of the ASGI middleware
  (\<^verbatim>\<open>app/api/middleware.py\<close>) and the bounded multipart parser (\<^verbatim>\<open>app/core/http/multipart.py\<close>). What the application reads and sends is a list of
  messages; Starlette's form parser is an argument. Log lines are not modelled.
\<close>

section \<open>Content length\<close>

text \<open>\<open>str.isdigit\<close> also holds of the three superscript digits of Latin-1, which \<open>int\<close> refuses.\<close>

definition is_digit_char :: "char \<Rightarrow> bool" where
  "is_digit_char c \<longleftrightarrow> is_ascii_digit c \<or> of_char c \<in> {178, 179, 185 :: nat}"

definition py_isdigit :: "string \<Rightarrow> bool" where
  "py_isdigit s \<longleftrightarrow> s \<noteq> [] \<and> list_all is_digit_char s"

definition declared_too_large :: "nat \<Rightarrow> string option \<Rightarrow> error + bool" where
  "declared_too_large limit declared = (case declared of None \<Rightarrow> Inr False
    | Some s \<Rightarrow> if \<not> py_isdigit s then Inr False
        else (case py_int_of_str s of None \<Rightarrow> Inl (OtherErr ''ValueError'') | Some n \<Rightarrow> Inr (n > int limit)))"

section \<open>Body limit\<close>

datatype body_message = BodyChunk "nat list" | Disconnect

definition chunk_size :: "body_message \<Rightarrow> nat" where
  "chunk_size m = (case m of BodyChunk b \<Rightarrow> length b | Disconnect \<Rightarrow> 0)"

text \<open>What the application receives when it reads on, and whether a read raised.\<close>

fun counting_receive :: "nat \<Rightarrow> nat \<Rightarrow> body_message list \<Rightarrow> body_message list \<times> error option" where
  "counting_receive limit seen [] = ([], None)"
| "counting_receive limit seen (m # ms) =
     (let seen' = seen + chunk_size m in
      if seen' > limit then ([], Some (DomainErr PayloadTooLargeError ''Request body too large''))
      else (case counting_receive limit seen' ms of (out, e) \<Rightarrow> (m # out, e)))"

datatype limited = Rejected413 | Crashed error | Forwarded "body_message list" "error option"

definition body_size_limit :: "nat \<Rightarrow> bool \<Rightarrow> string option \<Rightarrow> body_message list \<Rightarrow> limited" where
  "body_size_limit limit is_http declared msgs =
     (if \<not> is_http then Forwarded msgs None
      else case declared_too_large limit declared of
          Inl e \<Rightarrow> Crashed e
        | Inr True \<Rightarrow> Rejected413
        | Inr False \<Rightarrow> (case counting_receive limit 0 msgs of (out, e) \<Rightarrow> Forwarded out e))"

abbreviation total_size :: "body_message list \<Rightarrow> nat" where
  "total_size ms \<equiv> sum_list (map chunk_size ms)"

lemma counting_receive_bound:
  assumes "counting_receive limit seen ms = (out, e)" "seen \<le> limit"
  shows "seen + total_size out \<le> limit \<and> prefix out ms \<and> (seen + total_size ms \<le> limit \<longleftrightarrow> e = None)
    \<and> (e = None \<longrightarrow> out = ms) \<and> (e = None \<or> e = Some (DomainErr PayloadTooLargeError ''Request body too large''))"
  using assms
proof (induction ms arbitrary: seen out e)
  case (Cons m ms)
  obtain out' e' where r: "counting_receive limit (seen + chunk_size m) ms = (out', e')"
    by (cases "counting_receive limit (seen + chunk_size m) ms")
  show ?case using Cons.IH [OF r] Cons.prems r by (auto simp: Let_def add.assoc split: if_split_asm)
qed auto



section \<open>Response headers\<close>

type_synonym headers = "(string \<times> string) list"

definition same_header :: "string \<Rightarrow> string \<times> string \<Rightarrow> bool" where
  "same_header name h \<longleftrightarrow> py_lower (fst h) = py_lower name"

definition has_header :: "string \<Rightarrow> headers \<Rightarrow> bool" where
  "has_header name hs \<longleftrightarrow> list_ex (same_header name) hs"

definition get_header :: "string \<Rightarrow> headers \<Rightarrow> string option" where
  "get_header name hs = map_option snd (List.find (same_header name) hs)"

text \<open>Assignment replaces the first such header, drops the others, and appends when there is none; names are stored in
  lower case.\<close>

fun set_header :: "string \<Rightarrow> string \<Rightarrow> headers \<Rightarrow> headers" where
  "set_header name v [] = [(py_lower name, v)]"
| "set_header name v (h # hs) =
     (if same_header name h then (py_lower name, v) # filter (\<lambda>x. \<not> same_header name x) hs else h # set_header name v hs)"

definition SECURITY_HEADERS :: headers where
  "SECURITY_HEADERS =
    [(''X-Content-Type-Options'', ''nosniff''), (''X-Frame-Options'', ''DENY''), (''Referrer-Policy'', ''no-referrer''),
     (''Content-Security-Policy'', ''default-src '' @ [CHR 0x27] @ ''none'' @ [CHR 0x27] @ ''; base-uri '' @ [CHR 0x27] @ ''none'' @ [CHR 0x27]
       @ ''; frame-ancestors '' @ [CHR 0x27] @ ''none'' @ [CHR 0x27] @ ''; form-action '' @ [CHR 0x27] @ ''self'' @ [CHR 0x27]
       @ ''; img-src '' @ [CHR 0x27] @ ''self'' @ [CHR 0x27] @ '' data:; style-src '' @ [CHR 0x27] @ ''self'' @ [CHR 0x27] @ '' '' @ [CHR 0x27] @ ''unsafe-inline'' @ [CHR 0x27]
       @ ''; script-src '' @ [CHR 0x27] @ ''self'' @ [CHR 0x27] @ '' '' @ [CHR 0x27] @ ''unsafe-inline'' @ [CHR 0x27] @ ''; connect-src '' @ [CHR 0x27] @ ''self'' @ [CHR 0x27]),
     (''Permissions-Policy'', ''accelerometer=(), ambient-light-sensor=(), autoplay=(), battery=(), camera=(), display-capture=(), document-domain=(), encrypted-media=(), fullscreen=(), geolocation=(), gyroscope=(), magnetometer=(), microphone=(), midi=(), payment=(), picture-in-picture=(), publickey-credentials-get=(), screen-wake-lock=(), sync-xhr=(), usb=(), web-share=(), xr-spatial-tracking=()'')]"

definition HSTS_HEADER :: string where "HSTS_HEADER = ''max-age=63072000; includeSubDomains; preload''"

definition add_missing :: "string \<times> string \<Rightarrow> headers \<Rightarrow> headers" where
  "add_missing h hs = (if has_header (fst h) hs then hs else set_header (fst h) (snd h) hs)"

definition is_https :: "string \<Rightarrow> headers \<Rightarrow> bool" where
  "is_https scheme hs =
     (let forwarded = (case get_header ''X-Forwarded-Proto'' hs of None \<Rightarrow> [] | Some v \<Rightarrow> v)
      in scheme = ''https'' \<or> py_strip (hd (split_char (CHR '','') (py_lower forwarded))) = ''https'')"

text \<open>\<open>fresh\<close> is the identifier generated when the request brings none.\<close>

definition request_id :: "string \<Rightarrow> headers \<Rightarrow> string" where
  "request_id fresh request_headers = (case get_header ''X-Request-ID'' request_headers of
     None \<Rightarrow> fresh | Some v \<Rightarrow> if v = [] then fresh else v)"

definition response_headers :: "bool \<Rightarrow> string \<Rightarrow> string \<Rightarrow> headers \<Rightarrow> headers \<Rightarrow> headers" where
  "response_headers enable_hsts scheme fresh request_headers hs =
     (let h1 = set_header ''X-Request-ID'' (request_id fresh request_headers) hs;
          h2 = fold add_missing SECURITY_HEADERS h1
      in if enable_hsts \<and> is_https scheme request_headers then add_missing (''Strict-Transport-Security'', HSTS_HEADER) h2 else h2)"

lemma get_set_same: "get_header name (set_header name v hs) = Some v"
  by (induction hs) (auto simp: get_header_def same_header_def)

lemma find_filter_other:
  assumes "py_lower other \<noteq> py_lower name"
  shows "List.find (same_header other) (filter (\<lambda>x. \<not> same_header name x) hs) = List.find (same_header other) hs"
  using assms by (induction hs) (auto simp: same_header_def)

lemma get_set_other: "py_lower other \<noteq> py_lower name \<Longrightarrow> get_header other (set_header name v hs) = get_header other hs"
proof (induction hs)
  case (Cons h hs)
  have "same_header name h \<Longrightarrow> \<not> same_header other h" "\<not> same_header other (py_lower name, v)"
    using Cons.prems by (auto simp: same_header_def)
  then show ?case using Cons by (cases h) (auto simp: get_header_def find_filter_other)
qed (simp add: get_header_def same_header_def)

lemma has_header_get: "has_header name hs \<longleftrightarrow> get_header name hs \<noteq> None"
  by (auto simp: has_header_def get_header_def find_None_iff list_ex_iff)

lemma get_add_missing:
  "get_header name (add_missing h hs)
   = (if get_header name hs = None \<and> py_lower name = py_lower (fst h) then Some (snd h) else get_header name hs)"
proof (cases "py_lower name = py_lower (fst h)")
  case True
  then have "same_header name = same_header (fst h)" by (auto simp: same_header_def)
  then have "get_header name xs = get_header (fst h) xs" for xs by (simp add: get_header_def)
  then show ?thesis using True by (auto simp: add_missing_def has_header_get get_set_same)
next
  case False
  then show ?thesis by (simp add: add_missing_def get_set_other)
qed

lemma get_fold_missing:
  "get_header name (fold add_missing ds hs) = (case get_header name hs of
     Some v \<Rightarrow> Some v | None \<Rightarrow> map_option snd (List.find (same_header name) ds))"
  by (induction ds arbitrary: hs) (auto simp: get_add_missing same_header_def split: option.split)

lemma response_headers_complete:
  assumes "(n, v) \<in> set SECURITY_HEADERS"
  shows "get_header n (response_headers hsts scheme fresh req hs) = Some (case get_header n hs of None \<Rightarrow> v | Some w \<Rightarrow> w)"
    "get_header ''X-Request-ID'' (response_headers hsts scheme fresh req hs) = Some (request_id fresh req)"
proof -
  have names: "list_all (\<lambda>(n, v). map_option snd (List.find (same_header n) SECURITY_HEADERS) = Some v
      \<and> py_lower n \<noteq> py_lower ''X-Request-ID'' \<and> py_lower n \<noteq> py_lower ''Strict-Transport-Security'') SECURITY_HEADERS"
    by code_simp
  have hs: "py_lower ''X-Request-ID'' \<noteq> py_lower ''Strict-Transport-Security''" by code_simp
  have n: "map_option snd (List.find (same_header n) SECURITY_HEADERS) = Some v" "py_lower n \<noteq> py_lower ''X-Request-ID''"
    "py_lower n \<noteq> py_lower ''Strict-Transport-Security''" using names assms by (auto simp: list_all_iff)
  show "get_header n (response_headers hsts scheme fresh req hs) = Some (case get_header n hs of None \<Rightarrow> v | Some w \<Rightarrow> w)"
    by (simp add: response_headers_def Let_def get_add_missing get_fold_missing get_set_other n split: option.split)
  show "get_header ''X-Request-ID'' (response_headers hsts scheme fresh req hs) = Some (request_id fresh req)"
    using hs by (simp add: response_headers_def Let_def get_add_missing get_fold_missing get_set_same)
qed

section \<open>Multipart uploads\<close>

datatype form_value = FileField "nat list" | TextField string

definition form_get :: "string \<Rightarrow> (string \<times> form_value) list \<Rightarrow> form_value option" where
  "form_get k items = map_of (rev items) k"

definition text_fields :: "string \<Rightarrow> (string \<times> form_value) list \<Rightarrow> (string \<times> string) list" where
  "text_fields audio_field items =
     List.map_filter (\<lambda>(k, v). case v of TextField t \<Rightarrow> if k \<noteq> audio_field then Some (k, t) else None | FileField _ \<Rightarrow> None) (rev items)"

text \<open>\<open>parse\<close> reads the stream: \<open>None\<close> is the parser's exception. A repeated field keeps its last value.\<close>

definition parse_bounded_multipart ::
  "(string \<times> form_value) list option \<Rightarrow> string \<Rightarrow> nat \<Rightarrow> string option \<Rightarrow> error + (nat list \<times> (string \<times> string) list)" where
  "parse_bounded_multipart parse audio_field max_bytes declared = (case declared_too_large max_bytes declared of
      Inl e \<Rightarrow> Inl e
    | Inr True \<Rightarrow> Inl (HttpErr 413 ''Audio upload too large'' [])
    | Inr False \<Rightarrow> (case parse of None \<Rightarrow> Inl (HttpErr 422 ''Malformed multipart upload'' [])
      | Some items \<Rightarrow> (case form_get audio_field items of
          Some (FileField data) \<Rightarrow> if length data > max_bytes then Inl (HttpErr 413 ''Audio upload too large'' [])
            else Inr (data, text_fields audio_field items)
        | _ \<Rightarrow> Inl (HttpErr 422 (''Missing '' @ [CHR 0x27] @ audio_field @ [CHR 0x27] @ '' file part'') []))))"

definition read_bounded_audio :: "(string \<times> form_value) list option \<Rightarrow> string \<Rightarrow> nat \<Rightarrow> string option \<Rightarrow> error + nat list" where
  "read_bounded_audio parse field_name max_bytes declared = (case parse_bounded_multipart parse field_name max_bytes declared of
     Inl e \<Rightarrow> Inl e | Inr (data, _) \<Rightarrow> Inr data)"

lemma parse_bounded_size: "parse_bounded_multipart parse audio_field max_bytes declared = Inr (data, parts) \<Longrightarrow> length data \<le> max_bytes"
  by (auto simp: parse_bounded_multipart_def split: sum.splits bool.splits option.splits form_value.splits if_split_asm)

end
