(* ===== verification/PyNum.thy ===== *)
theory PyNum
  imports Prelude
begin

text \<open>
  Python's rounding, on reals: the scorers of both services round their results to a thousandth.
\<close>

text \<open>\<open>round(x, 3)\<close>: to the nearest thousandth, a tie to the even one.\<close>

definition round_half_even :: "real \<Rightarrow> int" where
  "round_half_even x = (let f = \<lfloor>x\<rfloor>; r = x - of_int f in
     if r < 1 / 2 then f else if r > 1 / 2 then f + 1 else if even f then f else f + 1)"

definition round3 :: "real \<Rightarrow> real" where
  "round3 x = of_int (round_half_even (x * 1000)) / 1000"

lemma round3_unit:
  assumes "0 \<le> x" "x \<le> 1"
  shows "0 \<le> round3 x" "round3 x \<le> 1"
proof -
  define f where "f = \<lfloor>x * 1000\<rfloor>"
  have f: "0 \<le> f" "f \<le> 1000" using assms by (simp_all add: f_def floor_le_iff)
  have top: "f = 1000 \<Longrightarrow> x * 1000 = of_int f" using assms unfolding f_def by linarith
  have re: "round_half_even (x * 1000) = f \<or> f < 1000 \<and> round_half_even (x * 1000) = f + 1"
    using f(2) top by (cases "f = 1000") (auto simp: round_half_even_def Let_def f_def [symmetric])
  have "round_half_even (x * 1000) \<le> 1000" using re f by linarith
  moreover have "0 \<le> round_half_even (x * 1000)" using re f by linarith
  ultimately show "0 \<le> round3 x" "round3 x \<le> 1" by (simp_all add: round3_def)
qed

end
