(* ===== verification/Drills.thy ===== *)
theory Drills
  imports Conversation PyNum
begin

text \<open>
  The speaking drills: shadowing (\<^verbatim>\<open>app/features/shadowing\<close>), the word scores behind it
  (\<^verbatim>\<open>app/features/pronunciation/scorer.py\<close>) and minimal pairs (\<^verbatim>\<open>app/features/minimal_pairs\<close>).
  Speech recognition, the phoneme engine, the language model, the decoder and the parsed multipart body are
  arguments; probabilities are reals. Em dashes of the source's texts are hyphens here.
\<close>

section \<open>Word diff\<close>

record word_comparison =
  wc_target :: string
  wc_heard :: bool
  wc_score :: "real option"
  wc_confidence :: "real option"

definition tokens :: "string \<Rightarrow> string list" where
  "tokens text = word_findall (py_lower text)"

definition normalize_word :: "string \<Rightarrow> string" where
  "normalize_word w = concat (word_findall (py_lower w))"

fun compare_loop :: "(string \<Rightarrow> nat) \<Rightarrow> string list \<Rightarrow> word_comparison list" where
  "compare_loop available [] = []"
| "compare_loop available (raw # raws) =
     (let normalized = normalize_word raw
      in if normalized = [] then compare_loop available raws
         else let heard = available normalized > 0;
                  available' = (if heard then available(normalized := available normalized - 1) else available)
           in \<lparr>wc_target = raw, wc_heard = heard, wc_score = None, wc_confidence = None\<rparr> # compare_loop available' raws)"

definition compare_words :: "string \<Rightarrow> string \<Rightarrow> word_comparison list" where
  "compare_words target transcript = compare_loop (count_list (tokens transcript)) (py_split target)"

definition missed_words :: "word_comparison list \<Rightarrow> string list" where
  "missed_words cs = map wc_target (filter (\<lambda>c. \<not> wc_heard c) cs)"

section \<open>Word scores\<close>

record transcript_word =
  tw_word :: string
  tw_probability :: "real option"

record verbose_transcript =
  vt_text :: string
  vt_words :: "transcript_word list"

record word_score =
  ws_word :: string
  ws_score :: "real option"
  ws_confidence :: "real option"

definition PRESENCE_CONFIDENCE :: real where "PRESENCE_CONFIDENCE = 7 / 10"

fun bucket_words :: "transcript_word list \<Rightarrow> (string \<Rightarrow> real option list) \<Rightarrow> (string \<Rightarrow> real option list)" where
  "bucket_words [] heard = heard"
| "bucket_words (w # ws) heard =
     (let key = normalize_word (tw_word w)
      in bucket_words ws (if key = [] then heard else heard(key := heard key @ [tw_probability w])))"

fun score_loop :: "(string \<Rightarrow> real option list) \<Rightarrow> string list \<Rightarrow> word_score list" where
  "score_loop heard [] = []"
| "score_loop heard (raw # raws) =
     (let key = normalize_word raw
      in if key = [] then score_loop heard raws
         else case heard key of
             [] \<Rightarrow> \<lparr>ws_word = raw, ws_score = Some 0, ws_confidence = Some PRESENCE_CONFIDENCE\<rparr> # score_loop heard raws
           | p # ps \<Rightarrow> \<lparr>ws_word = raw,
                 ws_score = Some (case p of None \<Rightarrow> 1 | Some x \<Rightarrow> round3 (max 0 (min 1 x))),
                 ws_confidence = Some PRESENCE_CONFIDENCE\<rparr> # score_loop (heard(key := ps)) raws)"

definition score_words :: "string \<Rightarrow> verbose_transcript \<Rightarrow> word_score list" where
  "score_words target verbose =
     (if vt_words verbose = []
      then map (\<lambda>raw. \<lparr>ws_word = raw, ws_score = None, ws_confidence = None\<rparr>)
             (filter (\<lambda>raw. normalize_word raw \<noteq> []) (py_split target))
      else score_loop (bucket_words (vt_words verbose) (\<lambda>_. [])) (py_split target))"

definition merge_scores :: "word_comparison list \<Rightarrow> word_score list \<Rightarrow> word_comparison list" where
  "merge_scores heard scores =
     map (\<lambda>(h, s). h\<lparr>wc_score := ws_score s, wc_confidence := ws_confidence s\<rparr>) (zip heard scores)"

section \<open>Shadowing\<close>

record phrase =
  ph_text :: string
  ph_focus :: string
  ph_tip :: string

definition VALID_FOCUS :: "string list" where
  "VALID_FOCUS = [''th'', ''h'', ''ship_sheep'', ''ed_endings'', ''word_stress'', ''general'']"

definition FALLBACK_BY_LEVEL :: "(string \<times> phrase) list" where
  "FALLBACK_BY_LEVEL =
     [(''A1'', \<lparr>ph_text = ''This is my house.'', ph_focus = ''th'', ph_tip = ''Put your tongue between your teeth for '' @ [CHR 0x27] @ ''th'' @ [CHR 0x27] @ ''.''\<rparr>),
      (''A2'', \<lparr>ph_text = ''The ship is sinking.'', ph_focus = ''ship_sheep'', ph_tip = ''Keep the vowel short in '' @ [CHR 0x27] @ ''ship'' @ [CHR 0x27] @ ''.''\<rparr>),
      (''B1'', \<lparr>ph_text = ''He happily helped her.'', ph_focus = ''h'', ph_tip = ''Breathe out the '' @ [CHR 0x27] @ ''h'' @ [CHR 0x27] @ '' - don'' @ [CHR 0x27] @ ''t drop it.''\<rparr>),
      (''B2'', \<lparr>ph_text = ''I thought they worked hard.'', ph_focus = ''ed_endings'',
         ph_tip = ''The '' @ [CHR 0x27] @ ''-ed'' @ [CHR 0x27] @ '' in '' @ [CHR 0x27] @ ''worked'' @ [CHR 0x27] @ '' sounds like /t/.''\<rparr>)]"

definition fallback_phrase :: "string \<Rightarrow> phrase" where
  "fallback_phrase level = (case map_of FALLBACK_BY_LEVEL (py_upper level) of
     Some p \<Rightarrow> p | None \<Rightarrow> the (map_of FALLBACK_BY_LEVEL ''A2''))"

text \<open>The language model of the drills with the decoder of its answers and the nonce of the untrusted blocks.\<close>

record drill_llm =
  dl_complete :: "string \<Rightarrow> string list \<Rightarrow> error + string"
  dl_loads :: "string \<Rightarrow> json option"
  dl_str :: "json \<Rightarrow> string"
  dl_nonce :: string

definition phrase_prompt :: "string \<Rightarrow> string" where
  "phrase_prompt cefr_level =
     ''You generate ONE short English phrase for a French speaker to practise by shadowing (reading aloud), suited to CEFR level ''
     @ py_upper cefr_level @ ''. Target a sound French speakers of English struggle with. Reply with ONLY a JSON object, no prose: ''
     @ ''{\"text\": \"<one natural phrase, 3-8 words>\", \"focus\": \"<one of: th, h, ship_sheep, ed_endings, word_stress, general>\", \"tip\": \"<one short articulation tip>\"}''"

definition MAX_TEXT_CHARS :: nat where "MAX_TEXT_CHARS = 200"
definition MAX_TIP_CHARS :: nat where "MAX_TIP_CHARS = 200"
definition MAX_COACHING_CHARS :: nat where "MAX_COACHING_CHARS = 400"

definition generate_phrase :: "drill_llm \<Rightarrow> string \<Rightarrow> phrase" where
  "generate_phrase dl level = (case dl_complete dl (phrase_prompt level) [] of Inl _ \<Rightarrow> fallback_phrase level
    | Inr raw \<Rightarrow> (case parse_json_object (dl_loads dl) raw of None \<Rightarrow> fallback_phrase level
    | Some data \<Rightarrow>
        let text = clip (dl_str dl (json_get data ''text'' (JStr []))) MAX_TEXT_CHARS;
            focus_raw = dl_str dl (json_get data ''focus'' (JStr ''general''))
        in if text = [] then fallback_phrase level
           else \<lparr>ph_text = text, ph_focus = (if focus_raw \<in> set VALID_FOCUS then focus_raw else ''general''),
             ph_tip = clip (dl_str dl (json_get data ''tip'' (JStr []))) MAX_TIP_CHARS\<rparr>))"

definition coaching_of :: "drill_llm \<Rightarrow> string \<Rightarrow> string \<Rightarrow> string" where
  "coaching_of dl prompt context = (case dl_complete dl prompt [context] of Inl _ \<Rightarrow> []
    | Inr raw \<Rightarrow> (case parse_json_object (dl_loads dl) raw of None \<Rightarrow> []
    | Some data \<Rightarrow> clip (dl_str dl (json_get data ''coaching'' (JStr []))) MAX_COACHING_CHARS))"

definition coach_prompt :: "string \<Rightarrow> string" where
  "coach_prompt native_language =
     ''You are a friendly English pronunciation coach for a French speaker. They read a phrase aloud and a speech recognizer missed some words (given as untrusted data below). In ONE or two short sentences, written in the language code ''
     @ [CHR 0x27] @ native_language @ [CHR 0x27]
     @ '', tell them how to say the missed words more clearly (mouth/tongue tip). Be encouraging, concrete, and brief. Reply with ONLY a JSON object: {\"coaching\": \"<your short advice>\"}''"

definition shadowing_coach :: "drill_llm \<Rightarrow> string \<Rightarrow> string list \<Rightarrow> string \<Rightarrow> string" where
  "shadowing_coach dl target missed native_language =
     (if missed = [] then []
      else coaching_of dl (coach_prompt native_language)
        (render_untrusted_block (dl_nonce dl) [(''target_phrase'', target), (''missed_words'', py_join '', '' missed)]))"

record attempt_result =
  ar_transcript :: string
  ar_words :: "word_comparison list"
  ar_missed_words :: "string list"
  ar_coaching :: string
  ar_phonemes :: "(string \<times> real) list"

type_synonym stt_verbose = "nat list \<Rightarrow> error + verbose_transcript"
type_synonym gop = "nat list \<Rightarrow> string \<Rightarrow> error + (string \<times> real) list"

definition score_phonemes :: "gop option \<Rightarrow> string \<Rightarrow> nat list \<Rightarrow> error + (string \<times> real) list" where
  "score_phonemes engine target audio = (case engine of None \<Rightarrow> Inr []
    | Some f \<Rightarrow> (case f audio target of
        Inr ps \<Rightarrow> Inr ps | Inl e \<Rightarrow> if is_llm_error e then Inr [] else Inl e))"

text \<open>Both calls run concurrently; when both raise, the transcription's error is taken.\<close>

definition score_shadowing ::
  "stt_verbose option \<Rightarrow> gop option \<Rightarrow> bool \<Rightarrow> string \<Rightarrow> nat list \<Rightarrow> error + attempt_result" where
  "score_shadowing stt engine allow_score target audio = (case stt of
      None \<Rightarrow> Inl (OtherErr ''RuntimeError'')
    | Some transcribe \<Rightarrow>
        if audio = [] then Inr \<lparr>ar_transcript = [], ar_words = [], ar_missed_words = [], ar_coaching = [], ar_phonemes = []\<rparr>
        else case transcribe audio of Inl e \<Rightarrow> Inl e
          | Inr verbose \<Rightarrow> (case (if allow_score then score_phonemes engine target audio else Inr []) of
              Inl e \<Rightarrow> Inl e
            | Inr phonemes \<Rightarrow>
                let heard = compare_words target (vt_text verbose)
                in Inr \<lparr>ar_transcript = vt_text verbose, ar_words = merge_scores heard (score_words target verbose),
                     ar_missed_words = missed_words heard, ar_coaching = [], ar_phonemes = phonemes\<rparr>))"

definition MAX_TARGET_TEXT_CHARS :: nat where "MAX_TARGET_TEXT_CHARS = 300"

type_synonym form = "unit \<Rightarrow> error + (nat list \<times> (string \<times> string) list)"

definition attempt_route ::
  "stt_verbose option \<Rightarrow> gop option \<Rightarrow> form \<Rightarrow> error option \<Rightarrow> int \<Rightarrow> db \<Rightarrow> error + attempt_result" where
  "attempt_route stt engine form limited uid d = (case limited of Some e \<Rightarrow> Inl e
    | None \<Rightarrow> (case transcription_and_scoring uid d of (allow_transcribe, allow_score) \<Rightarrow>
        if \<not> allow_transcribe then Inl (DomainErr AuthorizationError ''Transcription consent has been revoked'')
        else case form () of Inl e \<Rightarrow> Inl e
          | Inr (audio, parts) \<Rightarrow> (case map_of parts ''target_text'' of
              None \<Rightarrow> Inl (DomainErr ValidationError (''Missing '' @ [CHR 0x27] @ ''target_text'' @ [CHR 0x27] @ '' field''))
            | Some target \<Rightarrow>
                if target = [] then Inl (DomainErr ValidationError (''Missing '' @ [CHR 0x27] @ ''target_text'' @ [CHR 0x27] @ '' field''))
                else if length target > MAX_TARGET_TEXT_CHARS
                then Inl (DomainErr ValidationError ([CHR 0x27] @ ''target_text'' @ [CHR 0x27] @ '' must be at most 300 characters''))
                else score_shadowing stt engine allow_score target audio)))"

definition generate_phrase_route :: "drill_llm \<Rightarrow> error option \<Rightarrow> user \<Rightarrow> error + phrase" where
  "generate_phrase_route dl limited u = (case limited of Some e \<Rightarrow> Inl e | None \<Rightarrow> Inr (generate_phrase dl (u_cefr_level u)))"

definition coach_attempt_route :: "drill_llm \<Rightarrow> error option \<Rightarrow> user \<Rightarrow> string \<Rightarrow> string list \<Rightarrow> error + string" where
  "coach_attempt_route dl limited u target_text missed =
     (if length target_text < 1 \<or> MAX_TARGET_TEXT_CHARS < length target_text \<or> 50 < length missed then Inl (RequestValidationErr [])
      else case limited of Some e \<Rightarrow> Inl e
        | None \<Rightarrow> Inr (shadowing_coach dl target_text missed (u_native_language u)))"

definition synthesize_route :: "(string \<Rightarrow> error + nat list) \<Rightarrow> error option \<Rightarrow> string \<Rightarrow> error + string" where
  "synthesize_route tts limited text =
     (if length text < 1 \<or> 300 < length text then Inl (RequestValidationErr [])
      else case limited of Some e \<Rightarrow> Inl e
        | None \<Rightarrow> (case tts text of Inl e \<Rightarrow> Inl e | Inr audio \<Rightarrow> Inr (b64encode audio)))"

section \<open>Minimal pairs\<close>

record pair_result =
  pr_transcript :: string
  pr_said_target :: bool
  pr_said_other :: bool
  pr_coaching :: string

definition heard_words :: "verbose_transcript \<Rightarrow> string set" where
  "heard_words verbose =
     (if vt_words verbose \<noteq> [] then set (filter (\<lambda>k. k \<noteq> []) (map (\<lambda>w. normalize_word (tw_word w)) (vt_words verbose)))
      else set (filter (\<lambda>k. k \<noteq> []) (map normalize_word (py_split (vt_text verbose)))))"

definition score_pair_attempt :: "string \<Rightarrow> string \<Rightarrow> verbose_transcript \<Rightarrow> pair_result" where
  "score_pair_attempt target other verbose =
     \<lparr>pr_transcript = vt_text verbose, pr_said_target = normalize_word target \<in> heard_words verbose,
      pr_said_other = normalize_word other \<in> heard_words verbose, pr_coaching = []\<rparr>"

definition pair_prompt :: "string \<Rightarrow> string" where
  "pair_prompt native_language =
     ''You are a friendly English pronunciation coach for a French speaker practising a minimal pair (two words differing by one sound). They were asked to say the TARGET word but the recognizer heard something else (untrusted data below). In ONE or two short sentences, written in the language code ''
     @ [CHR 0x27] @ native_language @ [CHR 0x27]
     @ '', tell them how to make the target sound distinct (mouth/tongue tip). Be encouraging and concrete. Reply with ONLY a JSON object: {\"coaching\": \"<your short advice>\"}''"

definition pair_coach :: "drill_llm \<Rightarrow> string \<Rightarrow> string \<Rightarrow> bool \<Rightarrow> string \<Rightarrow> string" where
  "pair_coach dl target other said_other native_language = coaching_of dl (pair_prompt native_language)
     (render_untrusted_block (dl_nonce dl) [(''target_word'', target), (''other_word_of_pair'', other),
        (''said_the_other_word'', if said_other then ''yes'' else ''no'')])"

definition score_pair :: "drill_llm \<Rightarrow> stt_verbose \<Rightarrow> string \<Rightarrow> string \<Rightarrow> nat list \<Rightarrow> string \<Rightarrow> error + pair_result" where
  "score_pair dl stt target other audio native_language =
     (if audio = [] then Inr \<lparr>pr_transcript = [], pr_said_target = False, pr_said_other = False, pr_coaching = []\<rparr>
      else case stt audio of Inl e \<Rightarrow> Inl e
        | Inr verbose \<Rightarrow> let scored = score_pair_attempt target other verbose
            in Inr (if pr_said_target scored then scored
                    else scored\<lparr>pr_coaching := pair_coach dl target other (pr_said_other scored) native_language\<rparr>))"

definition MAX_WORD_CHARS :: nat where "MAX_WORD_CHARS = 50"

definition pair_attempt_route :: "drill_llm \<Rightarrow> stt_verbose \<Rightarrow> form \<Rightarrow> error option \<Rightarrow> user \<Rightarrow> db \<Rightarrow> error + pair_result" where
  "pair_attempt_route dl stt form limited u d = (case limited of Some e \<Rightarrow> Inl e
    | None \<Rightarrow>
        if \<not> may_transcribe (u_id u) d then Inl (DomainErr AuthorizationError ''Transcription consent has been revoked'')
        else case form () of Inl e \<Rightarrow> Inl e
          | Inr (audio, parts) \<Rightarrow>
              let target = (case map_of parts ''target'' of None \<Rightarrow> [] | Some v \<Rightarrow> v);
                  other = (case map_of parts ''other'' of None \<Rightarrow> [] | Some v \<Rightarrow> v)
              in if target = [] \<or> other = [] then Inl (DomainErr ValidationError (''Missing '' @ [CHR 0x27] @ ''target'' @ [CHR 0x27] @ '' or '' @ [CHR 0x27] @ ''other'' @ [CHR 0x27] @ '' field''))
                 else if length target > MAX_WORD_CHARS then Inl (DomainErr ValidationError ([CHR 0x27] @ ''target'' @ [CHR 0x27] @ '' must be at most 50 characters''))
                 else if length other > MAX_WORD_CHARS then Inl (DomainErr ValidationError ([CHR 0x27] @ ''other'' @ [CHR 0x27] @ '' must be at most 50 characters''))
                 else score_pair dl stt target other audio (u_native_language u))"

section \<open>A phrase is always there\<close>

text \<open>Whatever the model answers, and when it fails, the learner gets a phrase to read: not empty, of bounded length, with
  a known focus; and coaching is bounded.\<close>

lemma fallback_phrase_usable:
  "ph_text (fallback_phrase level) \<noteq> [] \<and> length (ph_text (fallback_phrase level)) \<le> 200
    \<and> ph_focus (fallback_phrase level) \<in> set VALID_FOCUS \<and> length (ph_tip (fallback_phrase level)) \<le> 200"
  by (simp add: fallback_phrase_def FALLBACK_BY_LEVEL_def VALID_FOCUS_def)

lemma generate_phrase_usable:
  "ph_text (generate_phrase dl level) \<noteq> [] \<and> length (ph_text (generate_phrase dl level)) \<le> 200
    \<and> ph_focus (generate_phrase dl level) \<in> set VALID_FOCUS \<and> length (ph_tip (generate_phrase dl level)) \<le> 200"
  using fallback_phrase_usable [of level]
  by (auto simp: generate_phrase_def Let_def MAX_TEXT_CHARS_def MAX_TIP_CHARS_def clip_def VALID_FOCUS_def split: sum.split option.split)

lemma coaching_bounded: "length (coaching_of dl prompt context) \<le> 400"
  by (auto simp: coaching_of_def MAX_COACHING_CHARS_def clip_def split: sum.split option.split)

section \<open>What an attempt reports\<close>

definition spoken_words :: "string \<Rightarrow> string list" where
  "spoken_words target = filter (\<lambda>raw. normalize_word raw \<noteq> []) (py_split target)"

lemma compare_loop_targets: "map wc_target (compare_loop av raws) = filter (\<lambda>raw. normalize_word raw \<noteq> []) raws"
  by (induction av raws rule: compare_loop.induct) (simp_all add: Let_def)

lemma compare_loop_heard:
  assumes "k \<noteq> []"
  shows "map wc_heard (filter (\<lambda>c. normalize_word (wc_target c) = k) (compare_loop av raws))
    = (let n = length (filter (\<lambda>r. normalize_word r = k) raws); m = min (av k) n in replicate m True @ replicate (n - m) False)"
proof (induction raws arbitrary: av)
  case (Cons raw raws)
  show ?case
  proof (cases "normalize_word raw = k")
    case True
    show ?thesis
    proof (cases "av k")
      case 0
      then show ?thesis using Cons [of av] True assms by (simp add: Let_def)
    next
      case (Suc n)
      have eq: "compare_loop av (raw # raws)
          = \<lparr>wc_target = raw, wc_heard = True, wc_score = None, wc_confidence = None\<rparr> # compare_loop (av(k := n)) raws"
        using True Suc assms by (simp add: Let_def)
      show ?thesis unfolding eq using Cons [of "av(k := n)"] True Suc by (simp add: Let_def fun_upd_same del: fun_upd_apply)
    qed
  next
    case False
    then show ?thesis using Cons by (cases "normalize_word raw = []") (auto simp: Let_def)
  qed
qed simp

lemma score_loop_words: "map ws_word (score_loop heard raws) = filter (\<lambda>raw. normalize_word raw \<noteq> []) raws"
  by (induction raws arbitrary: heard) (auto simp: Let_def split: list.split)

lemma score_words_words: "map ws_word (score_words target verbose) = spoken_words target"
  by (simp add: score_words_def score_loop_words spoken_words_def comp_def)

lemma score_loop_unit: "s \<in> set (score_loop heard raws) \<Longrightarrow> \<exists>x. ws_score s = Some x \<and> 0 \<le> x \<and> x \<le> 1"
proof (induction raws arbitrary: heard)
  case (Cons raw raws)
  then show ?case
    by (auto simp: Let_def round3_unit split: list.splits if_split_asm option.splits)
qed simp

lemma merge_scores_words:
  assumes "map wc_target heard = map ws_word scores"
  shows "map wc_target (merge_scores heard scores) = map wc_target heard"
    "map wc_heard (merge_scores heard scores) = map wc_heard heard"
    "map wc_score (merge_scores heard scores) = map ws_score scores"
    "map (\<lambda>c. (wc_target c, wc_heard c)) (merge_scores heard scores) = map (\<lambda>c. (wc_target c, wc_heard c)) heard"
  using assms
  by (induction heard scores rule: list_induct2') (auto simp: merge_scores_def)

text \<open>An attempt reports every word of the phrase, each heard word counting once. For any recording that is
  transcribed, the reported words are the words of the target in order, none dropped by the merge with the scores; for
  each normal form, of its \<open>n\<close> occurrences in the target and \<open>m\<close> tokens in the transcript exactly the first
  \<open>min m n\<close> are heard; the missed words are the others, in order; and every score is unknown or between 0 and 1. With
  scoring consent off no phoneme is scored.\<close>

theorem attempt_reports_every_word:
  assumes "score_shadowing (Some transcribe) engine allow_score target audio = Inr r" "audio \<noteq> []" "transcribe audio = Inr v"
  shows "map wc_target (ar_words r) = spoken_words target
    \<and> ar_missed_words r = map wc_target (filter (\<lambda>c. \<not> wc_heard c) (ar_words r))
    \<and> (\<forall>k. k \<noteq> [] \<longrightarrow> (let n = length (filter (\<lambda>w. normalize_word w = k) (py_split target));
            m = min (count_list (tokens (vt_text v)) k) n
         in map wc_heard (filter (\<lambda>c. normalize_word (wc_target c) = k) (ar_words r)) = replicate m True @ replicate (n - m) False))
    \<and> (\<forall>c \<in> set (ar_words r). wc_score c = None \<or> (\<exists>x. wc_score c = Some x \<and> 0 \<le> x \<and> x \<le> 1))
    \<and> (\<not> allow_score \<longrightarrow> ar_phonemes r = [])"
proof -
  let ?h = "compare_words target (vt_text v)" and ?s = "score_words target v"
  have r: "ar_words r = merge_scores ?h ?s" "ar_missed_words r = missed_words ?h" "\<not> allow_score \<longrightarrow> ar_phonemes r = []"
    using assms by (auto simp: score_shadowing_def Let_def split: sum.splits if_split_asm)
  have words: "map wc_target ?h = map ws_word ?s"
    unfolding score_words_words by (simp add: compare_words_def compare_loop_targets spoken_words_def)
  note m = merge_scores_words [OF words]
  have pairs: "map (\<lambda>c. (wc_target c, wc_heard c)) (ar_words r) = map (\<lambda>c. (wc_target c, wc_heard c)) ?h"
    unfolding r(1) by (rule m(4))
  have filt: "map g (filter p (ar_words r)) = map g (filter p ?h)"
    if "\<And>c. g c = g' (wc_target c, wc_heard c)" "\<And>c. p c = p' (wc_target c, wc_heard c)" for g p g' p'
  proof -
    have "map g' (filter p' (map (\<lambda>c. (wc_target c, wc_heard c)) (ar_words r)))
        = map g' (filter p' (map (\<lambda>c. (wc_target c, wc_heard c)) ?h))" unfolding pairs ..
    moreover have "g = (\<lambda>c. g' (wc_target c, wc_heard c))" "p = (\<lambda>c. p' (wc_target c, wc_heard c))" using that by auto
    ultimately show ?thesis by (simp add: filter_map comp_def)
  qed
  have heard: "map wc_heard (filter (\<lambda>c. normalize_word (wc_target c) = k) (ar_words r))
      = map wc_heard (filter (\<lambda>c. normalize_word (wc_target c) = k) ?h)" for k
    by (rule filt [of _ snd _ "\<lambda>p. normalize_word (fst p) = k"]) simp_all
  have missed: "map wc_target (filter (\<lambda>c. \<not> wc_heard c) (ar_words r)) = missed_words ?h"
    unfolding missed_words_def by (rule filt [of _ fst _ "\<lambda>p. \<not> snd p"]) simp_all
  have "wc_score c = None \<or> (\<exists>x. wc_score c = Some x \<and> 0 \<le> x \<and> x \<le> 1)" if "c \<in> set (ar_words r)" for c
  proof -
    have "wc_score c \<in> set (map ws_score ?s)" using that m(3) unfolding r(1) by (metis imageI set_map)
    then show ?thesis using score_loop_unit by (auto simp: score_words_def split: if_split_asm)
  qed
  moreover have "map wc_target (ar_words r) = spoken_words target" unfolding r(1) m(1) words score_words_words ..
  ultimately show ?thesis
    using r(2, 3) missed heard compare_loop_heard by (simp add: compare_words_def Let_def)
qed

theorem attempt_reports_every_word_witness:
  "\<exists>r. score_shadowing (Some (\<lambda>_. Inr \<lparr>vt_text = ''the ship'', vt_words = []\<rparr>)) None True ''The ship, the sheep'' [1] = Inr r
    \<and> map wc_target (ar_words r) = spoken_words ''The ship, the sheep''"
proof -
  obtain r where r: "score_shadowing (Some (\<lambda>_. Inr \<lparr>vt_text = ''the ship'', vt_words = []\<rparr>)) None True ''The ship, the sheep'' [1] = Inr r"
    by (simp add: score_shadowing_def score_phonemes_def Let_def)
  from attempt_reports_every_word [OF r] r show ?thesis by simp
qed

text \<open>A target word with an inner hyphen is compared joined, while the transcript is cut at the hyphen: read perfectly and
  transcribed literally, it is still missed, although the score of the same word is 1.\<close>

lemma hyphenated_word_is_always_missed:
  "missed_words (compare_words ''a well-known fact'' ''a well-known fact'') = [''well-known'']"
  by code_simp

lemma hyphenated_word_scores_full:
  "map ws_score (score_words ''well-known'' \<lparr>vt_text = ''well-known'', vt_words = [\<lparr>tw_word = ''well-known'', tw_probability = None\<rparr>]\<rparr>) = [Some 1]"
proof -
  have n: "normalize_word ''well-known'' = ''wellknown''" "py_split ''well-known'' = [''well-known'']" by code_simp+
  show ?thesis by (simp add: score_words_def n Let_def)
qed

end
