(* ===== verification/Runtime.thy ===== *)
theory Runtime
  imports VoiceData
begin

text \<open>
  The process around the features: the settings and their start-up check (\<^verbatim>\<open>app/config.py\<close>,
  \<^verbatim>\<open>app/core/engines.py\<close>), the factory of language models with its cache and the registry of the clients to
  close (\<^verbatim>\<open>app/core/llm/factory.py\<close>, \<^verbatim>\<open>app/core/http_lifecycle.py\<close>), counters and alerts
  (\<^verbatim>\<open>app/core/metrics.py\<close>, \<^verbatim>\<open>app/core/alerts.py\<close>), and the operational routes and the purge loop of
  \<^verbatim>\<open>app/main.py\<close>. Only the settings that code reads are in the record; what Redis, the database and
  the pronunciation service answer are arguments.
\<close>

section \<open>Settings\<close>

definition ENGINE_FAKE :: string where "ENGINE_FAKE = ''fake''"
definition ENGINE_DEEPSEEK :: string where "ENGINE_DEEPSEEK = ''deepseek''"
definition ENGINE_GROQ :: string where "ENGINE_GROQ = ''groq''"
definition ENGINE_GROQ_FALLBACK :: string where "ENGINE_GROQ_FALLBACK = ''groq_fallback''"
definition ENGINE_GOP :: string where "ENGINE_GOP = ''gop''"

lemmas engine_defs = ENGINE_FAKE_def ENGINE_DEEPSEEK_def ENGINE_GROQ_def ENGINE_GROQ_FALLBACK_def ENGINE_GOP_def

record settings =
  cfg_app_env :: string
  cfg_expose_reset_token :: bool
  cfg_resend_api_key :: string
  cfg_mail_from :: string
  cfg_metrics_token :: string
  cfg_alert_webhook_url :: string
  cfg_jwt_secret :: string
  cfg_purge_interval_seconds :: int
  cfg_trust_proxy_headers :: bool
  cfg_trusted_proxy_count :: int
  cfg_redis_url :: string
  cfg_cors_allow_origins :: string
  cfg_cors_allow_credentials :: bool
  cfg_deepseek_api_key :: string
  cfg_deepseek_base_url :: string
  cfg_deepseek_model :: string
  cfg_deepseek_timeout_seconds :: real
  cfg_deepseek_max_retries :: int
  cfg_voice_engine :: string
  cfg_debrief_engine :: string
  cfg_mission_engine :: string
  cfg_shadowing_engine :: string
  cfg_conversation_stt :: string
  cfg_conversation_tts :: string
  cfg_tts_engine :: string
  cfg_stt_engine :: string
  cfg_groq_api_key :: string
  cfg_groq_base_url :: string
  cfg_groq_llm_model :: string
  cfg_pronunciation_engine :: string
  cfg_gop_service_url :: string
  cfg_gop_service_secret :: string

definition cors_origins_list :: "settings \<Rightarrow> string list" where
  "cors_origins_list s = map py_strip (filter (\<lambda>p. py_strip p \<noteq> []) (split_char (CHR '','') (cfg_cors_allow_origins s)))"

definition drill_tts_enabled :: "settings \<Rightarrow> bool" where
  "drill_tts_enabled s \<longleftrightarrow> cfg_tts_engine s = ''edge''"

definition drill_stt_enabled :: "settings \<Rightarrow> bool" where
  "drill_stt_enabled s \<longleftrightarrow> (if cfg_stt_engine s = ''device'' then False
     else if cfg_stt_engine s = ''groq'' then py_strip (cfg_groq_api_key s) \<noteq> []
     else py_strip (cfg_groq_api_key s) \<noteq> [])"

definition conversation_stt_on_server :: "settings \<Rightarrow> bool" where
  "conversation_stt_on_server s \<longleftrightarrow> cfg_conversation_stt s = ''groq'' \<and> py_strip (cfg_groq_api_key s) \<noteq> []"

definition conversation_tts_on_server :: "settings \<Rightarrow> bool" where
  "conversation_tts_on_server s \<longleftrightarrow> cfg_conversation_tts s = ''edge''"

definition mailer_enabled :: "settings \<Rightarrow> bool" where
  "mailer_enabled s \<longleftrightarrow> py_strip (cfg_resend_api_key s) \<noteq> [] \<and> py_strip (cfg_mail_from s) \<noteq> []"

definition EXAMPLE_JWT_SECRET :: string where
  "EXAMPLE_JWT_SECRET = ''change-me-in-production-use-a-long-random-string''"

definition utf8_length :: "string \<Rightarrow> nat" where
  "utf8_length s = sum_list (map (\<lambda>c. if (of_char c :: nat) < 128 then 1 else 2) s)"

definition is_deployed :: "settings \<Rightarrow> bool" where
  "is_deployed s \<longleftrightarrow> cfg_app_env s \<in> {''staging'', ''production''}"

definition llm_engines :: "settings \<Rightarrow> string list" where
  "llm_engines s = [cfg_voice_engine s, cfg_debrief_engine s, cfg_mission_engine s, cfg_shadowing_engine s]"

text \<open>The message of the \<open>ValueError\<close>, or the settings.\<close>

definition validate_production_safety :: "settings \<Rightarrow> string + settings" where
  "validate_production_safety s =
     (if cfg_expose_reset_token s \<and> is_deployed s then Inl ''EXPOSE_RESET_TOKEN cannot be set in staging/production''
      else if \<not> is_deployed s then Inr s
      else if utf8_length (cfg_jwt_secret s) < 32 then Inl ''JWT_SECRET must be at least 32 bytes in production''
      else if cfg_jwt_secret s = EXAMPLE_JWT_SECRET then Inl ''JWT_SECRET must not use the example value in production''
      else if ''*'' \<in> set (cors_origins_list s) \<and> cfg_cors_allow_credentials s
        then Inl ''CORS_ALLOW_ORIGINS=* cannot be used with credentials in production''
      else if py_strip (cfg_redis_url s) = [] then Inl ''REDIS_URL is required in staging/production''
      else let needs_deepseek = list_ex (\<lambda>e. e \<in> {ENGINE_DEEPSEEK, ENGINE_GROQ_FALLBACK}) (llm_engines s);
               needs_groq = list_ex (\<lambda>e. e \<in> {ENGINE_GROQ, ENGINE_GROQ_FALLBACK}) (llm_engines s)
        in if needs_deepseek \<and> cfg_deepseek_api_key s = []
             then Inl ''DEEPSEEK_API_KEY is required when DeepSeek (or the fallback) is enabled''
           else if needs_groq \<and> cfg_groq_api_key s = [] then Inl ''GROQ_API_KEY is required when Groq (or the fallback) is enabled''
           else if cfg_pronunciation_engine s = ENGINE_GOP \<and> py_strip (cfg_gop_service_url s) = []
             then Inl ''GOP_SERVICE_URL is required when PRONUNCIATION_ENGINE=gop''
           else if cfg_pronunciation_engine s = ENGINE_GOP \<and> py_strip (cfg_gop_service_secret s) = []
             then Inl ''GOP_SERVICE_SECRET is required when PRONUNCIATION_ENGINE=gop''
           else if cfg_trust_proxy_headers s \<and> cfg_trusted_proxy_count s < 1
             then Inl ''TRUSTED_PROXY_COUNT must be >= 1 when TRUST_PROXY_HEADERS is enabled''
           else Inr s)"

section \<open>Language model clients\<close>

record llm_args =
  la_engine :: string
  la_api_key :: string
  la_base_url :: string
  la_model :: string
  la_timeout_seconds :: real
  la_max_retries :: int
  la_max_tokens :: nat

text \<open>A provider with a client carries the number of its client; \<open>thinking_off\<close> is the extra request body of DeepSeek.\<close>

datatype llm_provider = FakeLlm | OpenAiLlm (client: nat) (llm_model: string) (llm_max_tokens: nat) (thinking_off: bool)

record clients =
  cl_next :: nat
  cl_registered :: "nat list"
  cl_cache :: "(llm_args \<times> llm_provider) list"

definition register_closeable :: "nat \<Rightarrow> clients \<Rightarrow> clients" where
  "register_closeable n st = st\<lparr>cl_registered := cl_registered st @ [n]\<rparr>"

definition build_llm_provider :: "llm_args \<Rightarrow> clients \<Rightarrow> (error + llm_provider) \<times> clients" where
  "build_llm_provider a st =
     (if la_engine a = ENGINE_FAKE then (Inr FakeLlm, st)
      else if la_engine a \<in> {ENGINE_DEEPSEEK, ENGINE_GROQ}
      then if py_strip (la_api_key a) = []
           then (Inl (DomainErr LlmProviderError (la_engine a @ '' API key is not configured'')), st)
           else (Inr (OpenAiLlm (cl_next st) (la_model a) (la_max_tokens a) (la_engine a = ENGINE_DEEPSEEK)),
                 register_closeable (cl_next st) (st\<lparr>cl_next := cl_next st + 1\<rparr>))
      else (Inl (DomainErr LlmProviderError (''Unsupported LLM engine: '' @ [CHR 0x27] @ la_engine a @ [CHR 0x27])), st))"

definition CACHE_SIZE :: nat where "CACHE_SIZE = 8"

text \<open>\<open>lru_cache\<close>: a hit moves the entry to the recent end; only results are stored, and the oldest goes when it is full.\<close>

definition shared_llm_provider :: "llm_args \<Rightarrow> clients \<Rightarrow> (error + llm_provider) \<times> clients" where
  "shared_llm_provider a st = (case map_of (cl_cache st) a of
      Some p \<Rightarrow> (Inr p, st\<lparr>cl_cache := filter (\<lambda>e. fst e \<noteq> a) (cl_cache st) @ [(a, p)]\<rparr>)
    | None \<Rightarrow> (case build_llm_provider a st of
        (Inl e, st') \<Rightarrow> (Inl e, st')
      | (Inr p, st') \<Rightarrow> (Inr p, st'\<lparr>cl_cache := last_n CACHE_SIZE (cl_cache st' @ [(a, p)])\<rparr>)))"

definition llm_credentials_for :: "string \<Rightarrow> settings \<Rightarrow> string \<times> string \<times> string" where
  "llm_credentials_for engine s =
     (if engine = ENGINE_GROQ then (cfg_groq_api_key s, cfg_groq_base_url s, cfg_groq_llm_model s)
      else (cfg_deepseek_api_key s, cfg_deepseek_base_url s, cfg_deepseek_model s))"

definition shared_engine_provider :: "string \<Rightarrow> settings \<Rightarrow> nat \<Rightarrow> clients \<Rightarrow> (error + llm_provider) \<times> clients" where
  "shared_engine_provider engine s max_tokens st = (case llm_credentials_for engine s of (api_key, base_url, model) \<Rightarrow>
     shared_llm_provider \<lparr>la_engine = engine, la_api_key = api_key, la_base_url = base_url, la_model = model,
       la_timeout_seconds = cfg_deepseek_timeout_seconds s, la_max_retries = cfg_deepseek_max_retries s, la_max_tokens = max_tokens\<rparr> st)"

definition FALLBACK_PRIMARY_TIMEOUT_SECONDS :: real where "FALLBACK_PRIMARY_TIMEOUT_SECONDS = 6"
definition FALLBACK_PRIMARY_MAX_RETRIES :: int where "FALLBACK_PRIMARY_MAX_RETRIES = 0"

definition fallback_primary_provider :: "settings \<Rightarrow> nat \<Rightarrow> clients \<Rightarrow> (error + llm_provider) \<times> clients" where
  "fallback_primary_provider s max_tokens st = (case llm_credentials_for ENGINE_GROQ s of (api_key, base_url, model) \<Rightarrow>
     shared_llm_provider \<lparr>la_engine = ENGINE_GROQ, la_api_key = api_key, la_base_url = base_url, la_model = model,
       la_timeout_seconds = FALLBACK_PRIMARY_TIMEOUT_SECONDS, la_max_retries = FALLBACK_PRIMARY_MAX_RETRIES, la_max_tokens = max_tokens\<rparr> st)"

text \<open>The providers of a feature in the order they are tried.\<close>

definition build_feature_llm :: "string \<Rightarrow> settings \<Rightarrow> nat \<Rightarrow> clients \<Rightarrow> (error + llm_provider list) \<times> clients" where
  "build_feature_llm engine s max_tokens st =
     (if engine = ENGINE_GROQ_FALLBACK
      then (case fallback_primary_provider s max_tokens st of
          (Inl e, st1) \<Rightarrow> (Inl e, st1)
        | (Inr primary, st1) \<Rightarrow> (case shared_engine_provider ENGINE_DEEPSEEK s max_tokens st1 of
            (Inl e, st2) \<Rightarrow> (Inl e, st2)
          | (Inr secondary, st2) \<Rightarrow> (Inr [primary, secondary], st2)))
      else case shared_engine_provider engine s max_tokens st of
          (Inl e, st1) \<Rightarrow> (Inl e, st1) | (Inr p, st1) \<Rightarrow> (Inr [p], st1))"

text \<open>Shutdown: the clients closed, newest first. A client that fails to close is logged and the loop goes on.\<close>

definition close_all :: "clients \<Rightarrow> nat list \<times> clients" where
  "close_all st = (rev (cl_registered st), st\<lparr>cl_registered := []\<rparr>)"

section \<open>Counters and alerts\<close>

type_synonym counts = "(string \<times> nat) list"

definition METER_FAILURES :: string where "METER_FAILURES = ''meter_failures''"
definition PURGE_FAILURES :: string where "PURGE_FAILURES = ''purge_failures''"
definition PURGE_LOCK_SKIPS :: string where "PURGE_LOCK_SKIPS = ''purge_lock_skips''"

definition COOLDOWN_SECONDS :: real where "COOLDOWN_SECONDS = 60"

text \<open>Whether a message is posted, with the clock and the times of the last alerts.\<close>

definition notify :: "string \<Rightarrow> real \<Rightarrow> string \<Rightarrow> (string \<rightharpoonup> real) \<Rightarrow> bool \<times> (string \<rightharpoonup> real)" where
  "notify webhook_url now event last_sent =
     (if py_strip webhook_url = [] then (False, last_sent)
      else if now - (case last_sent event of None \<Rightarrow> 0 | Some t \<Rightarrow> t) < COOLDOWN_SECONDS then (False, last_sent)
      else (True, last_sent(event \<mapsto> now)))"

fun bump :: "string \<Rightarrow> counts \<Rightarrow> counts" where
  "bump name [] = [(name, 1)]"
| "bump name ((k, n) # rest) = (if k = name then (k, n + 1) # rest else (k, n) # bump name rest)"

record ops =
  op_counts :: counts
  op_last_sent :: "string \<rightharpoonup> real"
  op_alerts :: "(string \<times> real) list"

definition inc :: "string \<Rightarrow> real \<Rightarrow> string \<Rightarrow> ops \<Rightarrow> ops" where
  "inc webhook_url now name o1 =
     (let o2 = o1\<lparr>op_counts := bump name (op_counts o1)\<rparr>
      in if name = METER_FAILURES
         then (case notify webhook_url now ''meter_failures'' (op_last_sent o2) of
             (sent, ls) \<Rightarrow> o2\<lparr>op_last_sent := ls, op_alerts := op_alerts o2 @ (if sent then [(''meter_failures'', now)] else [])\<rparr>)
         else o2)"

section \<open>Purge loop\<close>

text \<open>The lock in Redis: the instant until which the key is held. \<open>None\<close> for \<open>redis\<close> is an unreachable server.\<close>

definition try_acquire_purge_lock ::
  "string \<Rightarrow> int \<Rightarrow> int \<Rightarrow> int option option \<Rightarrow> bool \<times> bool \<times> int option option" where
  "try_acquire_purge_lock redis_url ttl_seconds now redis =
     (if py_strip redis_url = [] then (True, False, redis)
      else case redis of None \<Rightarrow> (False, True, redis)
        | Some held \<Rightarrow> (case held of
            Some until_ \<Rightarrow> if now < until_ then (False, True, redis) else (True, False, Some (Some (now + max 1 ttl_seconds)))
          | None \<Rightarrow> (True, False, Some (Some (now + max 1 ttl_seconds)))))"

text \<open>One iteration: the seconds of the clock, the answer of Redis, the fault of the database.\<close>

definition purge_tick ::
  "settings \<Rightarrow> real \<Rightarrow> int \<Rightarrow> instant \<Rightarrow> nat option \<Rightarrow> int option option \<times> ops \<times> dbtx \<Rightarrow> int option option \<times> ops \<times> dbtx" where
  "purge_tick s clock seconds now fault w = (case w of (redis, o1, t) \<Rightarrow>
     (case try_acquire_purge_lock (cfg_redis_url s) (cfg_purge_interval_seconds s) seconds redis of (won, skipped, redis') \<Rightarrow>
        let o2 = (if skipped then inc (cfg_alert_webhook_url s) clock PURGE_LOCK_SKIPS o1 else o1)
        in if \<not> won then (redis', o2, t)
           else (case purge_expired_entries now fault t of (_, t') \<Rightarrow>
             (redis', if (case fault of None \<Rightarrow> False | Some k \<Rightarrow> k \<le> length (expired_steps now)) then inc (cfg_alert_webhook_url s) clock PURGE_FAILURES o2 else o2, t'))))"

section \<open>Operational routes\<close>

definition docs_enabled :: "string \<Rightarrow> bool" where
  "docs_enabled app_env \<longleftrightarrow> app_env \<noteq> ''production''"

text \<open>Status codes: \<open>db_ok\<close>, \<open>redis_ok\<close> and \<open>gop_ok\<close> say which of the services answer.\<close>

definition health :: "bool \<Rightarrow> nat" where
  "health db_ok = (if db_ok then 200 else 503)"

definition health_ready :: "settings \<Rightarrow> bool \<Rightarrow> bool \<Rightarrow> bool \<Rightarrow> nat" where
  "health_ready s db_ok redis_ok gop_ok =
     (if \<not> db_ok then 503
      else if py_strip (cfg_redis_url s) \<noteq> [] \<and> \<not> redis_ok then 503
      else if cfg_pronunciation_engine s = ENGINE_GOP \<and> \<not> gop_ok then 503
      else 200)"

definition metrics_snapshot :: "settings \<Rightarrow> string option \<Rightarrow> ops \<Rightarrow> nat \<times> counts" where
  "metrics_snapshot s header o1 =
     (let expected = py_strip (cfg_metrics_token s); got = (case header of None \<Rightarrow> [] | Some h \<Rightarrow> h)
      in if is_deployed s \<and> (expected = [] \<or> got \<noteq> expected) then (404, []) else (200, op_counts o1))"

definition public_config :: "settings \<Rightarrow> (string \<times> bool) list" where
  "public_config s =
     [(''demo_mode'', cfg_voice_engine s = ENGINE_FAKE), (''debrief_demo_mode'', cfg_debrief_engine s = ENGINE_FAKE),
      (''mission_demo_mode'', cfg_mission_engine s = ENGINE_FAKE), (''shadowing_demo_mode'', cfg_shadowing_engine s = ENGINE_FAKE),
      (''server_tts'', drill_tts_enabled s), (''server_stt'', drill_stt_enabled s),
      (''drill_tts'', drill_tts_enabled s), (''drill_stt'', drill_stt_enabled s),
      (''conversation_server_tts'', conversation_tts_on_server s), (''conversation_server_stt'', conversation_stt_on_server s),
      (''password_reset_enabled'', mailer_enabled s), (''pronunciation_gop'', cfg_pronunciation_engine s = ENGINE_GOP)]"

section \<open>Clients are shared, and closed once\<close>

definition client_ids :: "llm_provider list \<Rightarrow> nat set" where
  "client_ids ps = {n. \<exists>p \<in> set ps. p \<noteq> FakeLlm \<and> client p = n}"

definition clients_ok :: "clients \<Rightarrow> bool" where
  "clients_ok st \<longleftrightarrow> distinct (cl_registered st) \<and> (\<forall>n \<in> set (cl_registered st). n < cl_next st)
     \<and> client_ids (map snd (cl_cache st)) \<subseteq> set (cl_registered st)
     \<and> distinct (map fst (cl_cache st)) \<and> length (cl_cache st) \<le> CACHE_SIZE"

definition no_clients :: clients where
  "no_clients = \<lparr>cl_next = 0, cl_registered = [], cl_cache = []\<rparr>"

lemma no_clients_ok: "clients_ok no_clients"
  by (simp add: clients_ok_def no_clients_def client_ids_def)

lemma client_ids_simps [simp]:
  "client_ids [] = {}" "client_ids (ps @ qs) = client_ids ps \<union> client_ids qs"
  "client_ids (p # ps) = (if p = FakeLlm then {} else {client p}) \<union> client_ids ps"
  by (auto simp: client_ids_def)

lemma client_ids_mono: "set ps \<subseteq> set qs \<Longrightarrow> client_ids ps \<subseteq> client_ids qs"
  by (auto simp: client_ids_def)

lemma last_n_sub: "set (last_n n xs) \<subseteq> set xs"
  by (simp add: last_n_def set_drop_subset)

lemma map_last_n: "map f (last_n n xs) = last_n n (map f xs)"
  by (simp add: last_n_def drop_map)

lemma distinct_last_n: "distinct xs \<Longrightarrow> distinct (last_n n xs)"
  by (simp add: last_n_def)

lemma build_llm_provider_ok:
  assumes "clients_ok st" "build_llm_provider a st = (r, st')"
  shows "clients_ok st' \<and> cl_cache st' = cl_cache st \<and> set (cl_registered st) \<subseteq> set (cl_registered st')
    \<and> (\<forall>p. r = Inr p \<longrightarrow> client_ids [p] \<subseteq> set (cl_registered st'))"
  using assms by (auto simp: build_llm_provider_def clients_ok_def register_closeable_def less_SucI split: if_split_asm)

lemma shared_llm_provider_ok:
  assumes ok: "clients_ok st" and r: "shared_llm_provider a st = (r, st')"
  shows "clients_ok st' \<and> set (cl_registered st) \<subseteq> set (cl_registered st')
    \<and> (\<forall>p. r = Inr p \<longrightarrow> client_ids [p] \<subseteq> set (cl_registered st'))"
proof (cases "map_of (cl_cache st) a")
  case (Some p)
  let ?c = "filter (\<lambda>e. fst e \<noteq> a) (cl_cache st)"
  have mem: "(a, p) \<in> set (cl_cache st)" using Some by (rule map_of_SomeD)
  have "length ?c < length (cl_cache st)" using mem by (metis (mono_tags, lifting) fst_conv length_filter_less)
  moreover have "client_ids (map snd (?c @ [(a, p)])) \<subseteq> client_ids (map snd (cl_cache st))"
    by (rule client_ids_mono) (use mem in force)
  moreover have "distinct (map fst (?c @ [(a, p)]))" using ok by (auto simp: clients_ok_def distinct_map_filter)
  moreover have "client_ids [p] \<subseteq> client_ids (map snd (cl_cache st))" by (rule client_ids_mono) (use mem in force)
  ultimately have "clients_ok (st\<lparr>cl_cache := ?c @ [(a, p)]\<rparr>)" "client_ids [p] \<subseteq> set (cl_registered st)"
    using ok unfolding clients_ok_def by (auto dest: subsetD split del: if_split)
  moreover have "r = Inr p" "st' = st\<lparr>cl_cache := ?c @ [(a, p)]\<rparr>" using r Some by (auto simp: shared_llm_provider_def)
  ultimately show ?thesis by simp
next
  case None
  obtain b st1 where b: "build_llm_provider a st = (b, st1)" by force
  note ok1 = build_llm_provider_ok [OF ok b]
  show ?thesis
  proof (cases b)
    case (Inl e)
    then show ?thesis using r None b ok1 by (auto simp: shared_llm_provider_def)
  next
    case (Inr p)
    let ?c = "last_n CACHE_SIZE (cl_cache st1 @ [(a, p)])"
    have st': "st' = st1\<lparr>cl_cache := ?c\<rparr>" "r = Inr p" using r None b Inr by (auto simp: shared_llm_provider_def)
    have "client_ids (map snd ?c) \<subseteq> client_ids (map snd (cl_cache st1 @ [(a, p)]))"
      by (rule client_ids_mono) (use last_n_sub in force)
    moreover have "distinct (map fst (cl_cache st1 @ [(a, p)]))"
      using ok1 None by (auto simp: clients_ok_def map_of_eq_None_iff)
    then have "distinct (map fst ?c)" unfolding map_last_n by (rule distinct_last_n)
    moreover have "client_ids (map snd (cl_cache st1 @ [(a, p)])) \<subseteq> set (cl_registered st1)"
      using ok1 Inr unfolding clients_ok_def by auto
    ultimately have "clients_ok (st1\<lparr>cl_cache := ?c\<rparr>)" using ok1 unfolding clients_ok_def by (simp; blast)
    then show ?thesis using ok1 Inr unfolding st' by simp
  qed
qed

lemma build_feature_llm_ok:
  assumes "clients_ok st" "build_feature_llm engine s n st = (r, st')"
  shows "clients_ok st' \<and> set (cl_registered st) \<subseteq> set (cl_registered st')
    \<and> (\<forall>ps. r = Inr ps \<longrightarrow> client_ids ps \<subseteq> set (cl_registered st'))"
proof (cases "engine = ENGINE_GROQ_FALLBACK")
  case True
  obtain r1 st1 where b1: "fallback_primary_provider s n st = (r1, st1)" by force
  obtain r2 st2 where b2: "shared_engine_provider ENGINE_DEEPSEEK s n st1 = (r2, st2)" by force
  note ok1 = shared_llm_provider_ok [OF assms(1) b1 [unfolded fallback_primary_provider_def split_beta]]
  have ok2: "clients_ok st2 \<and> set (cl_registered st1) \<subseteq> set (cl_registered st2) \<and> (\<forall>p. r2 = Inr p \<longrightarrow> client_ids [p] \<subseteq> set (cl_registered st2))"
    using shared_llm_provider_ok [OF _ b2 [unfolded shared_engine_provider_def split_beta]] ok1 by blast
  show ?thesis
    using assms(2) True ok1 ok2 by (cases r1; cases r2; auto simp: build_feature_llm_def b1 b2 split del: if_split; blast)
next
  case False
  obtain r1 st1 where b1: "shared_engine_provider engine s n st = (r1, st1)" by force
  note ok1 = shared_llm_provider_ok [OF assms(1) b1 [unfolded shared_engine_provider_def split_beta]]
  show ?thesis using assms(2) False ok1 by (cases r1) (auto simp: build_feature_llm_def b1)
qed

fun run_builds :: "(string \<times> settings \<times> nat) list \<Rightarrow> clients \<Rightarrow> llm_provider list \<times> clients" where
  "run_builds [] st = ([], st)"
| "run_builds ((engine, s, n) # calls) st = (case build_feature_llm engine s n st of (r, st1) \<Rightarrow>
     (case run_builds calls st1 of (ps, st2) \<Rightarrow> ((case r of Inl _ \<Rightarrow> [] | Inr qs \<Rightarrow> qs) @ ps, st2)))"

lemma run_builds_ok:
  "clients_ok st \<Longrightarrow> run_builds calls st = (ps, st') \<Longrightarrow>
    clients_ok st' \<and> set (cl_registered st) \<subseteq> set (cl_registered st') \<and> client_ids ps \<subseteq> set (cl_registered st')"
proof (induction calls arbitrary: st ps st')
  case (Cons call calls)
  obtain engine s n where c: "call = (engine, s, n)" by (cases call) auto
  obtain r st1 where b: "build_feature_llm engine s n st = (r, st1)" by force
  obtain qs st2 where q: "run_builds calls st1 = (qs, st2)" by force
  note ok = build_feature_llm_ok [OF Cons.prems(1) b]
  have "clients_ok st2 \<and> set (cl_registered st1) \<subseteq> set (cl_registered st2) \<and> client_ids qs \<subseteq> set (cl_registered st2)"
    using Cons.IH [OF _ q] ok by blast
  then show ?case using ok Cons.prems(2) by (auto simp: c b q split: sum.splits; blast)
qed simp

text \<open>Every client is closed, and once. Over any sequence of features built with any engines and settings, with the
  shared cache evicting its oldest entries, the shutdown closes every client that was ever handed out, also those the
  cache has forgotten, none of them twice, and leaves nothing registered; the cache never holds more than eight.\<close>

theorem shutdown_closes_every_client_once:
  assumes "run_builds calls no_clients = (ps, st)" "close_all st = (shut, st')"
  shows "client_ids ps \<subseteq> set shut \<and> distinct shut \<and> cl_registered st' = [] \<and> length (cl_cache st) \<le> 8"
  using run_builds_ok [OF no_clients_ok assms(1)] assms(2)
  by (auto simp: close_all_def clients_ok_def CACHE_SIZE_def; blast)

definition demo_settings :: settings where
  "demo_settings = \<lparr>cfg_app_env = ''production'', cfg_expose_reset_token = False, cfg_resend_api_key = [], cfg_mail_from = [],
     cfg_metrics_token = [], cfg_alert_webhook_url = [], cfg_jwt_secret = ''0123456789abcdef0123456789abcdef'', cfg_purge_interval_seconds = 21600,
     cfg_trust_proxy_headers = True, cfg_trusted_proxy_count = 1, cfg_redis_url = ''redis://cache'', cfg_cors_allow_origins = ''https://a.example'',
     cfg_cors_allow_credentials = True, cfg_deepseek_api_key = ''k1'', cfg_deepseek_base_url = ''https://api.deepseek.com'',
     cfg_deepseek_model = ''deepseek-v4-flash'', cfg_deepseek_timeout_seconds = 20, cfg_deepseek_max_retries = 1,
     cfg_voice_engine = ''groq_fallback'', cfg_debrief_engine = ''deepseek'', cfg_mission_engine = ''fake'', cfg_shadowing_engine = ''groq'',
     cfg_conversation_stt = ''device'', cfg_conversation_tts = ''device'', cfg_tts_engine = ''edge'', cfg_stt_engine = ''auto'',
     cfg_groq_api_key = ''k2'', cfg_groq_base_url = ''https://api.groq.com/openai/v1'', cfg_groq_llm_model = ''llama-3.3-70b-versatile'',
     cfg_pronunciation_engine = ''fake'', cfg_gop_service_url = [], cfg_gop_service_secret = []\<rparr>"

theorem shutdown_closes_every_client_once_witness:
  "\<exists>st. run_builds [(''groq_fallback'', demo_settings, 400), (''deepseek'', demo_settings, 900)] no_clients
      = ([OpenAiLlm 0 ''llama-3.3-70b-versatile'' 400 False, OpenAiLlm 1 ''deepseek-v4-flash'' 400 True, OpenAiLlm 2 ''deepseek-v4-flash'' 900 True], st)
    \<and> {0, 1, 2} \<subseteq> set (fst (close_all st))"
proof -
  have strip: "py_strip ''k1'' \<noteq> []" "py_strip ''k2'' \<noteq> []" by code_simp+
  obtain st where r: "run_builds [(''groq_fallback'', demo_settings, 400), (''deepseek'', demo_settings, 900)] no_clients
      = ([OpenAiLlm 0 ''llama-3.3-70b-versatile'' 400 False, OpenAiLlm 1 ''deepseek-v4-flash'' 400 True, OpenAiLlm 2 ''deepseek-v4-flash'' 900 True], st)"
    by (simp add: build_feature_llm_def fallback_primary_provider_def shared_engine_provider_def shared_llm_provider_def
        build_llm_provider_def llm_credentials_for_def register_closeable_def no_clients_def demo_settings_def engine_defs strip last_n_def CACHE_SIZE_def)
  obtain shut st' where c: "close_all st = (shut, st')" by force
  show ?thesis using shutdown_closes_every_client_once [OF r c] r c by (auto simp: client_ids_def)
qed

section \<open>What the start-up check buys\<close>

definition has_api_key :: "settings \<Rightarrow> string \<Rightarrow> bool" where
  "has_api_key s engine \<longleftrightarrow> py_strip (fst (llm_credentials_for engine s)) \<noteq> []"

lemma shared_engine_provider_works:
  assumes "engine \<in> {ENGINE_FAKE, ENGINE_DEEPSEEK, ENGINE_GROQ}" "engine = ENGINE_FAKE \<or> has_api_key s engine"
  shows "\<exists>p st'. shared_engine_provider engine s n st = (Inr p, st')"
  using assms
  by (auto simp: shared_engine_provider_def shared_llm_provider_def build_llm_provider_def has_api_key_def split: option.split prod.split)

lemma fallback_primary_works: "has_api_key s ENGINE_GROQ \<Longrightarrow> \<exists>p st'. fallback_primary_provider s n st = (Inr p, st')"
  by (auto simp: fallback_primary_provider_def shared_llm_provider_def build_llm_provider_def has_api_key_def engine_defs split: option.split prod.split)

text \<open>Accepted settings serve, and expose nothing. If the start-up check accepts the settings of a deployed
  environment and the keys it accepts are not just blanks, every language model feature can be built in any state of the
  cache, the reset token is never echoed, the counters answer 404 to everyone who does not send the configured token,
  credentials are never combined with a wildcard origin, and forwarded addresses are read with at least one trusted
  hop.\<close>

theorem accepted_settings_serve:
  assumes "validate_production_safety s = Inr s'" "is_deployed s"
    and "\<forall>e \<in> set (llm_engines s). e \<in> {ENGINE_FAKE, ENGINE_DEEPSEEK, ENGINE_GROQ, ENGINE_GROQ_FALLBACK}"
    and "cfg_deepseek_api_key s \<noteq> [] \<longrightarrow> py_strip (cfg_deepseek_api_key s) \<noteq> []"
    and "cfg_groq_api_key s \<noteq> [] \<longrightarrow> py_strip (cfg_groq_api_key s) \<noteq> []"
  shows "s' = s \<and> (\<forall>e \<in> set (llm_engines s). \<forall>n st. \<exists>ps st'. build_feature_llm e s n st = (Inr ps, st'))
    \<and> \<not> cfg_expose_reset_token s
    \<and> (\<forall>header ops. metrics_snapshot s header ops = (404, [])
         \<or> (header = Some (py_strip (cfg_metrics_token s)) \<and> py_strip (cfg_metrics_token s) \<noteq> []))
    \<and> \<not> (''*'' \<in> set (cors_origins_list s) \<and> cfg_cors_allow_credentials s)
    \<and> (cfg_trust_proxy_headers s \<longrightarrow> 1 \<le> cfg_trusted_proxy_count s)"
proof (intro conjI ballI allI)
  note v = assms(1, 2) [unfolded validate_production_safety_def Let_def]
  show "s' = s" using v by (auto split: if_split_asm)
  show "\<not> cfg_expose_reset_token s" using v by (auto split: if_split_asm)
  show "\<not> (''*'' \<in> set (cors_origins_list s) \<and> cfg_cors_allow_credentials s)" using v by (auto split: if_split_asm)
  show "cfg_trust_proxy_headers s \<longrightarrow> 1 \<le> cfg_trusted_proxy_count s" using v by (auto split: if_split_asm)
  show "metrics_snapshot s header ops = (404, [])
      \<or> (header = Some (py_strip (cfg_metrics_token s)) \<and> py_strip (cfg_metrics_token s) \<noteq> [])" for header ops
    using assms(2) by (auto simp: metrics_snapshot_def Let_def split: option.split)
  fix e n st assume e: "e \<in> set (llm_engines s)"
  have ds: "cfg_deepseek_api_key s \<noteq> []" if "e \<in> {ENGINE_DEEPSEEK, ENGINE_GROQ_FALLBACK}"
    using v that e by (auto simp: list_ex_iff split: if_split_asm)
  have gr: "cfg_groq_api_key s \<noteq> []" if "e \<in> {ENGINE_GROQ, ENGINE_GROQ_FALLBACK}"
    using v that e by (auto simp: list_ex_iff split: if_split_asm)
  have key: "e \<in> {ENGINE_DEEPSEEK, ENGINE_GROQ_FALLBACK} \<Longrightarrow> has_api_key s ENGINE_DEEPSEEK"
    "e \<in> {ENGINE_GROQ, ENGINE_GROQ_FALLBACK} \<Longrightarrow> has_api_key s ENGINE_GROQ"
    using ds gr assms(4, 5) by (auto simp: has_api_key_def llm_credentials_for_def engine_defs)
  show "\<exists>ps st'. build_feature_llm e s n st = (Inr ps, st')"
  proof (cases "e = ENGINE_GROQ_FALLBACK")
    case True
    obtain p st1 where 1: "fallback_primary_provider s n st = (Inr p, st1)"
      using fallback_primary_works key(2) True by blast
    obtain q st2 where 2: "shared_engine_provider ENGINE_DEEPSEEK s n st1 = (Inr q, st2)"
      using shared_engine_provider_works key(1) True by blast
    show ?thesis by (simp add: build_feature_llm_def True 1 2)
  next
    case False
    have "e \<in> {ENGINE_FAKE, ENGINE_DEEPSEEK, ENGINE_GROQ}" "e = ENGINE_FAKE \<or> has_api_key s e" using assms(3) e False key by auto
    then obtain p st1 where "shared_engine_provider e s n st = (Inr p, st1)" using shared_engine_provider_works by blast
    then show ?thesis using False by (simp add: build_feature_llm_def)
  qed
qed

theorem accepted_settings_serve_witness:
  "metrics_snapshot demo_settings (Some ''guess'') \<lparr>op_counts = [(''purge_failures'', 1)], op_last_sent = Map.empty, op_alerts = []\<rparr> = (404, [])
    \<and> (\<exists>ps st. build_feature_llm ''groq_fallback'' demo_settings 400 no_clients = (Inr ps, st))" (is "?m \<and> ?b")
proof -
  have 1: "validate_production_safety demo_settings = Inr demo_settings" by code_simp
  have 2: "is_deployed demo_settings" by code_simp
  have 3: "\<forall>e \<in> set (llm_engines demo_settings). e \<in> {ENGINE_FAKE, ENGINE_DEEPSEEK, ENGINE_GROQ, ENGINE_GROQ_FALLBACK}" by code_simp
  have 4: "cfg_deepseek_api_key demo_settings \<noteq> [] \<longrightarrow> py_strip (cfg_deepseek_api_key demo_settings) \<noteq> []"
    "cfg_groq_api_key demo_settings \<noteq> [] \<longrightarrow> py_strip (cfg_groq_api_key demo_settings) \<noteq> []" by code_simp+
  have t: "py_strip (cfg_metrics_token demo_settings) = []" "''groq_fallback'' \<in> set (llm_engines demo_settings)" by code_simp+
  note p = accepted_settings_serve [OF 1 2 3 4]
  have ?m using p t(1) by blast
  moreover have ?b using p t(2) by blast
  ultimately show ?thesis ..
qed

text \<open>The check compares the key itself with the empty string and the factory its stripped form: a blank key is accepted at
  start-up and every turn then fails.\<close>

lemma blank_key_accepted:
  "validate_production_safety (demo_settings\<lparr>cfg_deepseek_api_key := '' ''\<rparr>) = Inr (demo_settings\<lparr>cfg_deepseek_api_key := '' ''\<rparr>)"
  "fst (build_feature_llm ''deepseek'' (demo_settings\<lparr>cfg_deepseek_api_key := '' ''\<rparr>) 400 no_clients)
    = Inl (DomainErr LlmProviderError ''deepseek API key is not configured'')"
  by code_simp+

section \<open>Purge lock and alerts\<close>

text \<open>With Redis, of all workers ticking within one interval only the first purges.\<close>

lemma purge_lock_exclusive:
  assumes "py_strip url \<noteq> []" "try_acquire_purge_lock url ttl t1 redis = (True, skipped, redis')" "t1 \<le> t2" "t2 < t1 + ttl"
  shows "try_acquire_purge_lock url ttl t2 redis' = (False, True, redis')"
  using assms by (auto simp: try_acquire_purge_lock_def split: option.splits if_split_asm)

text \<open>A tick that does not hold the lock leaves the database alone.\<close>

lemma purge_tick_without_lock:
  assumes "py_strip (cfg_redis_url s) \<noteq> []" "purge_tick s clock seconds now fault (None, ops, t) = (redis, ops', t')"
  shows "t' = t \<and> op_counts ops' = bump PURGE_LOCK_SKIPS (op_counts ops)"
  using assms by (auto simp: purge_tick_def try_acquire_purge_lock_def inc_def PURGE_LOCK_SKIPS_def METER_FAILURES_def Let_def)

lemma alert_cooldown:
  assumes "notify url t1 event ls = (True, ls')" "t1 \<le> t2" "t2 < t1 + COOLDOWN_SECONDS"
  shows "notify url t2 event ls' = (False, ls')"
  using assms by (auto simp: notify_def COOLDOWN_SECONDS_def split: option.splits if_split_asm)

text \<open>The missing time stamp counts as zero: in the first minute of the monotonic clock no alert is sent at all.\<close>

lemma first_minute_is_silent: "now < 60 \<Longrightarrow> notify url now event Map.empty = (False, Map.empty)"
  by (simp add: notify_def COOLDOWN_SECONDS_def)

end
