(* ===== verification/Providers.thy ===== *)
theory Providers
  imports Errors
begin

text \<open>
  The provider layer: the fallback chain of language models (\<^verbatim>\<open>app/core/llm/providers/fallback.py\<close>) and
  the cache in front of speech synthesis (\<^verbatim>\<open>app/features/conversation/providers\<close>). A provider's
  stream is what it does when awaited: the chunks with the time each takes, and how it ends. Times are reals; a
  wait that takes exactly the remaining time times out.
\<close>

section \<open>The fallback chain\<close>

datatype stream_end = Completed | Failed error | Hangs

record provider_stream =
  ps_chunks :: "(real \<times> string) list"
  ps_end_delay :: real
  ps_end :: stream_end

abbreviation all_failed :: error where "all_failed \<equiv> DomainErr LlmProviderError ''All LLM providers failed''"

text \<open>The chunks the client gets and how the stream ends for it: cleanly, with an error, or (\<open>None\<close>) never.\<close>

fun rest_of_stream :: "provider_stream \<Rightarrow> (error + unit) option" where
  "rest_of_stream p = (case ps_end p of Completed \<Rightarrow> Some (Inr ()) | Failed e \<Rightarrow> Some (Inl e) | Hangs \<Rightarrow> None)"

text \<open>With it, the clock when the first chunk arrives or the chain is over.\<close>

fun fallback_stream :: "real \<Rightarrow> real \<Rightarrow> provider_stream list \<Rightarrow> string list \<times> (error + unit) option \<times> real" where
  "fallback_stream deadline now [] = ([], Some (Inl all_failed), now)"
| "fallback_stream deadline now (p # ps) =
     (let remaining = deadline - now in
      if remaining \<le> 0 then ([], Some (Inl all_failed), now)
      else case ps_chunks p of
          (d, c) # cs \<Rightarrow> if d < remaining then (map snd (ps_chunks p), rest_of_stream p, now + d)
            else fallback_stream deadline (now + remaining) ps
        | [] \<Rightarrow> (case ps_end p of
            Completed \<Rightarrow> if ps_end_delay p < remaining then ([], Some (Inr ()), now + ps_end_delay p)
              else fallback_stream deadline (now + remaining) ps
          | Failed _ \<Rightarrow> fallback_stream deadline (now + min (ps_end_delay p) remaining) ps
          | Hangs \<Rightarrow> fallback_stream deadline (now + remaining) ps))"

definition stream_complete :: "real \<Rightarrow> real \<Rightarrow> provider_stream list \<Rightarrow> string list \<times> (error + unit) option \<times> real" where
  "stream_complete deadline_seconds now providers = fallback_stream (now + deadline_seconds) now providers"

text \<open>The blocking completion: each provider's delay (\<open>None\<close> never answers) and result, under one time-out.\<close>

fun try_all :: "real \<Rightarrow> (real option \<times> (error + string)) list \<Rightarrow> (error + string) option" where
  "try_all remaining [] = (if remaining \<le> 0 then None else Some (Inl all_failed))"
| "try_all remaining ((d, r) # ps) = (case d of None \<Rightarrow> None
    | Some x \<Rightarrow> if remaining \<le> x then None
        else (case r of Inr text \<Rightarrow> Some (Inr text) | Inl _ \<Rightarrow> try_all (remaining - x) ps))"

definition fallback_complete :: "real \<Rightarrow> string \<Rightarrow> (real option \<times> (error + string)) list \<Rightarrow> error + string" where
  "fallback_complete deadline_seconds shown providers = (case try_all deadline_seconds providers of
      Some r \<Rightarrow> r
    | None \<Rightarrow> Inl (DomainErr LlmProviderError (''All LLM providers exceeded the '' @ shown @ ''s fallback deadline'')))"

definition new_fallback :: "'p list \<Rightarrow> error + 'p list" where
  "new_fallback providers = (if providers = [] then Inl (OtherErr ''ValueError'') else Inr providers)"

text \<open>The client hears one provider or none.\<close>

lemma fallback_stream_outcome:
  assumes "fallback_stream deadline now ps = (out, r, t)"
  shows "(out = [] \<and> (r = Some (Inl all_failed) \<or> r = Some (Inr ()) \<and> (\<exists>p \<in> set ps. ps_chunks p = [] \<and> ps_end p = Completed)))
    \<or> (\<exists>p \<in> set ps. out \<noteq> [] \<and> out = map snd (ps_chunks p) \<and> r = rest_of_stream p)"
  using assms
proof (induction ps arbitrary: now)
  case (Cons p ps)
  have later: "?case" if "fallback_stream deadline n ps = (out, r, t)" for n
    using Cons.IH [OF that] by auto
  show ?case
  proof (cases "ps_chunks p")
    case Nil
    then show ?thesis using Cons.prems later
      by (cases "ps_end p") (auto simp: Let_def split: if_split_asm)
  next
    case (Cons x cs)
    then show ?thesis using Cons.prems later by (cases x) (auto simp: Let_def split: if_split_asm)
  qed
qed simp

lemma fallback_stream_time:
  assumes "fallback_stream deadline now ps = (out, r, t)" "now \<le> deadline"
    "\<forall>p \<in> set ps. 0 \<le> ps_end_delay p \<and> (\<forall>x \<in> set (ps_chunks p). 0 \<le> fst x)"
  shows "now \<le> t \<and> t \<le> deadline"
  using assms
proof (induction ps arbitrary: now)
  case (Cons p ps)
  have later: "now \<le> t \<and> t \<le> deadline" if "fallback_stream deadline n ps = (out, r, t)" "now \<le> n" "n \<le> deadline" for n
    using Cons.IH [OF that(1, 3)] Cons.prems(3) that(2) by force
  show ?case
  proof (cases "ps_chunks p")
    case Nil
    then show ?thesis using Cons.prems later [of deadline] later [of "now + min (ps_end_delay p) (deadline - now)"]
      by (cases "ps_end p") (auto simp: Let_def split: if_split_asm)
  next
    case chunks: (Cons x cs)
    then show ?thesis using Cons.prems later [of deadline] by (cases x) (auto simp: Let_def split: if_split_asm)
  qed
qed simp

lemma fallback_stream_reaches:
  assumes "\<forall>q \<in> set failing. ps_chunks q = [] \<and> (\<exists>e. ps_end q = Failed e) \<and> 0 \<le> ps_end_delay q"
    "ps_chunks p = (d, c) # cs" "0 \<le> d" "now + sum_list (map ps_end_delay failing) + d < deadline"
  shows "fallback_stream deadline now (failing @ p # rest)
    = (map snd (ps_chunks p), rest_of_stream p, now + sum_list (map ps_end_delay failing) + d)"
  using assms
proof (induction failing arbitrary: now)
  case (Cons q failing)
  have "0 \<le> sum_list (map ps_end_delay failing)" using Cons.prems(1) by (intro sum_list_nonneg) auto
  then show ?case using Cons.IH [of "now + ps_end_delay q"] Cons.prems by (auto simp: Let_def add.assoc min_def)
qed simp



text \<open>A provider that ends cleanly without a chunk is not replaced: the reply is empty although another one waits.\<close>

lemma empty_stream_is_not_replaced:
  "ps_chunks p = [] \<Longrightarrow> ps_end p = Completed \<Longrightarrow> ps_end_delay p < deadline_seconds \<Longrightarrow> 0 < deadline_seconds \<Longrightarrow>
   fst (stream_complete deadline_seconds now (p # q # ps)) = []"
  by (simp add: stream_complete_def)

section \<open>Speech cache\<close>

text \<open>The ordered dictionary as its entries, least recently used first.\<close>

type_synonym tts_cache = "(string \<times> nat list) list"

definition new_cache :: "int \<Rightarrow> error + tts_cache" where
  "new_cache max_entries = (if max_entries < 1 then Inl (OtherErr ''ValueError'') else Inr [])"

definition move_to_end :: "string \<Rightarrow> tts_cache \<Rightarrow> tts_cache" where
  "move_to_end text c = filter (\<lambda>e. fst e \<noteq> text) c @ filter (\<lambda>e. fst e = text) c"

definition cache_get :: "string \<Rightarrow> tts_cache \<Rightarrow> nat list option \<times> tts_cache" where
  "cache_get text c = (case map_of c text of None \<Rightarrow> (None, c) | Some audio \<Rightarrow> (Some audio, move_to_end text c))"

definition cache_set :: "nat \<Rightarrow> string \<Rightarrow> nat list \<Rightarrow> tts_cache \<Rightarrow> tts_cache" where
  "cache_set max_entries text audio c =
     (let c1 = filter (\<lambda>e. fst e \<noteq> text) c @ [(text, audio)] in if length c1 > max_entries then tl c1 else c1)"

text \<open>The Redis cache: entries with the second they expire, and for each call to come its second and whether it fails. A
  failing call is ignored; without any call left the server is gone.\<close>

record redis_cache =
  rw_store :: "string \<rightharpoonup> nat list \<times> int"
  rw_calls :: "(int \<times> bool) list"

definition tts_key :: "string \<Rightarrow> string \<Rightarrow> string" where
  "tts_key namespace text = namespace @ '':'' @ text"

definition redis_cache_get :: "string \<Rightarrow> string \<Rightarrow> redis_cache \<Rightarrow> nat list option \<times> redis_cache" where
  "redis_cache_get namespace text w = (case rw_calls w of
      [] \<Rightarrow> (None, w)
    | (now, fails) # calls \<Rightarrow>
        (if fails then None
         else case rw_store w (tts_key namespace text) of
             None \<Rightarrow> None | Some (audio, expires) \<Rightarrow> if now < expires then Some audio else None,
         w\<lparr>rw_calls := calls\<rparr>))"

definition redis_cache_set :: "string \<Rightarrow> int \<Rightarrow> string \<Rightarrow> nat list \<Rightarrow> redis_cache \<Rightarrow> redis_cache" where
  "redis_cache_set namespace ttl text audio w = (case rw_calls w of
      [] \<Rightarrow> w
    | (now, fails) # calls \<Rightarrow>
        (if fails then w else w\<lparr>rw_store := (rw_store w)(tts_key namespace text \<mapsto> (audio, now + ttl))\<rparr>)\<lparr>rw_calls := calls\<rparr>)"

text \<open>The caching provider over any cache.\<close>

definition caching_synthesize ::
  "(string \<Rightarrow> 'c \<Rightarrow> nat list option \<times> 'c) \<Rightarrow> (string \<Rightarrow> nat list \<Rightarrow> 'c \<Rightarrow> 'c) \<Rightarrow> (string \<Rightarrow> error + nat list)
   \<Rightarrow> string \<Rightarrow> 'c \<Rightarrow> (error + nat list) \<times> 'c" where
  "caching_synthesize get put inner text c =
     (if text = [] then (Inr [], c)
      else case get text c of
          (Some audio, c1) \<Rightarrow> (Inr audio, c1)
        | (None, c1) \<Rightarrow> (case inner text of Inl e \<Rightarrow> (Inl e, c1) | Inr audio \<Rightarrow> (Inr audio, put text audio c1)))"

fun synthesize_all ::
  "(string \<Rightarrow> 'c \<Rightarrow> nat list option \<times> 'c) \<Rightarrow> (string \<Rightarrow> nat list \<Rightarrow> 'c \<Rightarrow> 'c) \<Rightarrow> (string \<Rightarrow> error + nat list)
   \<Rightarrow> string list \<Rightarrow> 'c \<Rightarrow> (error + nat list) list \<times> 'c" where
  "synthesize_all get put inner [] c = ([], c)"
| "synthesize_all get put inner (x # xs) c =
     (let (r, c1) = caching_synthesize get put inner x c; (rs, c2) = synthesize_all get put inner xs c1 in (r # rs, c2))"

text \<open>The cache protocol: a hit is an entry, reading adds none, writing adds at most the entry written. Entries may be lost
  at any time.\<close>

locale tts_cache_protocol =
  fixes get :: "string \<Rightarrow> 'c \<Rightarrow> nat list option \<times> 'c"
    and put :: "string \<Rightarrow> nat list \<Rightarrow> 'c \<Rightarrow> 'c"
    and inv :: "'c \<Rightarrow> bool"
    and entries :: "'c \<Rightarrow> (string \<times> nat list) set"
  assumes hit: "inv c \<Longrightarrow> get x c = (Some a, c') \<Longrightarrow> (x, a) \<in> entries c"
    and get_keeps: "inv c \<Longrightarrow> get x c = (r, c') \<Longrightarrow> inv c' \<and> entries c' \<subseteq> entries c"
    and put_adds: "inv c \<Longrightarrow> inv (put x a c) \<and> entries (put x a c) \<subseteq> insert (x, a) (entries c)"
begin

abbreviation sound :: "(string \<Rightarrow> error + nat list) \<Rightarrow> 'c \<Rightarrow> bool" where
  "sound inner c \<equiv> inv c \<and> (\<forall>(x, a) \<in> entries c. inner x = Inr a)"

lemma synthesize_sound:
  assumes "sound inner c" "caching_synthesize get put inner x c = (r, c')"
  shows "sound inner c' \<and> r = (if x = [] then Inr [] else inner x)"
proof (cases "x = []")
  case False
  obtain g c1 where g: "get x c = (g, c1)" by force
  have c1: "sound inner c1" using get_keeps [OF _ g] assms(1) by blast
  show ?thesis
  proof (cases g)
    case None
    show ?thesis using assms(2) False c1 put_adds [of c1 x] by (cases "inner x") (force simp: caching_synthesize_def g None)+
  next
    case (Some a)
    have "inner x = Inr a" using hit [of c x a c1] g Some assms(1) by auto
    then show ?thesis using assms(2) False c1 by (simp add: caching_synthesize_def g Some)
  qed
qed (use assms in \<open>auto simp: caching_synthesize_def\<close>)

lemma synthesize_all_sound:
  "sound inner c \<Longrightarrow> synthesize_all get put inner xs c = (rs, c') \<Longrightarrow>
    sound inner c' \<and> rs = map (\<lambda>x. if x = [] then Inr [] else inner x) xs"
proof (induction xs arbitrary: c rs c')
  case (Cons x xs)
  obtain r c1 where s: "caching_synthesize get put inner x c = (r, c1)" by force
  obtain rs' c2 where rest: "synthesize_all get put inner xs c1 = (rs', c2)" by force
  show ?case using synthesize_sound [OF Cons.prems(1) s] Cons.IH [OF _ rest] Cons.prems(2) rest s by auto
qed auto

end

lemma move_to_end_props:
  fixes x :: string and c :: tts_cache
  shows "set (move_to_end x c) = set c" "length (move_to_end x c) = length c"
  "distinct (map fst c) \<Longrightarrow> distinct (map fst (move_to_end x c))"
proof -
  show "set (move_to_end x c) = set c" by (auto simp: move_to_end_def)
  have "mset (move_to_end x c) = mset c"
    by (simp add: move_to_end_def)
  then show "length (move_to_end x c) = length c" "distinct (map fst c) \<Longrightarrow> distinct (map fst (move_to_end x c))"
    by (metis size_mset, metis mset_map mset_eq_imp_distinct_iff)
qed

lemma cache_set_props:
  assumes "distinct (map fst c)" "length c \<le> n"
  shows "distinct (map fst (cache_set n x a c)) \<and> length (cache_set n x a c) \<le> n \<and> set (cache_set n x a c) \<subseteq> insert (x, a) (set c)"
proof -
  define c1 where "c1 = filter (\<lambda>e. fst e \<noteq> x) c @ [(x, a)]"
  have c1: "distinct (map fst c1)" "length c1 \<le> Suc n" "set c1 \<subseteq> insert (x, a) (set c)"
    using assms unfolding c1_def by (auto simp: distinct_map_filter) (metis le_trans length_filter_le)
  have "cache_set n x a c = (if length c1 > n then tl c1 else c1)" by (simp add: cache_set_def c1_def Let_def)
  then show ?thesis using c1 by (cases c1) auto
qed

interpretation lru: tts_cache_protocol cache_get "cache_set n" "\<lambda>c. distinct (map fst c) \<and> length c \<le> n" set for n
proof
  fix c c' :: tts_cache and x :: string and a :: "nat list" and r
  assume inv: "distinct (map fst c) \<and> length c \<le> n"
  show "(x, a) \<in> set c" if "cache_get x c = (Some a, c')"
    using that by (auto simp: cache_get_def dest: map_of_SomeD split: option.splits)
  show "(distinct (map fst c') \<and> length c' \<le> n) \<and> set c' \<subseteq> set c" if "cache_get x c = (r, c')"
    using that inv move_to_end_props [where x = x and c = c] by (auto simp: cache_get_def split: option.splits)
  show "(distinct (map fst (cache_set n x a c)) \<and> length (cache_set n x a c) \<le> n) \<and> set (cache_set n x a c) \<subseteq> insert (x, a) (set c)"
    using cache_set_props [of c n] inv by blast
qed

interpretation redis_tts: tts_cache_protocol "redis_cache_get ns" "redis_cache_set ns ttl" "\<lambda>_. True"
  "\<lambda>w. {(x, a). \<exists>e. rw_store w (tts_key ns x) = Some (a, e)}" for ns ttl
  by unfold_locales (auto simp: redis_cache_get_def redis_cache_set_def tts_key_def split: list.splits option.splits if_split_asm)

text \<open>The speech cache is invisible and bounded, in memory and in Redis. For every sequence of texts, from an empty
  cache, the answers are those of the synthesiser itself (the empty text is silent; failures pass through and are not
  remembered), while the in-memory cache holds at most its maximum of entries, one per text; and Redis may fail or expire
  entries at any call without changing an answer.\<close>

theorem speech_cache_transparent:
  assumes "synthesize_all cache_get (cache_set n) inner xs [] = (rs, c)"
    and "synthesize_all (redis_cache_get ns) (redis_cache_set ns ttl) inner xs \<lparr>rw_store = Map.empty, rw_calls = calls\<rparr> = (rs', w)"
  shows "rs = map (\<lambda>x. if x = [] then Inr [] else inner x) xs \<and> rs' = rs \<and> length c \<le> n \<and> distinct (map fst c)
    \<and> (\<forall>(x, a) \<in> set c. inner x = Inr a)"
  using lru.synthesize_all_sound [OF _ assms(1)] redis_tts.synthesize_all_sound [OF _ assms(2)] by auto

theorem speech_cache_transparent_witness:
  "fst (synthesize_all cache_get (cache_set 1) (\<lambda>x. Inr [length x]) [''hi'', ''hello'', ''hi''] []) = [Inr [2], Inr [5], Inr [2]]"
proof -
  obtain rs c where run: "synthesize_all cache_get (cache_set 1) (\<lambda>x. Inr [length x]) [''hi'', ''hello'', ''hi''] [] = (rs, c)" by force
  obtain rs' w where red: "synthesize_all (redis_cache_get ''tts'') (redis_cache_set ''tts'' 86400) (\<lambda>x. Inr [length x]) [''hi'', ''hello'', ''hi'']
      \<lparr>rw_store = Map.empty, rw_calls = [(0, False), (1, True)]\<rparr> = (rs', w)" by force
  from speech_cache_transparent [OF run red] run show ?thesis by simp
qed

end
