(* ===== verification/Gop.thy ===== *)
theory Gop
  imports PyNum
begin

text \<open>
  Goodness of pronunciation (\<^verbatim>\<open>pronunciation-service/src/pronunciation/ml/gop.py\<close>): CTC forced alignment by
  a Viterbi pass with back-pointers, and the score of each phoneme. Emissions are finite reals (frames by alphabet); the
  trellis' minus infinity is \<open>None\<close>. A back-pointer is a Python integer: \<open>-1\<close> where there is no predecessor, and a
  negative index counts from the end of its row.
\<close>

section \<open>Forced alignment\<close>

type_synonym cell = "real option \<times> int"

fun gt :: "real option \<Rightarrow> real option \<Rightarrow> bool" where
  "gt None _ \<longleftrightarrow> False"
| "gt (Some x) None \<longleftrightarrow> True"
| "gt (Some x) (Some y) \<longleftrightarrow> x > y"

definition extended :: "nat \<Rightarrow> nat list \<Rightarrow> nat list" where
  "extended blank target_ids = blank # concat (map (\<lambda>t. [t, blank]) target_ids)"

definition first_row :: "real list list \<Rightarrow> nat list \<Rightarrow> cell list" where
  "first_row lp ext = map (\<lambda>s. (if s \<le> 1 then Some (lp ! 0 ! (ext ! s)) else None, - 1)) [0..<length ext]"

definition better :: "cell \<Rightarrow> bool \<Rightarrow> cell \<Rightarrow> cell" where
  "better cand ok cur = (if ok \<and> gt (fst cand) (fst cur) then cand else cur)"

definition best_prev :: "nat \<Rightarrow> nat list \<Rightarrow> cell list \<Rightarrow> nat \<Rightarrow> cell" where
  "best_prev blank ext prev s =
     (let c0 = better (fst (prev ! s), int s) True (None, - 1);
          c1 = better (fst (prev ! (s - 1)), int s - 1) (s \<ge> 1) c0
      in better (fst (prev ! (s - 2)), int s - 2) (s \<ge> 2 \<and> ext ! s \<noteq> blank \<and> ext ! s \<noteq> ext ! (s - 2)) c1)"

definition next_row :: "real list \<Rightarrow> nat \<Rightarrow> nat list \<Rightarrow> cell list \<Rightarrow> cell list" where
  "next_row row blank ext prev = map (\<lambda>s. case best_prev blank ext prev s of
      (None, b) \<Rightarrow> (None, - 1) | (Some v, b) \<Rightarrow> (Some (v + row ! (ext ! s)), b)) [0..<length ext]"

fun trellis :: "real list list \<Rightarrow> nat \<Rightarrow> nat list \<Rightarrow> nat \<Rightarrow> cell list" where
  "trellis lp blank ext 0 = first_row lp ext"
| "trellis lp blank ext (Suc f) = next_row (lp ! Suc f) blank ext (trellis lp blank ext f)"

definition row_at :: "cell list \<Rightarrow> int \<Rightarrow> cell" where
  "row_at row s = row ! nat (if s < 0 then s + int (length row) else s)"

text \<open>The path read backwards from frame \<open>f\<close> in position \<open>s\<close>.\<close>

fun backtrack :: "real list list \<Rightarrow> nat \<Rightarrow> nat list \<Rightarrow> nat \<Rightarrow> int \<Rightarrow> int list" where
  "backtrack lp blank ext 0 s = [s]"
| "backtrack lp blank ext (Suc f) s = backtrack lp blank ext f (snd (row_at (trellis lp blank ext (Suc f)) s)) @ [s]"

definition end_position :: "cell list \<Rightarrow> nat" where
  "end_position final = (let l = length final in if gt (fst (final ! (l - 2))) (fst (final ! (l - 1))) then l - 2 else l - 1)"

definition viterbi_path :: "real list list \<Rightarrow> nat \<Rightarrow> nat list \<Rightarrow> int list" where
  "viterbi_path lp blank ext =
     (let f = length lp - 1 in backtrack lp blank ext f (int (end_position (trellis lp blank ext f))))"

definition span_of :: "int list \<Rightarrow> nat \<Rightarrow> int \<times> int" where
  "span_of path i =
     (let assigned = filter (\<lambda>f. path ! f = int (2 * i + 1)) [0..<length path]
      in if assigned \<noteq> [] then (int (hd assigned), int (last assigned)) else (int (length path), int (length path) - 1))"

definition forced_align :: "real list list \<Rightarrow> nat list \<Rightarrow> nat \<Rightarrow> (int \<times> int) list" where
  "forced_align lp target_ids blank =
     (let frames = length lp; n = length target_ids in
      if n = 0 then []
      else if frames < n
      then map (\<lambda>i. (int i, int i)) [0..<min frames n] @ replicate (n - min frames n) (int frames, int frames - 1)
      else let path = viterbi_path lp blank (extended blank target_ids) in map (span_of path) [0..<n])"

section \<open>Scores\<close>

record phoneme_score =
  pgs_phoneme :: string
  pgs_score :: real
  pgs_start :: int
  pgs_end :: int

definition gop_at :: "real list \<Rightarrow> nat \<Rightarrow> nat \<Rightarrow> real" where
  "gop_at row target_id blank =
     (let rivals = map (\<lambda>i. row ! i) (filter (\<lambda>i. i \<noteq> target_id \<and> i \<noteq> blank) [0..<length row])
      in if rivals = [] then 0 else row ! target_id - Max (set rivals))"

definition gop_to_score :: "real \<Rightarrow> real" where
  "gop_to_score gop = 1 / (1 + exp (- (gop + 3) * (3 / 2)))"

definition score_span :: "real list list \<Rightarrow> nat \<Rightarrow> string \<Rightarrow> nat \<Rightarrow> int \<times> int \<Rightarrow> phoneme_score" where
  "score_span lp blank phoneme target_id sp = (case sp of (start, stop) \<Rightarrow>
     if start > stop then \<lparr>pgs_phoneme = phoneme, pgs_score = 0, pgs_start = start, pgs_end = stop\<rparr>
     else let gops = map (\<lambda>f. gop_at (lp ! nat f) target_id blank) [start..stop]
       in \<lparr>pgs_phoneme = phoneme, pgs_score = round3 (gop_to_score (sum_list gops / real (length gops))),
          pgs_start = start, pgs_end = stop\<rparr>)"

definition gop_scores :: "real list list \<Rightarrow> nat list \<Rightarrow> (nat \<Rightarrow> string option) \<Rightarrow> nat \<Rightarrow> phoneme_score list" where
  "gop_scores lp target_ids id_to_phoneme blank =
     map (\<lambda>(t, sp). score_span lp blank (case id_to_phoneme t of None \<Rightarrow> ''?'' | Some p \<Rightarrow> p) t sp)
       (zip target_ids (forced_align lp target_ids blank))"

section \<open>Alignments\<close>

text \<open>The specification: a path through the extended labels, one position per frame, starting in one of the first two and
  moving by staying, advancing, or skipping a blank between distinct labels; with its total log-probability.\<close>

definition allowed :: "nat \<Rightarrow> nat list \<Rightarrow> nat \<Rightarrow> nat \<Rightarrow> bool" where
  "allowed blank ext p s \<longleftrightarrow> s = p \<or> s = p + 1 \<or> s = p + 2 \<and> ext ! s \<noteq> blank \<and> ext ! s \<noteq> ext ! p"

inductive aligned :: "real list list \<Rightarrow> nat \<Rightarrow> nat list \<Rightarrow> nat \<Rightarrow> nat \<Rightarrow> nat list \<Rightarrow> real \<Rightarrow> bool" for lp blank ext where
  aligned_start: "s \<le> 1 \<Longrightarrow> s < length ext \<Longrightarrow> aligned lp blank ext 0 s [s] (lp ! 0 ! (ext ! s))"
| aligned_step: "aligned lp blank ext f p path v \<Longrightarrow> s < length ext \<Longrightarrow> allowed blank ext p s \<Longrightarrow>
    aligned lp blank ext (Suc f) s (path @ [s]) (v + lp ! Suc f ! (ext ! s))"

lemma aligned_length: "aligned lp blank ext f s path v \<Longrightarrow> length path = Suc f \<and> last path = s \<and> s < length ext"
  by (induction rule: aligned.induct) auto

lemma length_trellis [simp]: "length (trellis lp blank ext f) = length ext"
  by (cases f) (simp_all add: first_row_def next_row_def)

abbreviation val_at :: "real list list \<Rightarrow> nat \<Rightarrow> nat list \<Rightarrow> nat \<Rightarrow> nat \<Rightarrow> real option" where
  "val_at lp blank ext f s \<equiv> fst (trellis lp blank ext f ! s)"

abbreviation back_at :: "real list list \<Rightarrow> nat \<Rightarrow> nat list \<Rightarrow> nat \<Rightarrow> nat \<Rightarrow> int" where
  "back_at lp blank ext f s \<equiv> snd (trellis lp blank ext f ! s)"

text \<open>The best predecessor is an allowed one and at least as good as every allowed one.\<close>

lemma best_prev_sound:
  assumes "best_prev blank ext prev s = (Some v, b)"
  shows "\<exists>p. b = int p \<and> p \<le> s \<and> allowed blank ext p s \<and> fst (prev ! p) = Some v"
proof -
  have "(b = int s \<and> fst (prev ! s) = Some v) \<or> (b = int s - 1 \<and> s \<ge> 1 \<and> fst (prev ! (s - 1)) = Some v)
    \<or> (b = int s - 2 \<and> s \<ge> 2 \<and> ext ! s \<noteq> blank \<and> ext ! s \<noteq> ext ! (s - 2) \<and> fst (prev ! (s - 2)) = Some v)"
    using assms by (auto simp: best_prev_def better_def Let_def split: if_split_asm)
  then show ?thesis
  proof (elim disjE conjE)
    assume "b = int s - 1" "s \<ge> 1" "fst (prev ! (s - 1)) = Some v"
    then show ?thesis by (intro exI [of _ "s - 1"]) (auto simp: allowed_def)
  next
    assume "b = int s - 2" "s \<ge> 2" "ext ! s \<noteq> blank" "ext ! s \<noteq> ext ! (s - 2)" "fst (prev ! (s - 2)) = Some v"
    then show ?thesis by (intro exI [of _ "s - 2"]) (auto simp: allowed_def)
  qed (auto simp: allowed_def)
qed

lemma better_ge: "ok \<Longrightarrow> fst cand = Some v \<Longrightarrow> \<exists>w. fst (better cand ok cur) = Some w \<and> v \<le> w"
  by (cases "fst cur") (auto simp: better_def)

lemma better_keeps: "fst cur = Some v \<Longrightarrow> \<exists>w. fst (better cand ok cur) = Some w \<and> v \<le> w"
  by (cases "fst cand") (auto simp: better_def)

lemma best_prev_complete:
  assumes "allowed blank ext p s" "fst (prev ! p) = Some v"
  shows "\<exists>w. fst (best_prev blank ext prev s) = Some w \<and> v \<le> w"
proof -
  let ?c0 = "better (fst (prev ! s), int s) True (None, - 1)"
  let ?c1 = "better (fst (prev ! (s - 1)), int s - 1) (s \<ge> 1) ?c0"
  let ?c2 = "better (fst (prev ! (s - 2)), int s - 2) (s \<ge> 2 \<and> ext ! s \<noteq> blank \<and> ext ! s \<noteq> ext ! (s - 2)) ?c1"
  have keep1: "\<exists>w. fst ?c2 = Some w \<and> x \<le> w" if "fst ?c1 = Some x" for x by (rule better_keeps [OF that])
  have keep0: "\<exists>w. fst ?c2 = Some w \<and> x \<le> w" if "fst ?c0 = Some x" for x
    using better_keeps [OF that, of "(fst (prev ! (s - 1)), int s - 1)" "s \<ge> 1"] keep1 order_trans by blast
  consider "s = p" | "s = p + 1" | "s = p + 2" "ext ! s \<noteq> blank" "ext ! s \<noteq> ext ! p" using assms(1) by (auto simp: allowed_def)
  then have "\<exists>w. fst ?c2 = Some w \<and> v \<le> w"
  proof cases
    case 1
    then have "fst ?c0 = Some v" using assms(2) by (simp add: better_def)
    then show ?thesis by (rule keep0)
  next
    case 2
    then obtain x where "fst ?c1 = Some x" "v \<le> x"
      using better_ge [of "s \<ge> 1" "(fst (prev ! (s - 1)), int s - 1)" v ?c0] assms(2) by auto
    then show ?thesis using keep1 order_trans by blast
  next
    case 3
    then show ?thesis
      using better_ge [of "s \<ge> 2 \<and> ext ! s \<noteq> blank \<and> ext ! s \<noteq> ext ! (s - 2)" "(fst (prev ! (s - 2)), int s - 2)" v ?c1] assms(2) by auto
  qed
  then show ?thesis by (simp add: best_prev_def Let_def)
qed

section \<open>The Viterbi path is an optimal alignment\<close>

lemma trellis_step:
  assumes "s < length ext" "val_at lp blank ext (Suc f) s = Some v"
  shows "\<exists>p w. p \<le> s \<and> allowed blank ext p s \<and> back_at lp blank ext (Suc f) s = int p
    \<and> val_at lp blank ext f p = Some w \<and> v = w + lp ! Suc f ! (ext ! s)"
proof -
  obtain w b where b: "best_prev blank ext (trellis lp blank ext f) s = (Some w, b)" "v = w + lp ! Suc f ! (ext ! s)"
    "back_at lp blank ext (Suc f) s = b"
    using assms by (auto simp: next_row_def split: prod.splits option.splits)
  from best_prev_sound [OF b(1)] show ?thesis using b(2, 3) by blast
qed

lemma trellis_sound:
  assumes "s < length ext" "val_at lp blank ext f s = Some v"
  shows "\<exists>path. backtrack lp blank ext f (int s) = map int path \<and> aligned lp blank ext f s path v"
  using assms
proof (induction f arbitrary: s v)
  case 0
  then have "s \<le> 1" "v = lp ! 0 ! (ext ! s)" by (auto simp: first_row_def split: if_split_asm)
  then show ?case using aligned_start [of s ext lp blank] 0 by (intro exI [of _ "[s]"]) simp
next
  case (Suc f)
  obtain p w where p: "p \<le> s" "allowed blank ext p s" "back_at lp blank ext (Suc f) s = int p"
    "val_at lp blank ext f p = Some w" "v = w + lp ! Suc f ! (ext ! s)"
    using trellis_step [OF Suc.prems] by blast
  then obtain path where path: "backtrack lp blank ext f (int p) = map int path" "aligned lp blank ext f p path w"
    using Suc.IH [of p w] Suc.prems(1) by auto
  have "backtrack lp blank ext (Suc f) (int s) = map int (path @ [s])"
    using path(1) p(3) Suc.prems(1) by (simp add: row_at_def del: trellis.simps)
  then show ?case using aligned_step [OF path(2) Suc.prems(1) p(2)] p(5) by metis
qed

lemma trellis_complete:
  assumes "aligned lp blank ext f s path v"
  shows "\<exists>w. val_at lp blank ext f s = Some w \<and> v \<le> w"
  using assms
proof (induction rule: aligned.induct)
  case (aligned_start s)
  then show ?case by (simp add: first_row_def)
next
  case (aligned_step f p path v s)
  then obtain w where w: "val_at lp blank ext f p = Some w" "v \<le> w" by blast
  obtain u where "fst (best_prev blank ext (trellis lp blank ext f) s) = Some u" "w \<le> u"
    using best_prev_complete [OF aligned_step.hyps(3) w(1)] by blast
  then show ?case using w(2) aligned_step.hyps(2) by (auto simp: next_row_def split: prod.splits option.splits)
qed

definition final_positions :: "nat list \<Rightarrow> nat set" where
  "final_positions ext = {length ext - 2, length ext - 1}"

lemma end_position_best:
  assumes "length final \<ge> 2" "s \<in> {length final - 2, length final - 1}" "fst (final ! s) = Some v"
  shows "end_position final \<in> {length final - 2, length final - 1} \<and> (\<exists>w. fst (final ! end_position final) = Some w \<and> v \<le> w)"
  using assms
  by (cases "fst (final ! (length final - 2))"; cases "fst (final ! (length final - 1))")
    (auto simp: end_position_def Let_def)

lemma length_extended: "length (extended blank ts) = 2 * length ts + 1"
  by (induction ts) (simp_all add: extended_def)

text \<open>A path never goes back, so the frames of a position are consecutive.\<close>

lemma aligned_mono: "aligned lp blank ext f s path v \<Longrightarrow> sorted path"
proof (induction rule: aligned.induct)
  case (aligned_step f p path v s)
  then have "\<forall>x \<in> set path. x \<le> p" using aligned_length [OF aligned_step.hyps(1)]
    by (metis in_set_conv_nth last_conv_nth length_0_conv less_Suc_eq_le nat.distinct(1) sorted_nth_mono diff_Suc_1 le_eq_less_or_eq lessI)
  then show ?case using aligned_step by (auto simp: sorted_append allowed_def)
qed simp

lemma span_exact:
  assumes "sorted path" "f < length path"
  shows "path ! f = int (2 * i + 1) \<longleftrightarrow> fst (span_of path i) \<le> int f \<and> int f \<le> snd (span_of path i)"
proof -
  define as where "as = filter (\<lambda>f. path ! f = int (2 * i + 1)) [0..<length path]"
  have as: "x \<in> set as \<longleftrightarrow> x < length path \<and> path ! x = int (2 * i + 1)" for x by (auto simp: as_def)
  have sp: "span_of path i = (if as \<noteq> [] then (int (hd as), int (last as)) else (int (length path), int (length path) - 1))"
    by (simp add: span_of_def as_def Let_def)
  have "sorted as" unfolding as_def by (intro sorted_wrt_filter) simp
  show ?thesis
  proof (cases "as = []")
    case True
    then have "path ! f \<noteq> int (2 * i + 1)" using as [of f] assms(2) by simp
    then show ?thesis using True assms(2) by (simp add: sp)
  next
    case False
    have ends: "hd as \<in> set as" "last as \<in> set as" using False by simp_all
    have "hd as \<le> x \<and> x \<le> last as" if "x \<in> set as" for x
      using that False \<open>sorted as\<close>
      by (metis hd_conv_nth in_set_conv_nth last_conv_nth le0 length_greater_0_conv less_imp_diff_less sorted_nth_mono diff_Suc_1 Suc_pred lessI less_Suc_eq_le)
    moreover have "path ! f = int (2 * i + 1)" if "hd as \<le> f" "f \<le> last as"
      using sorted_nth_mono [OF assms(1) that(1)] sorted_nth_mono [OF assms(1) that(2)] ends as assms(2) by auto
    ultimately show ?thesis using as [of f] assms(2) False by (auto simp: sp)
  qed
qed

text \<open>C6: Forced alignment finds a best alignment. Whenever the frames admit any alignment of the target phonemes (a path
  through blank and label positions that may stay, advance or skip a blank between distinct labels, and ends in the last
  label or the last blank), the computed path is such an alignment, no alignment has a higher total log-probability, and
  the span returned for each phoneme is exactly the set of frames the path assigns to it.\<close>

theorem forced_align_optimal:
  assumes "target_ids \<noteq> []" "length target_ids \<le> length lp"
    and "s \<in> final_positions (extended blank target_ids)"
    and "aligned lp blank (extended blank target_ids) (length lp - 1) s some_path some_score"
  shows "\<exists>path best e. e \<in> final_positions (extended blank target_ids)
    \<and> aligned lp blank (extended blank target_ids) (length lp - 1) e path best
    \<and> (\<forall>s' path' v. s' \<in> final_positions (extended blank target_ids)
          \<longrightarrow> aligned lp blank (extended blank target_ids) (length lp - 1) s' path' v \<longrightarrow> v \<le> best)
    \<and> length (forced_align lp target_ids blank) = length target_ids
    \<and> (\<forall>i < length target_ids. \<forall>f < length lp.
          path ! f = 2 * i + 1 \<longleftrightarrow> fst (forced_align lp target_ids blank ! i) \<le> int f \<and> int f \<le> snd (forced_align lp target_ids blank ! i))"
proof -
  let ?ext = "extended blank target_ids" and ?F = "length lp - 1"
  let ?final = "trellis lp blank ?ext ?F"
  let ?e = "end_position ?final"
  have l: "length ?ext \<ge> 3" using assms(1) by (cases target_ids) (simp_all add: length_extended)
  have pos: "length lp \<ge> 1" using assms(1, 2) by (cases target_ids) auto
  have best: "?e \<in> final_positions ?ext \<and> (\<exists>w. val_at lp blank ?ext ?F ?e = Some w \<and> v \<le> w)"
    if "s' \<in> final_positions ?ext" "aligned lp blank ?ext ?F s' p v" for s' p v
    using trellis_complete [OF that(2)] end_position_best [of ?final s'] that(1) l by (fastforce simp: final_positions_def)
  obtain w where w: "?e \<in> final_positions ?ext" "val_at lp blank ?ext ?F ?e = Some w" using best [OF assms(3, 4)] by blast
  have "?e < length ?ext" using w(1) l by (auto simp: final_positions_def)
  from trellis_sound [OF this w(2)] obtain path where path: "backtrack lp blank ?ext ?F (int ?e) = map int path"
    "aligned lp blank ?ext ?F ?e path w" by blast
  have vp: "viterbi_path lp blank ?ext = map int path" unfolding viterbi_path_def Let_def by (rule path(1))
  have len: "length path = length lp" using aligned_length [OF path(2)] pos by simp
  have "sorted (map int path)" using aligned_mono [OF path(2)] by (simp add: sorted_map sorted_wrt_map)
  then have "path ! f = 2 * i + 1 \<longleftrightarrow> fst (span_of (map int path) i) \<le> int f \<and> int f \<le> snd (span_of (map int path) i)" if "f < length lp" for f i
    using span_exact [of "map int path" f i] that len by (simp del: of_nat_add of_nat_mult of_nat_Suc)
  moreover have "forced_align lp target_ids blank = map (span_of (map int path)) [0..<length target_ids]"
    using assms(1, 2) by (simp add: forced_align_def Let_def vp)
  ultimately show ?thesis
    using w path(2) best by (intro exI [of _ path] exI [of _ w] exI [of _ ?e]) fastforce
qed

theorem forced_align_optimal_witness:
  "\<exists>path best. aligned [[-3, -1], [-2, -1], [0, -5]] 0 [0, 1, 0] 2 2 path best \<and> best \<ge> -2
     \<or> aligned [[-3, -1], [-2, -1], [0, -5]] 0 [0, 1, 0] 2 1 path best \<and> best \<ge> -2"
proof -
  let ?lp = "[[-3, -1], [-2, -1], [0, -5]] :: real list list"
  have ext: "extended 0 [1] = [0, 1, 0]" by (simp add: extended_def)
  have a: "aligned ?lp 0 [0, 1, 0] 0 1 [1] (-1)" using aligned_start [of 1 "[0, 1, 0]" ?lp 0] by simp
  have b: "aligned ?lp 0 [0, 1, 0] 1 1 [1, 1] (-2)" using aligned_step [OF a, of 1] by (simp add: allowed_def)
  have c: "aligned ?lp 0 (extended 0 [1]) (length ?lp - 1) 2 [1, 1, 2] (-2)"
    unfolding ext using aligned_step [OF b, of 2] by (simp add: allowed_def eval_nat_numeral)
  have fin: "2 \<in> final_positions (extended 0 [1])" unfolding final_positions_def ext by simp
  obtain path best e where opt: "e \<in> final_positions (extended 0 [1])" "aligned ?lp 0 (extended 0 [1]) (length ?lp - 1) e path best"
    "\<forall>s' path' v. s' \<in> final_positions (extended 0 [1]) \<longrightarrow> aligned ?lp 0 (extended 0 [1]) (length ?lp - 1) s' path' v \<longrightarrow> v \<le> best"
    using forced_align_optimal [of "[1]" ?lp 2 0 "[1, 1, 2]" "-2", OF _ _ fin c] by auto
  have "best \<ge> -2" using opt(3) fin c by blast
  moreover have "e = 1 \<or> e = 2" using opt(1) unfolding final_positions_def ext by (simp add: eval_nat_numeral)
  moreover have "aligned ?lp 0 [0, 1, 0] 2 e path best" using opt(2) unfolding ext by (simp add: eval_nat_numeral)
  ultimately show ?thesis by blast
qed

text \<open>With fewer frames than a repeated phoneme needs, no alignment exists: every span is empty and every score 0.\<close>

lemma no_room_for_repetition: "forced_align [[-1, -1], [-1, -1]] [1, 1] 0 = [(2, 1), (2, 1)]"
  by code_simp

text \<open>Scores are between 0 and 1, and grow with the phoneme's margin over its best competitor.\<close>

lemma gop_to_score_unit: "0 < gop_to_score g" "gop_to_score g < 1"
proof -
  define y where "y = exp (- (g + 3) * (3 / 2))"
  have "0 < y" by (simp add: y_def)
  moreover have "gop_to_score g = 1 / (1 + y)" by (simp add: gop_to_score_def y_def)
  ultimately show "0 < gop_to_score g" "gop_to_score g < 1" by simp_all
qed

lemma gop_to_score_mono: "g \<le> h \<Longrightarrow> gop_to_score g \<le> gop_to_score h"
  unfolding gop_to_score_def by (rule divide_left_mono) (simp_all add: add_pos_pos)

lemma gop_scores_unit: "p \<in> set (gop_scores lp ts names blank) \<Longrightarrow> 0 \<le> pgs_score p \<and> pgs_score p \<le> 1"
  by (auto simp: gop_scores_def score_span_def Let_def less_imp_le gop_to_score_unit intro!: round3_unit split: if_split_asm)

end
