(* ===== verification/PronService.thy ===== *)
theory PronService
  imports Gop PyStr Errors
begin

text \<open>
  The pronunciation service around the aligner (\<^verbatim>\<open>pronunciation-service/src/pronunciation\<close>): its settings
  check and shared secret, the bounded upload, the phoneme sequence of a text, the scoring pipeline, the gate that admits
  inferences, and the route. The acoustic model, the decoder of audio and the phonemizer are arguments.
\<close>

section \<open>Settings and secret\<close>

definition require_secret_outside_dev :: "string \<Rightarrow> string \<Rightarrow> string + unit" where
  "require_secret_outside_dev app_env internal_secret =
     (if app_env \<in> {''staging'', ''production''} \<and> py_strip internal_secret = []
      then Inl ''INTERNAL_SECRET is required when APP_ENV is staging/production'' else Inr ())"

text \<open>\<open>hmac.compare_digest\<close> compares text of ASCII characters only, and raises on any other.\<close>

definition is_ascii :: "string \<Rightarrow> bool" where
  "is_ascii t \<longleftrightarrow> (\<forall>c \<in> set t. (of_char c :: nat) < 128)"

definition compare_digest :: "string \<Rightarrow> string \<Rightarrow> error + bool" where
  "compare_digest a b = (if is_ascii a \<and> is_ascii b then Inr (a = b) else Inl (OtherErr ''TypeError''))"

definition require_internal_secret :: "string \<Rightarrow> string option \<Rightarrow> error + unit" where
  "require_internal_secret expected header =
     (if expected = [] then Inr ()
      else case header of
          None \<Rightarrow> Inl (HttpErr 401 ''Invalid or missing credentials'' [])
        | Some h \<Rightarrow> (case compare_digest h expected of
              Inl e \<Rightarrow> Inl e
            | Inr same \<Rightarrow> if same then Inr () else Inl (HttpErr 401 ''Invalid or missing credentials'' [])))"

lemma require_internal_secret_passes:
  "require_internal_secret expected header = Inr () \<longleftrightarrow> expected = [] \<or> header = Some expected \<and> is_ascii expected"
  by (auto simp: require_internal_secret_def compare_digest_def split: option.split)

section \<open>Bounded upload\<close>

definition READ_CHUNK :: nat where "READ_CHUNK = 64 * 1024"

lemma READ_CHUNK_pos: "0 < READ_CHUNK" by (simp add: READ_CHUNK_def)

text \<open>The loop over the chunks: what is still to be read, what was read.\<close>

function read_chunks :: "nat \<Rightarrow> nat \<Rightarrow> nat list \<Rightarrow> nat list list \<Rightarrow> error + nat list" where
  "read_chunks max_bytes seen rest chunks =
     (let chunk = take READ_CHUNK rest in
      if chunk = [] then Inr (concat chunks)
      else let seen1 = seen + length chunk in
        if seen1 > max_bytes then Inl (HttpErr 413 ''Audio upload too large'' [])
        else read_chunks max_bytes seen1 (drop READ_CHUNK rest) (chunks @ [chunk]))"
  by pat_completeness auto
termination
  by (relation "measure (\<lambda>(max_bytes, seen, rest, chunks). length rest)") (auto simp: READ_CHUNK_pos)

declare read_chunks.simps [simp del]

definition read_bounded_upload :: "nat \<Rightarrow> nat list \<Rightarrow> error + nat list" where
  "read_bounded_upload max_bytes audio = read_chunks max_bytes 0 audio []"

lemma read_chunks_result:
  "seen \<le> max_bytes \<Longrightarrow> read_chunks max_bytes seen rest chunks =
    (if seen + length rest \<le> max_bytes then Inr (concat chunks @ rest) else Inl (HttpErr 413 ''Audio upload too large'' []))"
proof (induction max_bytes seen rest chunks rule: read_chunks.induct)
  case (1 max_bytes seen rest chunks)
  let ?c = "take READ_CHUNK rest"
  have len: "length ?c + length (drop READ_CHUNK rest) = length rest" by simp
  have nil: "?c = [] \<longleftrightarrow> rest = []" using READ_CHUNK_pos by simp
  consider "rest = []" | "?c \<noteq> []" "seen + length ?c > max_bytes" | "?c \<noteq> []" "\<not> seen + length ?c > max_bytes" using nil by blast
  then show ?case
  proof cases
    case 1
    then show ?thesis using 1 \<open>seen \<le> max_bytes\<close> by (subst read_chunks.simps) simp
  next
    case 2
    then have "read_chunks max_bytes seen rest chunks = Inl (HttpErr 413 ''Audio upload too large'' [])"
      by (subst read_chunks.simps) (simp only: Let_def if_False if_True)
    then show ?thesis using 2 len by simp
  next
    case 3
    then have "read_chunks max_bytes seen rest chunks
        = read_chunks max_bytes (seen + length ?c) (drop READ_CHUNK rest) (chunks @ [?c])"
      by (subst read_chunks.simps) (simp only: Let_def if_False)
    also have "\<dots> = (if seen + length ?c + length (drop READ_CHUNK rest) \<le> max_bytes
        then Inr (concat (chunks @ [?c]) @ drop READ_CHUNK rest) else Inl (HttpErr 413 ''Audio upload too large'' []))"
      by (rule 1(1) [OF refl 3(1) refl 3(2)]) (use 3(2) in simp)
    finally show ?thesis using len by (simp add: add.assoc)
  qed
qed

lemma read_bounded_upload_result:
  "read_bounded_upload max_bytes audio =
    (if length audio \<le> max_bytes then Inr audio else Inl (HttpErr 413 ''Audio upload too large'' []))"
  by (simp add: read_bounded_upload_def read_chunks_result)

section \<open>Phonemes of a text\<close>

definition split_phonemes :: "string \<Rightarrow> string list" where
  "split_phonemes phonemized = filter (\<lambda>p. p \<noteq> [])
     (split_char (CHR '' '') (map (\<lambda>c. if c = CHR 0x0A \<or> c = CHR ''|'' then CHR '' '' else c) phonemized))"

text \<open>The phonemizer answers one line or several, or fails.\<close>

definition phonemize_text :: "(string \<Rightarrow> string \<Rightarrow> (string + string list) option) \<Rightarrow> string \<Rightarrow> string \<Rightarrow> error + string list" where
  "phonemize_text phonemize text language =
     (if py_strip text = [] then Inr []
      else case phonemize text language of
          None \<Rightarrow> Inl (OtherErr ''PhonemizeError'')
        | Some (Inl line) \<Rightarrow> Inr (split_phonemes line)
        | Some (Inr lines) \<Rightarrow> Inr (split_phonemes (py_join '' '' lines)))"

section \<open>Scoring\<close>

record acoustic_model =
  am_blank_id :: nat
  am_phoneme_to_id :: "string \<Rightarrow> nat option"
  am_id_to_phoneme :: "nat \<Rightarrow> string option"
  am_emission_log_probs :: "real list \<Rightarrow> real list list"

definition score_samples ::
  "acoustic_model \<Rightarrow> (string \<Rightarrow> string \<Rightarrow> error + string list) \<Rightarrow> string \<Rightarrow> real list \<Rightarrow> string \<Rightarrow> error + phoneme_score list" where
  "score_samples am phonemizer language samples target_text = (case phonemizer target_text language of
      Inl e \<Rightarrow> Inl e
    | Inr expected \<Rightarrow> let target_ids = List.map_filter (am_phoneme_to_id am) expected
        in if expected = [] \<or> target_ids = [] then Inr []
           else Inr (gop_scores (am_emission_log_probs am samples) target_ids (am_id_to_phoneme am) (am_blank_id am)))"

text \<open>\<open>decode\<close> is the audio library.\<close>

definition to_pcm_16k_mono :: "(nat list \<Rightarrow> real list option) \<Rightarrow> nat \<Rightarrow> nat list \<Rightarrow> string + real list" where
  "to_pcm_16k_mono decode max_bytes audio =
     (if audio = [] then Inl ''Empty audio''
      else if length audio > max_bytes then Inl (''Audio too large ('' @ show_nat (length audio) @ '' > '' @ show_nat max_bytes @ '' bytes)'')
      else case decode audio of None \<Rightarrow> Inl ''Could not decode audio'' | Some samples \<Rightarrow> Inr samples)"

definition score_route ::
  "acoustic_model \<Rightarrow> (string \<Rightarrow> string \<Rightarrow> error + string list) \<Rightarrow> (nat list \<Rightarrow> real list option) \<Rightarrow> nat \<Rightarrow> string
   \<Rightarrow> string option \<Rightarrow> nat list \<Rightarrow> string \<Rightarrow> error + phoneme_score list" where
  "score_route am phonemizer decode max_audio_bytes secret header audio target_text =
     (case require_internal_secret secret header of Inl e \<Rightarrow> Inl e
      | Inr _ \<Rightarrow> (case read_bounded_upload max_audio_bytes audio of Inl e \<Rightarrow> Inl e
      | Inr data \<Rightarrow> (case to_pcm_16k_mono decode max_audio_bytes data of Inl msg \<Rightarrow> Inl (HttpErr 422 msg [])
      | Inr samples \<Rightarrow> score_samples am phonemizer ''en-us'' samples target_text)))"

section \<open>The inference gate\<close>

text \<open>The semaphore: free permits, the requests that wait in order, and those that run.\<close>

record gate =
  g_max :: nat
  g_value :: nat
  g_waiting :: "nat list"
  g_running :: "nat list"

definition new_gate :: "int \<Rightarrow> error + gate" where
  "new_gate max_concurrent = (if max_concurrent < 1 then Inl (OtherErr ''ValueError'')
     else Inr \<lparr>g_max = nat max_concurrent, g_value = nat max_concurrent, g_waiting = [], g_running = []\<rparr>)"

definition gate_enter :: "nat \<Rightarrow> gate \<Rightarrow> gate" where
  "gate_enter r g = (if g_value g = 0 \<or> g_waiting g \<noteq> [] then g\<lparr>g_waiting := g_waiting g @ [r]\<rparr>
     else g\<lparr>g_value := g_value g - 1, g_running := g_running g @ [r]\<rparr>)"

text \<open>Leaving, with a result or an exception alike: the permit goes to the first request that waits.\<close>

definition gate_leave :: "nat \<Rightarrow> gate \<Rightarrow> gate" where
  "gate_leave r g = (let g1 = g\<lparr>g_running := remove1 r (g_running g)\<rparr> in
     case g_waiting g1 of [] \<Rightarrow> g1\<lparr>g_value := g_value g1 + 1\<rparr>
     | w # ws \<Rightarrow> g1\<lparr>g_waiting := ws, g_running := g_running g1 @ [w]\<rparr>)"

text \<open>A request that is cancelled while it waits.\<close>

definition gate_cancel :: "nat \<Rightarrow> gate \<Rightarrow> gate" where
  "gate_cancel r g = g\<lparr>g_waiting := remove1 r (g_waiting g)\<rparr>"

inductive gate_step :: "gate \<Rightarrow> gate \<Rightarrow> bool" where
  enter: "r \<notin> set (g_waiting g) \<union> set (g_running g) \<Longrightarrow> gate_step g (gate_enter r g)"
| leave: "r \<in> set (g_running g) \<Longrightarrow> gate_step g (gate_leave r g)"
| cancel: "r \<in> set (g_waiting g) \<Longrightarrow> gate_step g (gate_cancel r g)"

inductive_cases gate_stepE: "gate_step g g'"

definition gate_inv :: "gate \<Rightarrow> bool" where
  "gate_inv g \<longleftrightarrow> length (g_running g) + g_value g = g_max g \<and> (g_waiting g \<noteq> [] \<longrightarrow> g_value g = 0)
     \<and> distinct (g_running g @ g_waiting g)"

lemma gate_enter_inv: "r \<notin> set (g_waiting g) \<union> set (g_running g) \<Longrightarrow> gate_inv g \<Longrightarrow> gate_inv (gate_enter r g)"
  by (auto simp: gate_inv_def gate_enter_def)

lemma gate_leave_inv: "r \<in> set (g_running g) \<Longrightarrow> gate_inv g \<Longrightarrow> gate_inv (gate_leave r g)"
  using length_pos_if_in_set [of r "g_running g"] length_remove1 [of r "g_running g"]
  by (cases "length (g_running g)") (auto simp: gate_inv_def gate_leave_def Let_def length_remove1 dest: set_remove1_subset [THEN subsetD] split: list.split)

lemma gate_cancel_inv: "gate_inv g \<Longrightarrow> gate_inv (gate_cancel r g)"
  by (auto simp: gate_inv_def gate_cancel_def dest: set_remove1_subset [THEN subsetD])

lemma gate_max [simp]: "g_max (gate_enter r g) = g_max g" "g_max (gate_leave r g) = g_max g" "g_max (gate_cancel r g) = g_max g"
  by (auto simp: gate_enter_def gate_leave_def gate_cancel_def Let_def split: list.split)

lemma gate_inv_step: "gate_step g g' \<Longrightarrow> gate_inv g \<Longrightarrow> gate_inv g' \<and> g_max g' = g_max g"
  by (auto elim!: gate_stepE intro: gate_enter_inv gate_leave_inv gate_cancel_inv)

lemma gate_inv_steps: "gate_step\<^sup>*\<^sup>* g g' \<Longrightarrow> gate_inv g \<Longrightarrow> gate_inv g' \<and> g_max g' = g_max g"
  by (induction rule: rtranclp_induct) (auto dest: gate_inv_step)

text \<open>The requests that leave one after the other, and nobody else moves.\<close>

fun leaves :: "nat list \<Rightarrow> gate \<Rightarrow> gate" where
  "leaves [] g = g"
| "leaves (r # rs) g = leaves rs (gate_leave r g)"

lemma gate_leave_waiting: "g_waiting (gate_leave r g) = tl (g_waiting g)"
  by (auto simp: gate_leave_def Let_def split: list.split)

lemma gate_leave_running:
  "g_running (gate_leave r g) = remove1 r (g_running g) @ take 1 (g_waiting g)"
  by (auto simp: gate_leave_def Let_def split: list.split)

text \<open>As many of the waiting as have left run in the order of their arrival.\<close>

lemma leaves_admit:
  assumes "set rs \<subseteq> set (g_running g)" "distinct rs" "gate_inv g"
  shows "g_waiting (leaves rs g) = drop (length rs) (g_waiting g)
    \<and> set (g_running (leaves rs g)) = (set (g_running g) - set rs) \<union> set (take (length rs) (g_waiting g))"
  using assms
proof (induction rs arbitrary: g)
  case (Cons r rs)
  let ?g = "gate_leave r g"
  have dist: "distinct (g_running g @ g_waiting g)" using Cons.prems(3) by (simp add: gate_inv_def)
  have run: "set (g_running ?g) = (set (g_running g) - {r}) \<union> set (take 1 (g_waiting g))"
    using dist by (auto simp: gate_leave_running)
  have sub: "set rs \<subseteq> set (g_running ?g)" using Cons.prems(1, 2) run by auto
  have inv: "gate_inv ?g" using Cons.prems by (intro gate_leave_inv) auto
  have disj: "set (take 1 (g_waiting g)) \<inter> set rs = {}"
    using dist Cons.prems(1) by (auto dest: in_set_takeD)
  have "set (take 1 (g_waiting g)) \<union> set (take (length rs) (tl (g_waiting g))) = set (take (Suc (length rs)) (g_waiting g))"
    by (cases "g_waiting g") auto
  then show ?case
    using Cons.IH [OF sub _ inv] Cons.prems(2) run disj by (auto simp: gate_leave_waiting drop_Suc)
qed simp



text \<open>The route: without the secret nothing is read, scored or decoded; scores are in the unit interval, at most one for
  every expected phoneme.\<close>

lemma score_route_secret:
  assumes "secret \<noteq> []" "header \<noteq> Some secret \<or> \<not> is_ascii secret"
  shows "score_route am phonemizer decode n secret header audio text
    \<in> {Inl (HttpErr 401 ''Invalid or missing credentials'' []), Inl (OtherErr ''TypeError'')}"
  using assms by (auto simp: score_route_def require_internal_secret_def compare_digest_def split: option.split)

text \<open>A secret with a character outside ASCII passes the start-up check and locks everybody out, the backend included.\<close>

lemma non_ascii_secret_locks_out:
  assumes "secret \<noteq> []" "\<not> is_ascii secret"
  shows "score_route am phonemizer decode n secret (Some secret) audio text = Inl (OtherErr ''TypeError'')"
  using assms by (simp add: score_route_def require_internal_secret_def compare_digest_def)

lemma deployed_service_is_locked:
  assumes "require_secret_outside_dev app_env secret = Inr ()" "app_env \<in> {''staging'', ''production''}"
  shows "score_route am phonemizer decode n secret None audio text = Inl (HttpErr 401 ''Invalid or missing credentials'' [])"
proof -
  have "secret \<noteq> []" using assms by (auto simp: require_secret_outside_dev_def split: if_split_asm)
  then show ?thesis by (simp add: score_route_def require_internal_secret_def)
qed

lemma score_samples_unit:
  assumes "score_samples am phonemizer language samples text = Inr scores" "s \<in> set scores"
  shows "0 \<le> pgs_score s \<and> pgs_score s \<le> 1"
  using assms gop_scores_unit by (auto simp: score_samples_def Let_def split: sum.splits if_split_asm)

end
