(* ===== verification/Speech.thy ===== *)
theory Speech
  imports Drills Runtime Providers PronService
begin

text \<open>
  The speech providers of the backend: recognition (\<^verbatim>\<open>app/features/conversation/providers/stt.py\<close>), synthesis
  (\<^verbatim>\<open>providers/tts.py\<close>, \<^verbatim>\<open>tts_cache_factory.py\<close>), the client of the pronunciation service
  (\<^verbatim>\<open>app/features/pronunciation/provider.py\<close>) and the dependencies that choose them, and an attempt scored across
  both processes. The answers of the recogniser and of the HTTP client are arguments, like \<open>str\<close> and \<open>float\<close> of a
  decoded value.
\<close>

section \<open>Recognition\<close>

text \<open>A word of the recogniser's answer: a dictionary, or an object with both attributes.\<close>

datatype raw_word = WordDict "(string \<times> json) list" | WordObject json json

record stt_answer =
  sa_text :: "string option"
  sa_words :: "raw_word list option"

definition as_dict :: "raw_word \<Rightarrow> (string \<times> json) list" where
  "as_dict w = (case w of WordDict d \<Rightarrow> d | WordObject word prob \<Rightarrow> [(''word'', word), (''probability'', prob)])"

text \<open>\<open>isinstance(value, (int, float))\<close> also holds of a boolean.\<close>

definition number_of :: "(string \<Rightarrow> real) \<Rightarrow> json \<Rightarrow> real option" where
  "number_of float_of v = (case v of JNum n \<Rightarrow> Some (float_of n) | JBool b \<Rightarrow> Some (if b then 1 else 0) | _ \<Rightarrow> None)"

definition prob_of :: "(string \<Rightarrow> real) \<Rightarrow> (string \<times> json) list \<Rightarrow> real option" where
  "prob_of float_of w = number_of float_of (json_get w ''probability'' JNull)"

definition transcription_failed :: error where
  "transcription_failed = DomainErr LlmProviderError ''Transcription failed''"

definition transcribe_text :: "error + stt_answer \<Rightarrow> error + string" where
  "transcribe_text r = (case r of Inl _ \<Rightarrow> Inl transcription_failed
    | Inr a \<Rightarrow> Inr (py_strip (case sa_text a of None \<Rightarrow> [] | Some t \<Rightarrow> t)))"

definition transcribe_verbose :: "(json \<Rightarrow> string) \<Rightarrow> (string \<Rightarrow> real) \<Rightarrow> error + stt_answer \<Rightarrow> error + verbose_transcript" where
  "transcribe_verbose str_of float_of r = (case r of Inl _ \<Rightarrow> Inl transcription_failed
    | Inr a \<Rightarrow>
        let word = (\<lambda>w. py_strip (str_of (json_get w ''word'' (JStr []))));
            ws = map as_dict (case sa_words a of None \<Rightarrow> [] | Some l \<Rightarrow> l)
        in Inr \<lparr>vt_text = py_strip (case sa_text a of None \<Rightarrow> [] | Some t \<Rightarrow> t),
             vt_words = map (\<lambda>w. \<lparr>tw_word = word w, tw_probability = prob_of float_of w\<rparr>) (filter (\<lambda>w. word w \<noteq> []) ws)\<rparr>)"

definition build_stt_provider :: "string \<Rightarrow> string \<Rightarrow> clients \<Rightarrow> (error + nat option) \<times> clients" where
  "build_stt_provider engine api_key st =
     (if engine = ''groq''
      then if py_strip api_key = [] then (Inl (DomainErr LlmProviderError ''GROQ_API_KEY is required when STT_ENGINE=groq''), st)
           else (Inr (Some (cl_next st)), register_closeable (cl_next st) (st\<lparr>cl_next := cl_next st + 1\<rparr>))
      else (Inr None, st))"

text \<open>The shared provider is built once for a configuration; \<open>cached\<close> is the client of an earlier call.\<close>

definition get_stt_provider :: "settings \<Rightarrow> nat option \<Rightarrow> clients \<Rightarrow> (error + nat) \<times> clients" where
  "get_stt_provider s cached st =
     (if \<not> drill_stt_enabled s then (Inl (DomainErr NotFoundError ''Server-side transcription is not enabled''), st)
      else case cached of Some n \<Rightarrow> (Inr n, st)
        | None \<Rightarrow> (case build_stt_provider ''groq'' (cfg_groq_api_key s) st of
            (Inl e, st1) \<Rightarrow> (Inl e, st1)
          | (Inr None, st1) \<Rightarrow> (Inl (DomainErr NotFoundError ''Server-side transcription is not enabled''), st1)
          | (Inr (Some n), st1) \<Rightarrow> (Inr n, st1)))"

section \<open>Synthesis\<close>

text \<open>The chunks of the endpoint's stream with their kind, whether it breaks, and the seconds it takes.\<close>

definition edge_synthesize :: "real \<Rightarrow> (string \<times> nat list) list \<Rightarrow> bool \<Rightarrow> real option \<Rightarrow> error + nat list" where
  "edge_synthesize timeout_seconds chunks broken duration =
     (if broken \<or> (case duration of None \<Rightarrow> True | Some d \<Rightarrow> timeout_seconds \<le> d)
      then Inl (DomainErr LlmProviderError ''TTS synthesis failed'')
      else Inr (concat (map snd (filter (\<lambda>c. fst c = ''audio'') chunks))))"

datatype tts_backend = PlainTts | LruTts nat | RedisTts nat

text \<open>A Redis cache opens a client, registered for the shutdown.\<close>

definition build_tts_cache :: "int \<Rightarrow> string \<Rightarrow> clients \<Rightarrow> (error + tts_backend) \<times> clients" where
  "build_tts_cache max_entries redis_url st =
     (if py_strip redis_url = [] then (case new_cache max_entries of Inl e \<Rightarrow> (Inl e, st) | Inr _ \<Rightarrow> (Inr (LruTts (nat max_entries)), st))
      else (Inr (RedisTts (cl_next st)), register_closeable (cl_next st) (st\<lparr>cl_next := cl_next st + 1\<rparr>)))"

text \<open>\<open>lru_cache\<close> with one entry: \<open>cached\<close> is the provider of an earlier call.\<close>

definition shared_tts_provider :: "settings \<Rightarrow> int \<Rightarrow> tts_backend option \<Rightarrow> clients \<Rightarrow> (error + tts_backend) \<times> clients" where
  "shared_tts_provider s max_entries cached st = (case cached of Some b \<Rightarrow> (Inr b, st)
     | None \<Rightarrow> if max_entries \<le> 0 then (Inr PlainTts, st) else build_tts_cache max_entries (cfg_redis_url s) st)"

definition get_tts_provider :: "settings \<Rightarrow> int \<Rightarrow> tts_backend option \<Rightarrow> clients \<Rightarrow> (error + tts_backend) \<times> clients" where
  "get_tts_provider s max_entries cached st =
     (if \<not> drill_tts_enabled s then (Inl (DomainErr NotFoundError ''Server-side text-to-speech is not enabled''), st)
      else shared_tts_provider s max_entries cached st)"

section \<open>The client of the pronunciation service\<close>

text \<open>An entry that is no dictionary or misses a field is dropped. Iterating a string or a dictionary gives strings; iterating
  null, a number or a boolean raises.\<close>

definition phoneme_entry :: "(string \<Rightarrow> real) \<Rightarrow> json \<Rightarrow> (string \<times> real) option" where
  "phoneme_entry float_of v = (case v of
      JObj ob \<Rightarrow> (case (json_get ob ''phoneme'' JNull, number_of float_of (json_get ob ''score'' JNull)) of
          (JStr p, Some x) \<Rightarrow> Some (p, x) | _ \<Rightarrow> None)
    | _ \<Rightarrow> None)"

definition parse_phonemes :: "(string \<Rightarrow> real) \<Rightarrow> json \<Rightarrow> error + (string \<times> real) list" where
  "parse_phonemes float_of payload = (case payload of
      JObj ob \<Rightarrow> (case json_get ob ''phonemes'' (JList []) of
          JList xs \<Rightarrow> Inr (List.map_filter (phoneme_entry float_of) xs)
        | JStr _ \<Rightarrow> Inr [] | JObj _ \<Rightarrow> Inr []
        | _ \<Rightarrow> Inl (OtherErr ''TypeError''))
    | _ \<Rightarrow> Inr [])"

definition gop_headers :: "string \<Rightarrow> string option" where
  "gop_headers secret = (if secret = [] then None else Some secret)"

text \<open>\<open>post\<close> sends the secret header, the audio and the text: \<open>None\<close> is a transport error, an error status or a body that is
  not JSON.\<close>

definition http_gop :: "(string \<Rightarrow> real) \<Rightarrow> string \<Rightarrow> (string option \<Rightarrow> nat list \<Rightarrow> string \<Rightarrow> json option) \<Rightarrow> gop" where
  "http_gop float_of secret post audio target_text =
     (if audio = [] then Inr []
      else case post (gop_headers secret) audio target_text of
          None \<Rightarrow> Inl (DomainErr LlmProviderError ''Pronunciation scoring failed'')
        | Some payload \<Rightarrow> parse_phonemes float_of payload)"

definition build_pronunciation_provider ::
  "(string \<Rightarrow> real) \<Rightarrow> (string option \<Rightarrow> nat list \<Rightarrow> string \<Rightarrow> json option) \<Rightarrow> string \<Rightarrow> string \<Rightarrow> clients \<Rightarrow> (error + gop) \<times> clients" where
  "build_pronunciation_provider float_of post engine secret st =
     (if engine = ENGINE_FAKE then (Inr (\<lambda>audio target. Inr []), st)
      else if engine = ENGINE_GOP then (Inr (http_gop float_of secret post), register_closeable (cl_next st) (st\<lparr>cl_next := cl_next st + 1\<rparr>))
      else (Inl (DomainErr LlmProviderError (''Unsupported pronunciation engine: '' @ [CHR 0x27] @ engine @ [CHR 0x27])), st))"

text \<open>The probe of the operational routes: \<open>get_health\<close> fetches an address, \<open>False\<close> for a transport error or an error status.\<close>

definition rstrip_slash :: "string \<Rightarrow> string" where
  "rstrip_slash u = rev (dropWhile (\<lambda>c. c = CHR ''/'') (rev u))"

definition gop_service_ready :: "(string \<Rightarrow> bool) \<Rightarrow> string \<Rightarrow> bool" where
  "gop_service_ready get_health base_url = get_health (rstrip_slash base_url @ ''/health'')"

section \<open>An attempt across both processes\<close>

text \<open>The JSON the service answers with.\<close>

definition score_out :: "(real \<Rightarrow> string) \<Rightarrow> phoneme_score list \<Rightarrow> json" where
  "score_out repr scores = JObj [(''phonemes'', JList (map (\<lambda>s. JObj [(''phoneme'', JStr (pgs_phoneme s)), (''score'', JNum (repr (pgs_score s))),
     (''start'', JNum (py_str_int (pgs_start s))), (''end'', JNum (py_str_int (pgs_end s)))]) scores))]"

text \<open>The wire: an error of the service is an error status.\<close>

definition score_over_http ::
  "(real \<Rightarrow> string) \<Rightarrow> (string option \<Rightarrow> nat list \<Rightarrow> string \<Rightarrow> error + phoneme_score list) \<Rightarrow> string option \<Rightarrow> nat list \<Rightarrow> string \<Rightarrow> json option" where
  "score_over_http repr service header audio target_text = (case service header audio target_text of
      Inl _ \<Rightarrow> None | Inr scores \<Rightarrow> Some (score_out repr scores))"

lemma parse_score_out:
  assumes "\<forall>s \<in> set scores. float_of (repr (pgs_score s)) = pgs_score s"
  shows "parse_phonemes float_of (score_out repr scores) = Inr (map (\<lambda>s. (pgs_phoneme s, pgs_score s)) scores)"
proof -
  have "List.map_filter (phoneme_entry float_of) (map (\<lambda>s. JObj [(''phoneme'', JStr (pgs_phoneme s)), (''score'', JNum (repr (pgs_score s))),
      (''start'', JNum (py_str_int (pgs_start s))), (''end'', JNum (py_str_int (pgs_end s)))]) scores)
      = map (\<lambda>s. (pgs_phoneme s, pgs_score s)) scores"
    using assms by (induction scores) (simp_all add: phoneme_entry_def number_of_def json_get_def)
  then show ?thesis by (simp add: parse_phonemes_def score_out_def json_get_def)
qed

text \<open>C31: Scoring an attempt across the two processes is transparent, and the phonemes are a complement. If floats survive
  their JSON text, an attempt scored by the backend through the HTTP client reports exactly the phonemes and scores the
  service computed, in order, and nothing when the service refuses or fails (wrong secret, oversized or undecodable
  audio, no phonemizer); the words, misses and transcript are in every case those of an attempt without any engine.\<close>

theorem attempt_across_services:
  assumes "audio \<noteq> []" "transcribe audio = Inr v" "service = score_route am phonemizer decode max_audio internal_secret"
    and "\<forall>scores. service (gop_headers secret) audio target = Inr scores \<longrightarrow>
      (\<forall>s \<in> set scores. float_of (repr (pgs_score s)) = pgs_score s)"
    and "build_pronunciation_provider float_of (score_over_http repr service) ENGINE_GOP secret st = (Inr engine, st')"
  shows "\<exists>r r0. score_shadowing (Some transcribe) (Some engine) True target audio = Inr r
    \<and> score_shadowing (Some transcribe) None True target audio = Inr r0
    \<and> r = r0\<lparr>ar_phonemes := ar_phonemes r\<rparr>
    \<and> ar_phonemes r = (case service (gop_headers secret) audio target of
        Inl _ \<Rightarrow> [] | Inr scores \<Rightarrow> map (\<lambda>s. (pgs_phoneme s, pgs_score s)) scores)
    \<and> (internal_secret \<noteq> [] \<and> secret \<noteq> internal_secret \<longrightarrow> ar_phonemes r = [])"
proof -
  have engine: "engine = http_gop float_of secret (score_over_http repr service)"
    using assms(5) by (simp add: build_pronunciation_provider_def engine_defs)
  let ?ps = "case service (gop_headers secret) audio target of Inl _ \<Rightarrow> [] | Inr scores \<Rightarrow> map (\<lambda>s. (pgs_phoneme s, pgs_score s)) scores"
  have llm: "isinstance LlmProviderError LlmProviderError" by code_simp
  have gop: "score_phonemes (Some engine) target audio = Inr ?ps"
    using assms(1, 4) parse_score_out
    by (auto simp: score_phonemes_def engine http_gop_def score_over_http_def is_llm_error_def llm split: sum.split)
  have refused: "internal_secret \<noteq> [] \<and> secret \<noteq> internal_secret \<longrightarrow> ?ps = []"
    by (auto simp: assms(3) score_route_def require_internal_secret_def compare_digest_def gop_headers_def split: sum.split)
  show ?thesis using assms(1, 2) gop refused by (simp add: score_shadowing_def score_phonemes_def Let_def)
qed

definition demo_model :: acoustic_model where
  "demo_model = \<lparr>am_blank_id = 0, am_phoneme_to_id = (\<lambda>p. if p = ''a'' then Some 1 else None),
     am_id_to_phoneme = (\<lambda>i. if i = 1 then Some ''a'' else None), am_emission_log_probs = (\<lambda>_. [])\<rparr>"

definition demo_service :: "string option \<Rightarrow> nat list \<Rightarrow> string \<Rightarrow> error + phoneme_score list" where
  "demo_service = score_route demo_model (\<lambda>t l. Inr [''a'', ''b'']) (\<lambda>_. Some [0]) 10 ''s3''"

theorem attempt_across_services_witness:
  "\<exists>r. score_shadowing (Some (\<lambda>_. Inr \<lparr>vt_text = ''ab'', vt_words = []\<rparr>))
      (Some (http_gop (\<lambda>_. 0) ''s3'' (score_over_http (\<lambda>_. ''0.0'') demo_service))) True ''ab'' [1, 2] = Inr r
    \<and> ar_phonemes r = [(''a'', 0)]"
proof -
  have run: "demo_service (gop_headers ''s3'') [1, 2] ''ab'' = Inr [\<lparr>pgs_phoneme = ''a'', pgs_score = 0, pgs_start = 0, pgs_end = - 1\<rparr>]"
    by (simp add: demo_service_def score_route_def require_internal_secret_def compare_digest_def is_ascii_def gop_headers_def read_bounded_upload_result to_pcm_16k_mono_def
        score_samples_def demo_model_def map_filter_def gop_scores_def forced_align_def score_span_def Let_def)
  have a: "[1, 2] \<noteq> ([] :: nat list)" by simp
  have v: "(\<lambda>_ :: nat list. Inr \<lparr>vt_text = ''ab'', vt_words = []\<rparr> :: error + verbose_transcript) [1, 2] = Inr \<lparr>vt_text = ''ab'', vt_words = []\<rparr>" by simp
  have f: "\<forall>scores. demo_service (gop_headers ''s3'') [1, 2] ''ab'' = Inr scores \<longrightarrow> (\<forall>s \<in> set scores. (\<lambda>_. 0) ((\<lambda>_. ''0.0'') (pgs_score s)) = pgs_score s)"
    unfolding run by simp
  have e: "build_pronunciation_provider (\<lambda>_. 0) (score_over_http (\<lambda>_. ''0.0'') demo_service) ENGINE_GOP ''s3'' no_clients
      = (Inr (http_gop (\<lambda>_. 0) ''s3'' (score_over_http (\<lambda>_. ''0.0'') demo_service)), register_closeable (cl_next no_clients) (no_clients\<lparr>cl_next := cl_next no_clients + 1\<rparr>))"
    by (simp add: build_pronunciation_provider_def engine_defs)
  from attempt_across_services [OF a v demo_service_def f e] show ?thesis unfolding run by auto
qed

text \<open>A null list of phonemes is not caught: the attempt fails although its words are known.\<close>

lemma null_phonemes_break_attempt:
  assumes "audio \<noteq> []" "transcribe audio = Inr v" "\<And>h a t. post h a t = Some (JObj [(''phonemes'', JNull)])"
  shows "score_shadowing (Some transcribe) (Some (http_gop float_of secret post)) True target audio = Inl (OtherErr ''TypeError'')"
  using assms by (simp add: score_shadowing_def score_phonemes_def http_gop_def parse_phonemes_def json_get_def is_llm_error_def)

end
