(* ===== verification/Wiring.thy ===== *)
theory Wiring
  imports Speech Missions DebriefProps RateLimit
begin

text \<open>
  The objects the dependency modules construct from the settings (\<^verbatim>\<open>app/features/*/dependencies.py\<close>,
  \<^verbatim>\<open>app/config.py\<close>): which model, recogniser and voice a feature gets, the rate limiters, the pool, and what the client is
  told about them.
\<close>

section \<open>Numeric settings\<close>

text \<open>The fields of \<open>Settings\<close> that size things, next to the record \<open>settings\<close> of the theory \<open>Runtime\<close>. A pair is a
  limit and its window in seconds.\<close>

record limits =
  lim_db_pool_size :: nat
  lim_db_max_overflow :: nat
  lim_login :: "nat \<times> nat"
  lim_register :: "nat \<times> nat"
  lim_login_ip :: "nat \<times> nat"
  lim_register_ip :: "nat \<times> nat"
  lim_refresh :: "nat \<times> nat"
  lim_change_password :: "nat \<times> nat"
  lim_conversation :: "nat \<times> nat"
  lim_debrief :: "nat \<times> nat"
  lim_mission :: "nat \<times> nat"
  lim_shadowing :: "nat \<times> nat"
  lim_max_upload_bytes :: nat
  lim_max_request_body_bytes :: nat
  lim_rate_limit_max_keys :: nat
  lim_tts_cache_max_entries :: int
  lim_correction_enabled :: bool
  lim_correction_min_words :: nat
  lim_deepseek_conversation_max_tokens :: nat
  lim_conversation_history_max_messages :: nat
  lim_conversation_transcript_max_messages :: nat
  lim_deepseek_debrief_max_tokens :: nat
  lim_deepseek_mission_max_tokens :: nat
  lim_deepseek_shadowing_max_tokens :: nat
  lim_debrief_max_errors :: nat
  lim_debrief_max_learner_turns :: nat

definition default_limits :: limits where
  "default_limits = \<lparr>lim_db_pool_size = 10, lim_db_max_overflow = 10, lim_login = (5, 60), lim_register = (5, 60),
     lim_login_ip = (30, 60), lim_register_ip = (30, 60), lim_refresh = (10, 60), lim_change_password = (5, 900),
     lim_conversation = (20, 60), lim_debrief = (5, 60), lim_mission = (5, 60), lim_shadowing = (20, 60),
     lim_max_upload_bytes = 10 * 1024 * 1024, lim_max_request_body_bytes = 12 * 1024 * 1024, lim_rate_limit_max_keys = 1000,
     lim_tts_cache_max_entries = 256, lim_correction_enabled = True, lim_correction_min_words = 3,
     lim_deepseek_conversation_max_tokens = 400, lim_conversation_history_max_messages = 20,
     lim_conversation_transcript_max_messages = 200, lim_deepseek_debrief_max_tokens = 900, lim_deepseek_mission_max_tokens = 500,
     lim_deepseek_shadowing_max_tokens = 300, lim_debrief_max_errors = 5, lim_debrief_max_learner_turns = 60\<rparr>"

text \<open>The other defaults; the signing secret has none.\<close>

definition default_settings :: "string \<Rightarrow> settings" where
  "default_settings jwt_secret = \<lparr>cfg_app_env = ''dev'', cfg_expose_reset_token = False, cfg_resend_api_key = [], cfg_mail_from = [],
     cfg_metrics_token = [], cfg_alert_webhook_url = [], cfg_jwt_secret = jwt_secret, cfg_purge_interval_seconds = 6 * 3600,
     cfg_trust_proxy_headers = False, cfg_trusted_proxy_count = 1, cfg_redis_url = [], cfg_cors_allow_origins = ''*'',
     cfg_cors_allow_credentials = True, cfg_deepseek_api_key = [], cfg_deepseek_base_url = ''https://api.deepseek.com'',
     cfg_deepseek_model = ''deepseek-v4-flash'', cfg_deepseek_timeout_seconds = 20, cfg_deepseek_max_retries = 1,
     cfg_voice_engine = ''fake'', cfg_debrief_engine = ''fake'', cfg_mission_engine = ''fake'', cfg_shadowing_engine = ''fake'',
     cfg_conversation_stt = ''device'', cfg_conversation_tts = ''device'', cfg_tts_engine = ''edge'', cfg_stt_engine = ''auto'',
     cfg_groq_api_key = [], cfg_groq_base_url = ''https://api.groq.com/openai/v1'', cfg_groq_llm_model = ''llama-3.3-70b-versatile'',
     cfg_pronunciation_engine = ''fake'', cfg_gop_service_url = ''http://localhost:8100'', cfg_gop_service_secret = []\<rparr>"

text \<open>What one worker's engine hands out at most.\<close>

definition pool_capacity :: "limits \<Rightarrow> nat" where
  "pool_capacity l = lim_db_pool_size l + lim_db_max_overflow l"

text \<open>The names a setting of an engine may have.\<close>

definition ENGINE_NAMES :: "string list" where
  "ENGINE_NAMES = [ENGINE_FAKE, ENGINE_DEEPSEEK, ENGINE_GROQ, ENGINE_GROQ_FALLBACK]"

section \<open>Language models of the features\<close>

datatype feature_llm = DemoDebrief | DemoMission | DemoShadowing | RealLlm "llm_provider list"

definition real_llm :: "(error + llm_provider list) \<times> clients \<Rightarrow> (error + feature_llm) \<times> clients" where
  "real_llm r = (case r of (Inl e, st) \<Rightarrow> (Inl e, st) | (Inr ps, st) \<Rightarrow> (Inr (RealLlm ps), st))"

definition get_debrief_llm :: "settings \<Rightarrow> limits \<Rightarrow> clients \<Rightarrow> (error + feature_llm) \<times> clients" where
  "get_debrief_llm s l st = (if cfg_debrief_engine s = ENGINE_FAKE then (Inr DemoDebrief, st)
     else real_llm (build_feature_llm (cfg_debrief_engine s) s (lim_deepseek_debrief_max_tokens l) st))"

definition get_onboarding_llm :: "settings \<Rightarrow> limits \<Rightarrow> clients \<Rightarrow> (error + feature_llm) \<times> clients" where
  "get_onboarding_llm s l st = (if cfg_debrief_engine s = ENGINE_FAKE then (Inr DemoDebrief, st)
     else real_llm (build_feature_llm (cfg_debrief_engine s) s (lim_deepseek_debrief_max_tokens l) st))"

definition get_mission_llm :: "settings \<Rightarrow> limits \<Rightarrow> clients \<Rightarrow> (error + feature_llm) \<times> clients" where
  "get_mission_llm s l st = (if cfg_mission_engine s = ENGINE_FAKE then (Inr DemoMission, st)
     else real_llm (build_feature_llm (cfg_mission_engine s) s (lim_deepseek_mission_max_tokens l) st))"

text \<open>Shadowing and the coach of the minimal pairs ask for the one engine by name; every other name gives the demo.\<close>

definition shadowing_llm :: "settings \<Rightarrow> limits \<Rightarrow> clients \<Rightarrow> (error + feature_llm) \<times> clients" where
  "shadowing_llm s l st = (if cfg_shadowing_engine s = ENGINE_DEEPSEEK
     then (case shared_llm_provider \<lparr>la_engine = ENGINE_DEEPSEEK, la_api_key = cfg_deepseek_api_key s, la_base_url = cfg_deepseek_base_url s,
             la_model = cfg_deepseek_model s, la_timeout_seconds = cfg_deepseek_timeout_seconds s, la_max_retries = cfg_deepseek_max_retries s,
             la_max_tokens = lim_deepseek_shadowing_max_tokens l\<rparr> st of
         (Inl e, st1) \<Rightarrow> (Inl e, st1) | (Inr p, st1) \<Rightarrow> (Inr (RealLlm [p]), st1))
     else (Inr DemoShadowing, st))"

definition coaching_llm :: "settings \<Rightarrow> limits \<Rightarrow> clients \<Rightarrow> (error + feature_llm) \<times> clients" where
  "coaching_llm s l st = (if cfg_shadowing_engine s = ENGINE_DEEPSEEK
     then (case shared_llm_provider \<lparr>la_engine = ENGINE_DEEPSEEK, la_api_key = cfg_deepseek_api_key s, la_base_url = cfg_deepseek_base_url s,
             la_model = cfg_deepseek_model s, la_timeout_seconds = cfg_deepseek_timeout_seconds s, la_max_retries = cfg_deepseek_max_retries s,
             la_max_tokens = lim_deepseek_shadowing_max_tokens l\<rparr> st of
         (Inl e, st1) \<Rightarrow> (Inl e, st1) | (Inr p, st1) \<Rightarrow> (Inr (RealLlm [p]), st1))
     else (Inr DemoShadowing, st))"

section \<open>The conversation\<close>

record turn_service =
  ts_llm :: "llm_provider list"
  ts_tts :: "tts_backend option"
  ts_corrector_min_words :: "nat option"
  ts_history_max_messages :: nat
  ts_transcript_max_messages :: nat

definition get_conversation_turn_service ::
  "settings \<Rightarrow> limits \<Rightarrow> tts_backend option \<Rightarrow> clients \<Rightarrow> (error + turn_service) \<times> clients" where
  "get_conversation_turn_service s l cached st =
     (case build_feature_llm (cfg_voice_engine s) s (lim_deepseek_conversation_max_tokens l) st of
        (Inl e, st1) \<Rightarrow> (Inl e, st1)
      | (Inr llm, st1) \<Rightarrow> (case (if conversation_tts_on_server s
            then (case shared_tts_provider s (lim_tts_cache_max_entries l) cached st1 of
                (Inl e, st2) \<Rightarrow> (Inl e, st2) | (Inr b, st2) \<Rightarrow> (Inr (Some b), st2))
            else (Inr None, st1)) of
          (Inl e, st2) \<Rightarrow> (Inl e, st2)
        | (Inr tts, st2) \<Rightarrow> (Inr \<lparr>ts_llm = llm, ts_tts = tts,
              ts_corrector_min_words = (if lim_correction_enabled l then Some (lim_correction_min_words l) else None),
              ts_history_max_messages = lim_conversation_history_max_messages l,
              ts_transcript_max_messages = lim_conversation_transcript_max_messages l\<rparr>, st2)))"

section \<open>Rate limiters\<close>

definition limiter :: "settings \<Rightarrow> nat \<Rightarrow> string \<Rightarrow> nat \<times> nat \<Rightarrow> bool \<Rightarrow> string \<times> bool \<times> backend" where
  "limiter s max_keys namespace m fail_open =
     (namespace, fail_open, build_rate_limiter namespace (fst m) (snd m) (cfg_redis_url s) max_keys fail_open)"

text \<open>Every call of the factory in the dependency modules. The limiter of the placement uses the factory's default bound of
  keys.\<close>

definition auth_limiters :: "settings \<Rightarrow> limits \<Rightarrow> (string \<times> bool \<times> backend) list" where
  "auth_limiters s l = (let k = lim_rate_limit_max_keys l in
     [limiter s k ''register'' (lim_register l) False, limiter s k ''login'' (lim_login l) False, limiter s k ''refresh'' (lim_refresh l) False,
      limiter s k ''register-ip'' (lim_register_ip l) False, limiter s k ''login-ip'' (lim_login_ip l) False,
      limiter s k ''change_password'' (lim_change_password l) False])"

definition conversation_limiter :: "settings \<Rightarrow> limits \<Rightarrow> string \<times> bool \<times> backend" where
  "conversation_limiter s l = limiter s (lim_rate_limit_max_keys l) ''conversation'' (lim_conversation l) True"

definition debrief_limiter :: "settings \<Rightarrow> limits \<Rightarrow> string \<times> bool \<times> backend" where
  "debrief_limiter s l = limiter s (lim_rate_limit_max_keys l) ''debrief'' (lim_debrief l) True"

definition mission_limiter :: "settings \<Rightarrow> limits \<Rightarrow> string \<times> bool \<times> backend" where
  "mission_limiter s l = limiter s (lim_rate_limit_max_keys l) ''mission'' (lim_mission l) True"

definition onboarding_limiter :: "settings \<Rightarrow> limits \<Rightarrow> string \<times> bool \<times> backend" where
  "onboarding_limiter s l = limiter s 1000 ''onboarding'' (lim_debrief l) True"

definition shadowing_limiter :: "settings \<Rightarrow> limits \<Rightarrow> string \<times> bool \<times> backend" where
  "shadowing_limiter s l = limiter s (lim_rate_limit_max_keys l) ''shadowing'' (lim_shadowing l) True"

definition minimal_pairs_limiter :: "settings \<Rightarrow> limits \<Rightarrow> string \<times> bool \<times> backend" where
  "minimal_pairs_limiter s l = limiter s (lim_rate_limit_max_keys l) ''minimal_pairs'' (lim_shadowing l) True"

definition voice_data_limiter :: "settings \<Rightarrow> limits \<Rightarrow> string \<times> bool \<times> backend" where
  "voice_data_limiter s l = limiter s (lim_rate_limit_max_keys l) ''voice-data-export'' (5, 3600) True"

definition wired_limiters :: "settings \<Rightarrow> limits \<Rightarrow> (string \<times> bool \<times> backend) list" where
  "wired_limiters s l = auth_limiters s l @ [conversation_limiter s l, debrief_limiter s l, mission_limiter s l, onboarding_limiter s l,
     shadowing_limiter s l, minimal_pairs_limiter s l, voice_data_limiter s l]"

lemmas limiter_defs = wired_limiters_def auth_limiters_def conversation_limiter_def debrief_limiter_def mission_limiter_def
  onboarding_limiter_def shadowing_limiter_def minimal_pairs_limiter_def voice_data_limiter_def limiter_def

section \<open>The client is told the truth\<close>

text \<open>A cached provider is the demo exactly under the demo's name.\<close>

definition cache_honest :: "clients \<Rightarrow> bool" where
  "cache_honest st \<longleftrightarrow> (\<forall>e \<in> set (cl_cache st). snd e = FakeLlm \<longleftrightarrow> la_engine (fst e) = ENGINE_FAKE)"

lemma cache_honestD: "cache_honest st \<Longrightarrow> map_of (cl_cache st) a = Some p \<Longrightarrow> p = FakeLlm \<longleftrightarrow> la_engine a = ENGINE_FAKE"
  by (auto simp: cache_honest_def dest!: map_of_SomeD)

lemma build_llm_honest:
  assumes "build_llm_provider a st = (r, st')"
  shows "cl_cache st' = cl_cache st" "r = Inr p \<Longrightarrow> p = FakeLlm \<longleftrightarrow> la_engine a = ENGINE_FAKE"
  using assms by (auto simp: build_llm_provider_def register_closeable_def split: if_split_asm)

lemma last_n_inD: "x \<in> set (last_n n xs) \<Longrightarrow> x \<in> set xs"
  using last_n_sub by (rule subsetD)

lemma shared_llm_honest:
  assumes "cache_honest st" "shared_llm_provider a st = (r, st')"
  shows "cache_honest st' \<and> (\<forall>p. r = Inr p \<longrightarrow> (p = FakeLlm \<longleftrightarrow> la_engine a = ENGINE_FAKE))"
proof (cases "map_of (cl_cache st) a")
  case (Some p)
  then show ?thesis using assms cache_honestD [OF assms(1) Some] by (auto simp: shared_llm_provider_def cache_honest_def)
next
  case None
  obtain b st1 where b: "build_llm_provider a st = (b, st1)" by force
  note h = build_llm_honest [OF b]
  show ?thesis
  proof (cases b)
    case (Inl x)
    then show ?thesis using assms None b h by (simp add: shared_llm_provider_def cache_honest_def)
  next
    case (Inr p)
    have "\<forall>e \<in> set (cl_cache st @ [(a, p)]). snd e = FakeLlm \<longleftrightarrow> la_engine (fst e) = ENGINE_FAKE"
      using assms(1) h(2) [OF Inr] by (simp add: cache_honest_def)
    then have "\<forall>e \<in> set (last_n CACHE_SIZE (cl_cache st @ [(a, p)])). snd e = FakeLlm \<longleftrightarrow> la_engine (fst e) = ENGINE_FAKE"
      by (metis last_n_inD)
    moreover have "r = Inr p" "cl_cache st' = last_n CACHE_SIZE (cl_cache st @ [(a, p)])"
      using assms(2) h(1) by (auto simp: shared_llm_provider_def None b Inr)
    ultimately show ?thesis using h(2) [OF Inr] unfolding cache_honest_def by simp
  qed
qed

lemma engine_names: "ENGINE_GROQ \<noteq> ENGINE_FAKE" "ENGINE_DEEPSEEK \<noteq> ENGINE_FAKE" "ENGINE_GROQ_FALLBACK \<noteq> ENGINE_FAKE"
  by (simp_all add: engine_defs)

lemma feature_llm_honest:
  assumes "cache_honest st" "build_feature_llm engine s n st = (Inr ps, st')"
  shows "FakeLlm \<in> set ps \<longleftrightarrow> engine = ENGINE_FAKE"
proof (cases "engine = ENGINE_GROQ_FALLBACK")
  case True
  obtain r1 st1 where b1: "fallback_primary_provider s n st = (r1, st1)" by force
  obtain r2 st2 where b2: "shared_engine_provider ENGINE_DEEPSEEK s n st1 = (r2, st2)" by force
  note h1 = shared_llm_honest [OF assms(1) b1 [unfolded fallback_primary_provider_def split_beta]]
  note h2 = shared_llm_honest [OF _ b2 [unfolded shared_engine_provider_def split_beta]]
  show ?thesis using assms(2) True h1 h2
    by (cases r1; cases r2) (auto simp: build_feature_llm_def b1 b2 engine_names)
next
  case False
  obtain r1 st1 where b1: "shared_engine_provider engine s n st = (r1, st1)" by force
  note h1 = shared_llm_honest [OF assms(1) b1 [unfolded shared_engine_provider_def split_beta]]
  show ?thesis using assms(2) False h1 by (cases r1) (auto simp: build_feature_llm_def b1)
qed

definition config_flag :: "settings \<Rightarrow> string \<Rightarrow> bool option" where
  "config_flag s k = map_of (public_config s) k"

lemma config_flags:
  "config_flag s ''demo_mode'' = Some (cfg_voice_engine s = ENGINE_FAKE)"
  "config_flag s ''debrief_demo_mode'' = Some (cfg_debrief_engine s = ENGINE_FAKE)"
  "config_flag s ''mission_demo_mode'' = Some (cfg_mission_engine s = ENGINE_FAKE)"
  "config_flag s ''shadowing_demo_mode'' = Some (cfg_shadowing_engine s = ENGINE_FAKE)"
  "config_flag s ''drill_tts'' = Some (drill_tts_enabled s)" "config_flag s ''drill_stt'' = Some (drill_stt_enabled s)"
  "config_flag s ''conversation_server_tts'' = Some (conversation_tts_on_server s)"
  by (simp_all add: config_flag_def public_config_def)

lemma real_llm_demo: "real_llm r = (Inr m, st) \<Longrightarrow> m \<noteq> DemoDebrief \<and> m \<noteq> DemoMission \<and> m \<noteq> DemoShadowing"
  by (auto simp: real_llm_def split: prod.splits sum.splits)

lemma drill_tts_available:
  "drill_tts_enabled s \<longleftrightarrow> (\<exists>b st'. get_tts_provider s n cached st = (Inr b, st'))"
  by (cases cached)
    (auto simp: get_tts_provider_def shared_tts_provider_def build_tts_cache_def new_cache_def split: sum.splits)

lemma drill_stt_available:
  "drill_stt_enabled s \<longleftrightarrow> (\<exists>m st'. get_stt_provider s cached st = (Inr m, st'))"
  by (cases cached)
    (auto simp: get_stt_provider_def build_stt_provider_def drill_stt_enabled_def split: sum.splits option.splits if_split_asm)

text \<open>Without a key everything can be built, and no client is opened.\<close>

lemma defaults_run_offline:
  "validate_production_safety (default_settings secret) = Inr (default_settings secret)"
  "get_debrief_llm (default_settings secret) l st = (Inr DemoDebrief, st)"
  "get_mission_llm (default_settings secret) l st = (Inr DemoMission, st)"
  "shadowing_llm (default_settings secret) l st = (Inr DemoShadowing, st)"
  "fst (build_feature_llm (cfg_voice_engine (default_settings secret)) (default_settings secret) n no_clients) = Inr [FakeLlm]"
  by (simp_all add: validate_production_safety_def is_deployed_def get_debrief_llm_def get_mission_llm_def shadowing_llm_def build_feature_llm_def
      shared_engine_provider_def shared_llm_provider_def build_llm_provider_def llm_credentials_for_def default_settings_def
      no_clients_def engine_defs)


lemma defaults_shadowing: "cfg_shadowing_engine (default_settings secret) = ENGINE_FAKE"
  by (simp add: default_settings_def ENGINE_FAKE_def)


text \<open>The other two names are accepted at start-up and then silently give the demo, while the client is told otherwise.\<close>

lemma groq_shadowing_is_a_silent_demo:
  "validate_production_safety (demo_settings\<lparr>cfg_shadowing_engine := ENGINE_GROQ_FALLBACK\<rparr>)
     = Inr (demo_settings\<lparr>cfg_shadowing_engine := ENGINE_GROQ_FALLBACK\<rparr>)"
  "config_flag (demo_settings\<lparr>cfg_shadowing_engine := ENGINE_GROQ_FALLBACK\<rparr>) ''shadowing_demo_mode'' = Some False"
  "shadowing_llm (demo_settings\<lparr>cfg_shadowing_engine := ENGINE_GROQ_FALLBACK\<rparr>) l st = (Inr DemoShadowing, st)"
  by code_simp+

section \<open>Defaults and limiters\<close>

lemma default_sizes:
  "lim_max_upload_bytes default_limits < lim_max_request_body_bytes default_limits"
  "lim_conversation_history_max_messages default_limits \<le> lim_conversation_transcript_max_messages default_limits"
  "pool_capacity default_limits = 20"
  by (simp_all add: default_limits_def pool_capacity_def)

text \<open>With Redis, two limiters never count on one counter, whatever keys they are asked about: the names are distinct and have
  no colon. And the limiters that refuse while Redis is away are those of the routes that take a password or a token.\<close>

lemma wired_limiters_names:
  "distinct (map fst (wired_limiters s l))" "(n, o1, b) \<in> set (wired_limiters s l) \<Longrightarrow> CHR '':'' \<notin> set n"
  by (auto simp: limiter_defs Let_def)

lemma wired_limiters_fail_closed:
  "(n, fail_open, b) \<in> set (wired_limiters s l) \<Longrightarrow>
     \<not> fail_open \<longleftrightarrow> n \<in> {''register'', ''login'', ''refresh'', ''register-ip'', ''login-ip'', ''change_password''}"
  by (auto simp: limiter_defs Let_def)

lemma wired_limiters_backend:
  "(n, o1, Redis c) \<in> set (wired_limiters s l) \<Longrightarrow> rc_namespace c = n \<and> rc_fail_open c = o1"
  by (auto simp: limiter_defs Let_def build_rate_limiter_def split: if_split_asm)

text \<open>Limits of different routes never mix. With any settings: if two of the wired limiters, asked about any two keys,
  count on the same Redis counter, they are the same limiter, in the same window, and the keys are equal, so no client can
  spend or exhaust another route's or another client's allowance.\<close>

theorem limiters_keep_apart:
  assumes "(n1, o1, Redis c1) \<in> set (wired_limiters s l)" "(n2, o2, Redis c2) \<in> set (wired_limiters s l)"
    "redis_key c1 b k = redis_key c2 b' k'"
  shows "(n1, o1, c1) = (n2, o2, c2) \<and> b = b' \<and> k = k'"
proof -
  have "n1 @ CHR '':'' # (py_str_int b @ CHR '':'' # k) = n2 @ CHR '':'' # (py_str_int b' @ CHR '':'' # k')"
    using assms wired_limiters_backend [of n1 o1 c1 s l] wired_limiters_backend [of n2 o2 c2 s l] by (simp add: redis_key_def)
  then have eq: "n1 = n2" "py_str_int b @ CHR '':'' # k = py_str_int b' @ CHR '':'' # k'"
    using append_sep_inject [of "CHR '':''" n1 n2] wired_limiters_names(2) assms(1, 2) by blast+
  have "(o1, Redis c1) = (o2, Redis c2)"
    using assms(1, 2) wired_limiters_names(1) [of s l] unfolding eq(1) by (rule eq_key_imp_eq_value [rotated])
  then show ?thesis
    using eq append_sep_inject [OF colon_notin_py_str_int colon_notin_py_str_int eq(2)] by (simp add: py_str_int_inject)
qed

theorem limiters_keep_apart_witness:
  "\<exists>c. voice_data_limiter demo_settings default_limits = (''voice-data-export'', True, Redis c)
    \<and> redis_key c 7 ''user:1'' \<noteq> redis_key c 7 ''user:2''"
proof -
  have url: "py_strip ''redis://cache'' \<noteq> []" by code_simp
  obtain c where c: "voice_data_limiter demo_settings default_limits = (''voice-data-export'', True, Redis c)"
    using url by (simp add: voice_data_limiter_def limiter_def build_rate_limiter_def demo_settings_def)
  then have "(''voice-data-export'', True, Redis c) \<in> set (wired_limiters demo_settings default_limits)" by (simp add: wired_limiters_def)
  then show ?thesis using c limiters_keep_apart [of _ _ c demo_settings default_limits _ _ c 7 "''user:1''" 7 "''user:2''"] by auto
qed

end
