(* ===== verification/Demo.thy ===== *)
theory Demo
  imports Wiring JsonText
begin

text \<open>
  The engines of the demo mode (\<^verbatim>\<open>app/core/llm/providers/fakes.py\<close>, \<^verbatim>\<open>app/features/*/fake_llm.py\<close>): what they answer, written
  as the JSON text the code writes, goes through the parsers of the features that ask them.
\<close>

section \<open>Providers\<close>

text \<open>The conversation's engine echoes the last message of the learner.\<close>

definition last_user :: "message list \<Rightarrow> string" where
  "last_user msgs = (case List.find (\<lambda>m. m_role m = ''user'') (rev msgs) of None \<Rightarrow> [] | Some m \<Rightarrow> m_content m)"

definition fake_complete :: "string \<Rightarrow> message list \<Rightarrow> string" where
  "fake_complete system_prompt msgs = ''You said: '' @ last_user msgs"

definition fake_stream_complete :: "string \<Rightarrow> message list \<Rightarrow> string list" where
  "fake_stream_complete system_prompt msgs = [''You said: '' @ last_user msgs @ ''.'', ''Tell me more.'']"

text \<open>The scripted recogniser repeats its last transcript when the script is exhausted; its state is the next index.\<close>

definition fake_stt_script :: "string list option \<Rightarrow> string list" where
  "fake_stt_script script = (case script of Some (t # ts) \<Rightarrow> t # ts | _ \<Rightarrow> [''(silence)''])"

definition fake_transcribe :: "string list \<Rightarrow> nat \<Rightarrow> nat list \<Rightarrow> string \<times> nat" where
  "fake_transcribe script i audio = (script ! min i (length script - 1), i + 1)"

definition fake_transcribe_verbose :: "string list \<Rightarrow> nat \<Rightarrow> nat list \<Rightarrow> verbose_transcript \<times> nat" where
  "fake_transcribe_verbose script i audio = (case fake_transcribe script i audio of (text, j) \<Rightarrow>
     (\<lparr>vt_text = text, vt_words = map (\<lambda>w. \<lparr>tw_word = w, tw_probability = Some (9 / 10)\<rparr>) (tokens text)\<rparr>, j))"

text \<open>The demo voice is the text in UTF-8.\<close>

definition fake_synthesize :: "string \<Rightarrow> nat list" where
  "fake_synthesize text = concat (map (\<lambda>c. let n = of_char c :: nat in if n < 128 then [n] else [192 + n div 64, 128 + n mod 64]) text)"

section \<open>Features\<close>

definition fake_debrief_complete :: "string \<Rightarrow> message list \<Rightarrow> string" where
  "fake_debrief_complete system_prompt msgs = dumps (JObj
     [(''cefr_estimate'', JStr ''B1''),
      (''summary'', JStr ''Demo debrief (fake engine). Set DEBRIEF_ENGINE=deepseek for real.''),
      (''errors'', JList [])])"

definition fake_mission_complete :: "string \<Rightarrow> string \<Rightarrow> string" where
  "fake_mission_complete system_prompt content = dumps (JObj
     [(''persona'', JStr ''A friendly interviewer (demo mission - set MISSION_ENGINE=deepseek for a real simulation).''),
      (''goal'', JStr ''Practise introducing yourself clearly and confidently.''),
      (''likely_questions'', JList [JStr ''Tell me about yourself.'', JStr ''Why are you interested in this?'',
         JStr ''What is one of your strengths?''])])"

definition fake_shadowing_complete :: "string \<Rightarrow> string list \<Rightarrow> string" where
  "fake_shadowing_complete system_prompt msgs =
     (if py_in ''coach'' (py_lower system_prompt)
      then dumps (JObj [(''coaching'', JStr ''Demo coaching - set SHADOWING_ENGINE=deepseek for real tips.'')])
      else dumps (JObj [(''text'', JStr ''The ship is sinking.''), (''focus'', JStr ''ship_sheep''),
        (''tip'', JStr (''Keep the vowel short in '' @ [CHR 0x27] @ ''ship'' @ [CHR 0x27] @ '' (demo - set SHADOWING_ENGINE=deepseek).''))]))"

section \<open>The answers pass the parsers\<close>

text \<open>What \<open>dumps\<close> writes for an object stands between the braces both extractors look for.\<close>

lemma dumps_object_ends: "\<exists>body. dumps (JObj ob) = CHR ''{'' # body @ ''}''"
  by simp

lemma outer_braces:
  "rev (dropWhile (\<lambda>c. c \<noteq> CHR ''}'') (rev (dropWhile (\<lambda>c. c \<noteq> CHR ''{'') (dumps (JObj ob))))) = dumps (JObj ob)"
  by simp

lemma extract_dumps: "extract_json_object (dumps (JObj ob)) = Inr (dumps (JObj ob))"
  unfolding extract_json_object_def outer_braces by simp

definition json_loads :: "string \<Rightarrow> string + json" where
  "json_loads s = (case read_json s of None \<Rightarrow> Inl ''Expecting value'' | Some v \<Rightarrow> Inr v)"

lemma parse_debrief_dumps: "json_ok (JObj ob) \<Longrightarrow> parse_debrief_json json_loads (dumps (JObj ob)) = Inr ob"
  unfolding parse_debrief_json_def extract_dumps by (simp only: sum.case json_loads_def read_json_dumps option.case json.case)

lemma parse_object_dumps: "json_ok (JObj ob) \<Longrightarrow> parse_json_object read_json (dumps (JObj ob)) = Some ob"
  unfolding parse_json_object_def Let_def outer_braces by (simp only: read_json_dumps) simp

definition demo_coaching :: string where
  "demo_coaching = ''Demo coaching - set SHADOWING_ENGINE=deepseek for real tips.''"

definition demo_phrase :: phrase where
  "demo_phrase = \<lparr>ph_text = ''The ship is sinking.'', ph_focus = ''ship_sheep'',
     ph_tip = ''Keep the vowel short in '' @ [CHR 0x27] @ ''ship'' @ [CHR 0x27] @ '' (demo - set SHADOWING_ENGINE=deepseek).''\<rparr>"

lemma py_in_prefix: "py_in w xs \<Longrightarrow> py_in w (xs @ ys)"
  unfolding py_in_def by (metis sublist_order.order_trans sublist_append_rightI)

lemma py_lower_append: "py_lower (xs @ ys) = py_lower xs @ py_lower ys"
  by (simp add: py_lower_def)

text \<open>The engine of the drills tells the two questions apart by a word of the prompt: both coaching prompts have it
  whatever the learner's language, and the phrase prompt has it for no level.\<close>

lemma coach_prompts_coach:
  "py_in ''coach'' (py_lower (coach_prompt native_language))" "py_in ''coach'' (py_lower (pair_prompt native_language))"
  unfolding coach_prompt_def pair_prompt_def py_lower_append
  by (rule py_in_prefix, code_simp)+

lemma phrase_prompt_no_coach:
  assumes "level \<in> set CEFR_LEVELS"
  shows "\<not> py_in ''coach'' (py_lower (phrase_prompt level))"
proof -
  have "\<forall>l \<in> set CEFR_LEVELS. \<not> py_in ''coach'' (py_lower (phrase_prompt l))" by code_simp
  then show ?thesis using assms by simp
qed

lemma demo_analysis_result:
  assumes "an_loads an = json_loads" "\<And>t. an_str an (JStr t) = t"
  shows "analyze an turns fallback intensity (Inr (fake_debrief_complete prompt msgs))
     = Inr \<lparr>dr_cefr_estimate = ''B1'', dr_summary = ''Demo debrief (fake engine). Set DEBRIEF_ENGINE=deepseek for real.'',
         dr_errors = [], dr_words = []\<rparr>"
proof -
  have "''B1'' \<in> VALID_CEFR" by (simp add: CEFR_LEVELS_def)
  then show ?thesis
    by (simp add: analyze_def fake_debrief_complete_def parse_debrief_dumps assms json_get_def read_estimate_def dict_list_def str_get_def
        del: dumps.simps)
qed

lemma demo_coaching_result:
  assumes "dl_complete dl = (\<lambda>p c. Inr (fake_shadowing_complete p c))" "dl_loads dl = read_json" "\<And>t. dl_str dl (JStr t) = t"
    "py_in ''coach'' (py_lower prompt)"
  shows "coaching_of dl prompt context = demo_coaching"
proof -
  have "clip demo_coaching MAX_COACHING_CHARS = demo_coaching" by code_simp
  then show ?thesis
    by (simp add: coaching_of_def assms fake_shadowing_complete_def parse_object_dumps json_get_def demo_coaching_def del: dumps.simps)
qed

lemma demo_phrase_result:
  assumes "dl_complete dl = (\<lambda>p c. Inr (fake_shadowing_complete p c))" "dl_loads dl = read_json" "\<And>t. dl_str dl (JStr t) = t"
    "level \<in> set CEFR_LEVELS"
  shows "generate_phrase dl level = demo_phrase"
proof -
  have "clip (ph_text demo_phrase) MAX_TEXT_CHARS = ph_text demo_phrase" "clip (ph_tip demo_phrase) MAX_TIP_CHARS = ph_tip demo_phrase"
    by code_simp+
  then show ?thesis
    using phrase_prompt_no_coach [OF assms(4)]
    by (simp add: generate_phrase_def assms(1-3) fake_shadowing_complete_def parse_object_dumps json_get_def demo_phrase_def VALID_FOCUS_def Let_def
        del: dumps.simps)
qed

lemma demo_mission_result:
  assumes "ml_complete ml = (\<lambda>p c. Inr (fake_mission_complete p c))" "ml_loads ml = read_json" "\<And>t. ml_str ml (JStr t) = t"
    "py_strip (strip_persistent_instructions content MAX_CONTENT_CHARS) \<noteq> []"
  shows "\<exists>brief. compile_mission ml source_type content directive = Inr brief \<and> length (mb_likely_questions brief) = 3"
proof -
  let ?p = "''A friendly interviewer (demo mission - set MISSION_ENGINE=deepseek for a real simulation).''"
  let ?g = "''Practise introducing yourself clearly and confidently.''"
  have c: "clip ?p MAX_MISSION_FIELD_CHARS = ?p" "clip ?g MAX_MISSION_FIELD_CHARS = ?g" by code_simp+
  have q: "py_strip ''Tell me about yourself.'' \<noteq> []" "py_strip ''Why are you interested in this?'' \<noteq> []"
    "py_strip ''What is one of your strengths?'' \<noteq> []" by code_simp+
  show ?thesis
    by (simp add: compile_mission_def assms fake_mission_complete_def parse_object_dumps json_get_def Let_def clip_questions_def c q MAX_QUESTIONS_def
        del: dumps.simps)
qed

text \<open>The demo mode works end to end. The texts the demo engines write are read by the parsers of every feature, for any
  learner and any input: a debrief is estimated at B1 without errors, any content that survives the filter becomes a mission
  with three questions, every level gets the demo phrase, and both coaches the demo coaching, whatever the learner's
  language.\<close>

theorem demo_engines_serve:
  assumes "an_loads an = json_loads" "\<And>t. an_str an (JStr t) = t"
    and "ml_complete ml = (\<lambda>p c. Inr (fake_mission_complete p c))" "ml_loads ml = read_json" "\<And>t. ml_str ml (JStr t) = t"
    and "dl_complete dl = (\<lambda>p c. Inr (fake_shadowing_complete p c))" "dl_loads dl = read_json" "\<And>t. dl_str dl (JStr t) = t"
  shows "(\<exists>res. analyze an turns fallback intensity (Inr (fake_debrief_complete prompt msgs)) = Inr res
        \<and> dr_cefr_estimate res = ''B1'' \<and> dr_errors res = [] \<and> dr_words res = [])
    \<and> (py_strip (strip_persistent_instructions content MAX_CONTENT_CHARS) \<noteq> [] \<longrightarrow>
        (\<exists>brief. compile_mission ml source_type content directive = Inr brief \<and> length (mb_likely_questions brief) = 3))
    \<and> (level \<in> set CEFR_LEVELS \<longrightarrow> generate_phrase dl level = demo_phrase)
    \<and> (missed \<noteq> [] \<longrightarrow> shadowing_coach dl target missed lang = demo_coaching)
    \<and> pair_coach dl target other said_other lang = demo_coaching"
  using demo_analysis_result [OF assms(1, 2)] demo_mission_result [OF assms(3-5)] demo_phrase_result [OF assms(6-8)]
    demo_coaching_result [OF assms(6-8)] coach_prompts_coach
  by (auto simp: shadowing_coach_def pair_coach_def)

definition demo_drill_llm :: drill_llm where
  "demo_drill_llm = \<lparr>dl_complete = (\<lambda>p c. Inr (fake_shadowing_complete p c)), dl_loads = read_json, dl_str = demo_str, dl_nonce = ''n''\<rparr>"

theorem demo_engines_serve_witness:
  "generate_phrase demo_drill_llm ''C2'' = demo_phrase \<and> shadowing_coach demo_drill_llm ''a b'' [''b''] ''fr'' = demo_coaching"
proof -
  let ?an = "demo_analyzer\<lparr>an_loads := json_loads\<rparr>"
  let ?ml = "\<lparr>ml_complete = (\<lambda>p c. Inr (fake_mission_complete p c)), ml_loads = read_json, ml_str = demo_str, ml_nonce = ''n''\<rparr>"
  have an: "an_loads ?an = json_loads" "\<And>t. an_str ?an (JStr t) = t" by (simp_all add: demo_analyzer_def)
  have ml: "ml_complete ?ml = (\<lambda>p c. Inr (fake_mission_complete p c))" "ml_loads ?ml = read_json" "\<And>t. ml_str ?ml (JStr t) = t" by simp_all
  have dl: "dl_complete demo_drill_llm = (\<lambda>p c. Inr (fake_shadowing_complete p c))" "dl_loads demo_drill_llm = read_json"
    "\<And>t. dl_str demo_drill_llm (JStr t) = t" by (simp_all add: demo_drill_llm_def)
  have level: "''C2'' \<in> set CEFR_LEVELS" by (simp add: CEFR_LEVELS_def)
  show ?thesis
    using demo_engines_serve [where level = "''C2''" and missed = "[''b'']" and target = "''a b''" and lang = "''fr''", OF an ml dl] level
    by simp
qed

text \<open>The demo's estimate is not marked as one: it moves the level of every learner who is not at B1 towards it.\<close>

lemma demo_debrief_moves_the_level:
  "map (\<lambda>l. next_cefr_level l ''B1'') CEFR_LEVELS = [''A2'', ''B1'', ''B1'', ''B1'', ''B2'', ''C1'']"
  by code_simp

text \<open>The scripted recogniser never runs out, and hears what it is told.\<close>

lemma fake_transcribe_total: "fst (fake_transcribe (fake_stt_script script) i audio) \<in> set (fake_stt_script script)"
proof -
  have "fake_stt_script script \<noteq> []" by (simp add: fake_stt_script_def split: option.split list.split)
  then have "min i (length (fake_stt_script script) - 1) < length (fake_stt_script script)" by (cases "fake_stt_script script") auto
  then show ?thesis by (simp add: fake_transcribe_def)
qed

lemma length_fake_synthesize: "length (fake_synthesize t) = utf8_length t"
  by (induction t) (auto simp: fake_synthesize_def utf8_length_def Let_def)

end
