(* ===== verification/Logging.thy ===== *)
theory Logging
  imports JsonText RateLimit
begin

text \<open>
  Structured logs (\<^verbatim>\<open>app/core/logging.py\<close>): the filter that stamps the request id and the formatter that writes one JSON
  object per record. A record's attributes are its dictionary in insertion order, with the values \<open>json.dumps\<close> makes of them
  (\<open>str\<close> of what it cannot encode).
\<close>

section \<open>Filter and formatter\<close>

record log_record =
  lr_levelname :: string
  lr_name :: string
  lr_message :: string
  lr_dict :: "(string \<times> json) list"
  lr_exc_info :: "string option"

text \<open>The attributes every record of the library has, and the three the formatter adds to them.\<close>

definition RESERVED :: "string list" where
  "RESERVED = [''name'', ''msg'', ''args'', ''levelname'', ''levelno'', ''pathname'', ''filename'', ''module'', ''exc_info'', ''exc_text'',
     ''stack_info'', ''lineno'', ''funcName'', ''created'', ''msecs'', ''relativeCreated'', ''thread'', ''threadName'', ''processName'',
     ''process'', ''message'', ''asctime'', ''taskName'']"

definition request_id_filter :: "string \<Rightarrow> log_record \<Rightarrow> log_record" where
  "request_id_filter request_id_var r =
     (if ''request_id'' \<in> fst ` set (lr_dict r) then r
      else r\<lparr>lr_dict := lr_dict r @ [(''request_id'', JStr request_id_var)]\<rparr>)"

definition log_payload :: "log_record \<Rightarrow> (string \<times> json) list" where
  "log_payload r =
     (let p = fold (\<lambda>(key, val) p. if key \<notin> set RESERVED \<and> take 1 key \<noteq> ''_'' then dict_set key val p else p) (lr_dict r)
            [(''level'', JStr (lr_levelname r)), (''logger'', JStr (lr_name r)), (''message'', JStr (lr_message r))]
      in case lr_exc_info r of None \<Rightarrow> p | Some t \<Rightarrow> dict_set ''exc_info'' (JStr t) p)"

definition format_record :: "log_record \<Rightarrow> string" where
  "format_record r = dumps (JObj (log_payload r))"

text \<open>The handler: filter, then formatter.\<close>

definition log_line :: "string \<Rightarrow> log_record \<Rightarrow> string" where
  "log_line request_id_var r = format_record (request_id_filter request_id_var r)"

section \<open>One line, one object\<close>

definition printable :: "char \<Rightarrow> bool" where
  "printable c \<longleftrightarrow> 32 \<le> (of_char c :: nat) \<and> (of_char c :: nat) \<le> 126"

lemma printable_hex: "n < 16 \<Longrightarrow> printable (hex_digit n)"
  by (simp add: printable_def hex_digit_def of_char_of)

lemma printable_escape: "c' \<in> set (escape_char c) \<Longrightarrow> printable c'"
proof -
  assume c': "c' \<in> set (escape_char c)"
  have small: "(of_char c :: nat) < 256" using nat_of_char_less_256 by simp
  then have "(of_char c :: nat) div 16 < 16" "(of_char c :: nat) mod 16 < 16" by (simp_all add: less_mult_imp_div_less)
  then show ?thesis using c' printable_hex
    by (auto simp: escape_char_def Let_def printable_def split: if_split_asm)
qed

lemma printable_quote: "c \<in> set (json_quote t) \<Longrightarrow> printable c"
  by (auto simp: json_quote_def printable_def dest: printable_escape [unfolded printable_def])

lemma set_py_join: "set (py_join sep xs) \<subseteq> set sep \<union> \<Union> (set ` set xs)"
  by (induction sep xs rule: py_join.induct) auto

lemma printable_num: "is_num_char c \<Longrightarrow> printable c"
  by (auto simp: is_num_char_def is_ascii_digit_def printable_def Let_def)

lemma printable_dumps: "json_ok v \<Longrightarrow> c \<in> set (dumps v) \<Longrightarrow> printable c"
proof (induction v)
  case (JNum n)
  then show ?case using printable_num by (auto simp: list_all_iff)
next
  case (JStr t)
  then show ?case by (simp add: printable_quote)
next
  case (JList xs)
  then show ?case using set_py_join [of "'', ''" "map dumps xs"] by (auto simp: printable_def)
next
  case (JObj ob)
  have "printable c" if "c \<in> set (py_join '', '' (map (\<lambda>e. json_quote (fst e) @ '': '' @ dumps (snd e)) ob))"
  proof -
    from that set_py_join consider "c \<in> set '', ''" | e where "e \<in> set ob" "c \<in> set (json_quote (fst e) @ '': '' @ dumps (snd e))"
      by fastforce
    then show ?thesis
    proof cases
      case (2 e)
      then have "json_ok (snd e)" "snd e \<in> Basic_BNFs.snds e" using JObj.prems(1) by (auto intro: snds.intros)
      then show ?thesis using 2 JObj.IH [OF 2(1)] printable_quote by (auto simp: printable_def)
    qed (auto simp: printable_def)
  qed
  then show ?case using JObj.prems(2) by (auto simp: printable_def)
qed (auto simp: printable_def split: if_split_asm)

section \<open>What a line says\<close>

lemma fold_payload:
  assumes "p' = fold (\<lambda>(key, val) p. if key \<notin> set RESERVED \<and> take 1 key \<noteq> ''_'' then dict_set key val p else p) d p"
  shows "k \<in> set RESERVED \<Longrightarrow> map_of p' k = map_of p k"
    and "k \<notin> set RESERVED \<Longrightarrow> take 1 k \<noteq> ''_'' \<Longrightarrow> k \<in> fst ` set d \<Longrightarrow> map_of p' k = map_of (rev d) k"
    and "k \<notin> fst ` set d \<Longrightarrow> map_of p' k = map_of p k"
    and "(\<forall>e \<in> set p. Q (snd e)) \<Longrightarrow> (\<forall>e \<in> set d. Q (snd e)) \<Longrightarrow> \<forall>e \<in> set p'. Q (snd e)"
proof -
  have ds: "\<forall>e \<in> set (dict_set a v h). Q (snd e)" if "Q v" "\<forall>e \<in> set h. Q (snd e)" for a v h
    using that by (induction a v h rule: dict_set.induct) auto
  show "k \<in> set RESERVED \<Longrightarrow> map_of p' k = map_of p k"
    unfolding assms by (induction d arbitrary: p) (auto simp: map_of_dict_set)
  show "k \<notin> fst ` set d \<Longrightarrow> map_of p' k = map_of p k"
    unfolding assms by (induction d arbitrary: p) (auto simp: map_of_dict_set)
  show "k \<notin> set RESERVED \<Longrightarrow> take 1 k \<noteq> ''_'' \<Longrightarrow> k \<in> fst ` set d \<Longrightarrow> map_of p' k = map_of (rev d) k"
    unfolding assms
  proof (induction d rule: rev_induct)
    case (snoc e d)
    have "k \<in> fst ` set d" if "fst e \<noteq> k" using snoc.prems(3) that by auto
    then show ?case using snoc.IH snoc.prems(1, 2) by (cases e; cases "fst e = k") (simp_all add: map_of_dict_set)
  qed simp
  show "(\<forall>e \<in> set p. Q (snd e)) \<Longrightarrow> (\<forall>e \<in> set d. Q (snd e)) \<Longrightarrow> \<forall>e \<in> set p'. Q (snd e)"
    unfolding assms
  proof (induction d arbitrary: p)
    case (Cons e d)
    then show ?case using ds [of "snd e" p "fst e"] by (cases e) simp
  qed simp
qed

definition log_values_ok :: "log_record \<Rightarrow> bool" where
  "log_values_ok r \<longleftrightarrow> (\<forall>e \<in> set (lr_dict r). json_ok (snd e))"

lemma log_payload_ok: "log_values_ok r \<Longrightarrow> json_ok (JObj (log_payload r))"
proof -
  assume r: "log_values_ok r"
  let ?base = "[(''level'', JStr (lr_levelname r)), (''logger'', JStr (lr_name r)), (''message'', JStr (lr_message r))]"
  let ?p = "fold (\<lambda>(key, val) p. if key \<notin> set RESERVED \<and> take 1 key \<noteq> ''_'' then dict_set key val p else p) (lr_dict r) ?base"
  have "\<forall>e \<in> set ?p. json_ok (snd e)"
    by (rule fold_payload(4) [OF refl]) (use r in \<open>simp_all add: log_values_ok_def\<close>)
  moreover have "\<forall>e \<in> set (dict_set ''exc_info'' (JStr t) h). json_ok (snd e)" if "\<forall>e \<in> set h. json_ok (snd e)" for t h
    using that by (induction "''exc_info''" "JStr t" h rule: dict_set.induct) auto
  ultimately show "json_ok (JObj (log_payload r))" by (simp add: log_payload_def Let_def split: option.split)
qed

lemma log_payload_keys:
  "map_of (log_payload r) ''message'' = Some (JStr (lr_message r))"
  "''request_id'' \<in> fst ` set (lr_dict r) \<Longrightarrow> map_of (log_payload r) ''request_id'' = map_of (rev (lr_dict r)) ''request_id''"
  "k \<in> {''level'', ''logger''} \<Longrightarrow> k \<notin> fst ` set (lr_dict r) \<Longrightarrow>
     map_of (log_payload r) k = Some (JStr (if k = ''level'' then lr_levelname r else lr_name r))"
proof -
  let ?base = "[(''level'', JStr (lr_levelname r)), (''logger'', JStr (lr_name r)), (''message'', JStr (lr_message r))]"
  let ?p = "fold (\<lambda>(key, val) p. if key \<notin> set RESERVED \<and> take 1 key \<noteq> ''_'' then dict_set key val p else p) (lr_dict r) ?base"
  have exc: "k \<noteq> ''exc_info'' \<Longrightarrow> map_of (log_payload r) k = map_of ?p k" for k
    by (simp add: log_payload_def Let_def map_of_dict_set split: option.split)
  note f = fold_payload [OF refl, where d = "lr_dict r" and p = ?base]
  show "map_of (log_payload r) ''message'' = Some (JStr (lr_message r))"
    using f(1) [of "''message''"] by (simp add: exc RESERVED_def)
  show "''request_id'' \<in> fst ` set (lr_dict r) \<Longrightarrow> map_of (log_payload r) ''request_id'' = map_of (rev (lr_dict r)) ''request_id''"
    using f(2) [of "''request_id''"] by (simp add: exc RESERVED_def)
  show "k \<in> {''level'', ''logger''} \<Longrightarrow> k \<notin> fst ` set (lr_dict r) \<Longrightarrow>
     map_of (log_payload r) k = Some (JStr (if k = ''level'' then lr_levelname r else lr_name r))"
    using f(3) [of k] by (auto simp: exc)
qed

text \<open>C33: A log record is one line that cannot be forged. Whatever text of a learner or an attacker reaches the message, the
  extra fields or the traceback, the line written has only printable ASCII characters, so no line break; read as JSON it is one
  object, whose message is the record's message, whose level and logger are the record's unless the caller overrode them by
  extra fields of those names, and which carries the current request's id unless the caller set one.\<close>

theorem log_line_cannot_be_forged:
  assumes "log_values_ok r"
  shows "(\<forall>c \<in> set (log_line rid r). printable c)
    \<and> (\<exists>ob. read_json (log_line rid r) = Some (JObj ob) \<and> map_of ob ''message'' = Some (JStr (lr_message r))
        \<and> (''request_id'' \<notin> fst ` set (lr_dict r) \<longrightarrow> map_of ob ''request_id'' = Some (JStr rid))
        \<and> (''level'' \<notin> fst ` set (lr_dict r) \<longrightarrow> map_of ob ''level'' = Some (JStr (lr_levelname r)))
        \<and> (''logger'' \<notin> fst ` set (lr_dict r) \<longrightarrow> map_of ob ''logger'' = Some (JStr (lr_name r))))"
proof -
  let ?r = "request_id_filter rid r"
  have ok: "log_values_ok ?r" using assms by (simp add: log_values_ok_def request_id_filter_def)
  have same: "lr_message ?r = lr_message r" "lr_levelname ?r = lr_levelname r" "lr_name ?r = lr_name r"
    "fst ` set (lr_dict ?r) = insert ''request_id'' (fst ` set (lr_dict r))"
    by (auto simp: request_id_filter_def)
  have rid: "map_of (rev (lr_dict ?r)) ''request_id'' = Some (JStr rid)" if "''request_id'' \<notin> fst ` set (lr_dict r)"
    using that by (simp add: request_id_filter_def)
  show ?thesis
  proof (intro conjI exI)
    show "\<forall>c \<in> set (log_line rid r). printable c"
      using printable_dumps [OF log_payload_ok [OF ok]] by (simp add: log_line_def format_record_def)
    show "read_json (log_line rid r) = Some (JObj (log_payload ?r))"
      unfolding log_line_def format_record_def by (rule read_json_dumps [OF log_payload_ok [OF ok]])
  qed (use log_payload_keys [where r = ?r] same rid in auto)
qed

definition hostile_record :: log_record where
  "hostile_record = \<lparr>lr_levelname = ''INFO'', lr_name = ''apm'', lr_message = ''x'' @ [CHR 0x0A] @ ''{\"level\": \"ERROR\"}'',
     lr_dict = [(''msg'', JStr ''x''), (''path'', JStr ''/a'')], lr_exc_info = None\<rparr>"

theorem log_line_cannot_be_forged_witness:
  "CHR 0x0A \<notin> set (log_line ''r1'' hostile_record)
   \<and> (\<exists>ob. read_json (log_line ''r1'' hostile_record) = Some (JObj ob) \<and> map_of ob ''request_id'' = Some (JStr ''r1''))"
proof -
  have "log_values_ok hostile_record" by (simp add: log_values_ok_def hostile_record_def)
  from log_line_cannot_be_forged [OF this, of "''r1''"] show ?thesis
    by (auto simp: hostile_record_def printable_def)
qed

end
