(* ===== verification/Lifespan.thy ===== *)
theory Lifespan
  imports Wiring
begin

text \<open>
  The life of the backend's process (\<^verbatim>\<open>app/main.py\<close>): the warm-ups at start-up, the purge task, the shutdown; and the throttled
  log of the Redis limiter. What the warmed services answer is an argument: an error or a value.
\<close>

section \<open>Start-up\<close>

definition le_bytes :: "nat \<Rightarrow> nat \<Rightarrow> nat list" where
  "le_bytes k n = map (\<lambda>i. n div 256 ^ i mod 256) [0..<k]"

definition ascii :: "string \<Rightarrow> nat list" where
  "ascii t = map of_char t"

text \<open>What the standard library's \<open>wave\<close> writes: one channel, two bytes a sample, 16 kHz, 800 samples of silence.\<close>

definition silent_wav :: "nat list" where
  "silent_wav = ascii ''RIFF'' @ le_bytes 4 (36 + 1600) @ ascii ''WAVE'' @ ascii ''fmt '' @ le_bytes 4 16 @ le_bytes 2 1 @ le_bytes 2 1
     @ le_bytes 4 16000 @ le_bytes 4 32000 @ le_bytes 2 2 @ le_bytes 2 16 @ ascii ''data'' @ le_bytes 4 1600 @ replicate 1600 0"

record services =
  sv_synthesize :: "tts_backend \<Rightarrow> string \<Rightarrow> error + nat list"
  sv_transcribe :: "nat \<Rightarrow> nat list \<Rightarrow> error + string"
  sv_complete :: "llm_provider list \<Rightarrow> string \<Rightarrow> error + string"

text \<open>A warm-up builds its provider and calls it; whatever fails is logged, and the start goes on.\<close>

definition warm_up :: "string \<Rightarrow> (error + 'p) \<times> clients \<Rightarrow> ('p \<Rightarrow> error + 'a) \<Rightarrow> string list \<times> clients" where
  "warm_up name built call = (case built of
      (Inl e, st) \<Rightarrow> ([name @ '' warm-up failed''], st)
    | (Inr p, st) \<Rightarrow> (case call p of Inl e \<Rightarrow> ([name @ '' warm-up failed''], st) | Inr a \<Rightarrow> ([name @ '' warm-up done''], st)))"

definition warmed_engines :: "string list" where
  "warmed_engines = [ENGINE_DEEPSEEK, ENGINE_GROQ, ENGINE_GROQ_FALLBACK]"

record process =
  pr_log :: "string list"
  pr_purging :: bool
  pr_clients :: clients

definition lifespan_start :: "settings \<Rightarrow> limits \<Rightarrow> services \<Rightarrow> clients \<Rightarrow> process" where
  "lifespan_start s l sv st =
     (let (log1, st1) = (if drill_tts_enabled s
            then warm_up ''TTS'' (get_tts_provider s (lim_tts_cache_max_entries l) None st) (\<lambda>b. sv_synthesize sv b ''Hello.'') else ([], st));
          (log2, st2) = (if drill_stt_enabled s
            then warm_up ''STT'' (get_stt_provider s None st1) (\<lambda>n. sv_transcribe sv n silent_wav) else ([], st1));
          (log3, st3) = (if cfg_voice_engine s \<in> set warmed_engines
            then warm_up ''LLM'' (build_feature_llm (cfg_voice_engine s) s 1 st2) (\<lambda>ps. sv_complete sv ps ''Say hi.'') else ([], st2))
      in \<lparr>pr_log = log1 @ log2 @ log3, pr_purging = (0 < cfg_purge_interval_seconds s), pr_clients = st3\<rparr>)"

section \<open>Shutdown\<close>

text \<open>The \<open>finally\<close> of the handler: the purge task is cancelled, every registered client is closed.\<close>

definition lifespan_stop :: "process \<Rightarrow> nat list \<times> process" where
  "lifespan_stop p = (case close_all (pr_clients p) of (shut, st) \<Rightarrow> (shut, p\<lparr>pr_purging := False, pr_clients := st\<rparr>))"

section \<open>Logging an outage of Redis\<close>

definition FAILURE_LOG_THROTTLE_SECONDS :: real where "FAILURE_LOG_THROTTLE_SECONDS = 30"

text \<open>The time of the last line starts as zero; \<open>now\<close> is the monotonic clock. The flag says whether a line is written.\<close>

definition log_failure_throttled :: "real \<Rightarrow> real \<Rightarrow> bool \<times> real" where
  "log_failure_throttled last_failure_log now =
     (if now - last_failure_log < FAILURE_LOG_THROTTLE_SECONDS then (False, last_failure_log) else (True, now))"

fun outage_log :: "real \<Rightarrow> real list \<Rightarrow> real list" where
  "outage_log last_failure_log [] = []"
| "outage_log last_failure_log (now # nows) = (case log_failure_throttled last_failure_log now of
     (logged, last') \<Rightarrow> (if logged then [now] else []) @ outage_log last' nows)"

section \<open>What the start-up leaves\<close>

lemma silent_wav_size: "length silent_wav = 44 + 1600" "set silent_wav \<subseteq> {0..<256}"
  by (auto simp: silent_wav_def ascii_def le_bytes_def)

lemma fresh_client_ok: "clients_ok st \<Longrightarrow> clients_ok (register_closeable (cl_next st) (st\<lparr>cl_next := cl_next st + 1\<rparr>))"
  by (auto simp: clients_ok_def register_closeable_def less_Suc_eq)

definition extends :: "clients \<Rightarrow> clients \<Rightarrow> bool" where
  "extends st st' \<longleftrightarrow> clients_ok st' \<and> set (cl_registered st) \<subseteq> set (cl_registered st')"

lemmas fresh_client = fresh_client_ok [unfolded register_closeable_def, simplified]

lemma get_tts_extends: "clients_ok st \<Longrightarrow> get_tts_provider s n cached st = (r, st') \<Longrightarrow> extends st st' \<and> cl_cache st' = cl_cache st"
  by (cases cached)
    (auto simp: get_tts_provider_def shared_tts_provider_def build_tts_cache_def extends_def fresh_client register_closeable_def
      split: if_split_asm sum.splits)

lemma get_stt_extends: "clients_ok st \<Longrightarrow> get_stt_provider s cached st = (r, st') \<Longrightarrow> extends st st' \<and> cl_cache st' = cl_cache st"
  by (cases cached)
    (auto simp: get_stt_provider_def build_stt_provider_def extends_def fresh_client register_closeable_def
      split: if_split_asm sum.splits option.splits)

lemma snd_warm_up [simp]: "snd (warm_up name built call) = snd built"
  by (simp add: warm_up_def split: prod.split sum.split)

text \<open>The cache after the start-up holds providers of one token a reply and nothing else.\<close>

definition warm_cache :: "nat \<Rightarrow> clients \<Rightarrow> bool" where
  "warm_cache n st \<longleftrightarrow> (\<forall>e \<in> set (cl_cache st). la_max_tokens (fst e) = n)"

lemma shared_warm_cache:
  assumes "warm_cache n st" "la_max_tokens a = n" "shared_llm_provider a st = (r, st')"
  shows "warm_cache n st'"
proof (cases "map_of (cl_cache st) a")
  case (Some p)
  then show ?thesis using assms by (auto simp: shared_llm_provider_def warm_cache_def)
next
  case None
  obtain b st1 where b: "build_llm_provider a st = (b, st1)" by force
  note c = build_llm_honest(1) [OF b]
  show ?thesis
  proof (cases b)
    case (Inl e)
    then show ?thesis using assms c by (simp add: shared_llm_provider_def None b warm_cache_def)
  next
    case (Inr p)
    have "cl_cache st' = last_n CACHE_SIZE (cl_cache st @ [(a, p)])" using assms(3) c by (auto simp: shared_llm_provider_def None b Inr)
    moreover have "\<forall>e \<in> set (cl_cache st @ [(a, p)]). la_max_tokens (fst e) = n" using assms(1, 2) by (simp add: warm_cache_def)
    ultimately show ?thesis unfolding warm_cache_def by (metis last_n_inD)
  qed
qed

lemma feature_warm_cache:
  assumes "warm_cache n st" "build_feature_llm engine s n st = (r, st')"
  shows "warm_cache n st'"
proof (cases "engine = ENGINE_GROQ_FALLBACK")
  case True
  obtain r1 st1 where b1: "fallback_primary_provider s n st = (r1, st1)" by force
  obtain r2 st2 where b2: "shared_engine_provider ENGINE_DEEPSEEK s n st1 = (r2, st2)" by force
  have w1: "warm_cache n st1" by (rule shared_warm_cache [OF assms(1) _ b1 [unfolded fallback_primary_provider_def split_beta]]) simp
  have w2: "warm_cache n st2" by (rule shared_warm_cache [OF w1 _ b2 [unfolded shared_engine_provider_def split_beta]]) simp
  show ?thesis using assms(2) True w1 w2 by (cases r1; cases r2) (auto simp: build_feature_llm_def b1 b2)
next
  case False
  obtain r1 st1 where b1: "shared_engine_provider engine s n st = (r1, st1)" by force
  have "warm_cache n st1" by (rule shared_warm_cache [OF assms(1) _ b1 [unfolded shared_engine_provider_def split_beta]]) simp
  then show ?thesis using assms(2) False by (cases r1) (auto simp: build_feature_llm_def b1)
qed

lemma lifespan_start_clients:
  assumes "clients_ok st" "warm_cache 1 st"
  shows "extends st (pr_clients (lifespan_start s l sv st)) \<and> warm_cache 1 (pr_clients (lifespan_start s l sv st))"
proof -
  obtain r1 t1 where g1: "get_tts_provider s (lim_tts_cache_max_entries l) None st = (r1, t1)" by force
  define st1 where "st1 = (if drill_tts_enabled s then t1 else st)"
  have 1: "extends st st1" "cl_cache st1 = cl_cache st"
    using get_tts_extends [OF assms(1) g1] assms(1) by (auto simp: st1_def extends_def)
  obtain r2 t2 where g2: "get_stt_provider s None st1 = (r2, t2)" by force
  define st2 where "st2 = (if drill_stt_enabled s then t2 else st1)"
  have 2: "extends st1 st2" "cl_cache st2 = cl_cache st1"
    using get_stt_extends [OF _ g2] 1 by (auto simp: st2_def extends_def)
  obtain r3 t3 where g3: "build_feature_llm (cfg_voice_engine s) s 1 st2 = (r3, t3)" by force
  have w2: "warm_cache 1 st2" using assms(2) 1(2) 2(2) by (simp add: warm_cache_def)
  have 3: "extends st2 t3" "warm_cache 1 t3"
    using build_feature_llm_ok [OF _ g3] feature_warm_cache [OF w2 g3] 2 by (auto simp: extends_def)
  have "pr_clients (lifespan_start s l sv st) = (if cfg_voice_engine s \<in> set warmed_engines then t3 else st2)"
    using g2 g3 by (cases "drill_tts_enabled s"; cases "drill_stt_enabled s") (simp_all add: lifespan_start_def Let_def split_beta g1 st1_def st2_def)
  then show ?thesis using 1 2 3 w2 by (auto simp: extends_def)
qed

text \<open>The providers of one reply length are clients outside \<open>R\<close>.\<close>

definition apart :: "nat set \<Rightarrow> nat \<Rightarrow> clients \<Rightarrow> bool" where
  "apart R n st \<longleftrightarrow> (\<forall>k \<in> R. k < cl_next st)
     \<and> (\<forall>e \<in> set (cl_cache st). la_max_tokens (fst e) = n \<longrightarrow> snd e = FakeLlm \<or> client (snd e) \<notin> R)"

lemma build_llm_apart:
  assumes "\<forall>k \<in> R. k < cl_next st" "build_llm_provider a st = (r, st')"
  shows "(\<forall>k \<in> R. k < cl_next st') \<and> (\<forall>p. r = Inr p \<longrightarrow> p = FakeLlm \<or> client p \<notin> R)"
  using assms by (auto simp: build_llm_provider_def register_closeable_def split: if_split_asm)

lemma shared_apart:
  assumes "apart R n st" "la_max_tokens a = n" "shared_llm_provider a st = (r, st')"
  shows "apart R n st' \<and> (\<forall>p. r = Inr p \<longrightarrow> p = FakeLlm \<or> client p \<notin> R)"
proof (cases "map_of (cl_cache st) a")
  case (Some p)
  then have "(a, p) \<in> set (cl_cache st)" by (rule map_of_SomeD)
  then show ?thesis using assms Some by (fastforce simp: shared_llm_provider_def apart_def)
next
  case None
  obtain b st1 where b: "build_llm_provider a st = (b, st1)" by force
  note h = build_llm_apart [OF _ b, of R] and c = build_llm_honest(1) [OF b]
  have R: "\<forall>k \<in> R. k < cl_next st" using assms(1) by (simp add: apart_def)
  show ?thesis
  proof (cases b)
    case (Inl e)
    then show ?thesis using assms h [OF R] c by (simp add: shared_llm_provider_def None b apart_def)
  next
    case (Inr p)
    have e: "r = Inr p" "cl_cache st' = last_n CACHE_SIZE (cl_cache st @ [(a, p)])" "cl_next st' = cl_next st1"
      using assms(3) c by (auto simp: shared_llm_provider_def None b Inr)
    have p: "p = FakeLlm \<or> client p \<notin> R" using h [OF R] Inr by blast
    have "\<forall>x \<in> set (cl_cache st @ [(a, p)]). la_max_tokens (fst x) = n \<longrightarrow> snd x = FakeLlm \<or> client (snd x) \<notin> R"
      using assms(1) p by (auto simp: apart_def)
    then have "\<forall>x \<in> set (cl_cache st'). la_max_tokens (fst x) = n \<longrightarrow> snd x = FakeLlm \<or> client (snd x) \<notin> R"
      unfolding e(2) by (meson last_n_inD)
    moreover have "\<forall>k \<in> R. k < cl_next st'" unfolding e(3) using h [OF R] by (rule conjunct1)
    ultimately show ?thesis unfolding apart_def e(1) using p by blast
  qed
qed

lemma feature_apart:
  assumes "apart R n st" "build_feature_llm engine s n st = (Inr ps, st')"
  shows "client_ids ps \<inter> R = {}"
proof (cases "engine = ENGINE_GROQ_FALLBACK")
  case True
  obtain r1 st1 where b1: "fallback_primary_provider s n st = (r1, st1)" by force
  obtain r2 st2 where b2: "shared_engine_provider ENGINE_DEEPSEEK s n st1 = (r2, st2)" by force
  have w1: "apart R n st1 \<and> (\<forall>p. r1 = Inr p \<longrightarrow> p = FakeLlm \<or> client p \<notin> R)"
    by (rule shared_apart [OF assms(1) _ b1 [unfolded fallback_primary_provider_def split_beta]]) simp
  have w2: "apart R n st2 \<and> (\<forall>p. r2 = Inr p \<longrightarrow> p = FakeLlm \<or> client p \<notin> R)"
    by (rule shared_apart [OF w1 [THEN conjunct1] _ b2 [unfolded shared_engine_provider_def split_beta]]) simp
  show ?thesis using assms(2) True w1 w2 by (cases r1; cases r2) (auto simp: build_feature_llm_def b1 b2 split: if_split_asm)
next
  case False
  obtain r1 st1 where b1: "shared_engine_provider engine s n st = (r1, st1)" by force
  have "apart R n st1 \<and> (\<forall>p. r1 = Inr p \<longrightarrow> p = FakeLlm \<or> client p \<notin> R)"
    by (rule shared_apart [OF assms(1) _ b1 [unfolded shared_engine_provider_def split_beta]]) simp
  then show ?thesis using assms(2) False by (cases r1) (auto simp: build_feature_llm_def b1 split: if_split_asm)
qed

text \<open>The warm-up of the language model warms a client no turn uses: the key of the cache holds the length of the reply, one
  token for the warm-up, so the first turn opens a client of its own.\<close>

lemma warm_up_warms_another_client:
  assumes "lim_deepseek_conversation_max_tokens l \<noteq> 1"
    and "get_conversation_turn_service s l tts (pr_clients (lifespan_start s l sv no_clients)) = (Inr ts, st')"
  shows "client_ids (ts_llm ts) \<inter> set (cl_registered (pr_clients (lifespan_start s l sv no_clients))) = {}"
proof -
  let ?st = "pr_clients (lifespan_start s l sv no_clients)"
  have w: "extends no_clients ?st \<and> warm_cache 1 ?st"
    by (rule lifespan_start_clients [OF no_clients_ok]) (simp add: warm_cache_def no_clients_def)
  then have "apart (set (cl_registered ?st)) (lim_deepseek_conversation_max_tokens l) ?st"
    using assms(1) by (auto simp: apart_def warm_cache_def extends_def clients_ok_def)
  moreover obtain st1 where "build_feature_llm (cfg_voice_engine s) s (lim_deepseek_conversation_max_tokens l) ?st = (Inr (ts_llm ts), st1)"
    using assms(2) by (auto simp: get_conversation_turn_service_def split: prod.splits sum.splits if_split_asm)
  ultimately show ?thesis by (rule feature_apart)
qed

section \<open>Shutdown and outages\<close>

lemma lifespan_stop_closes:
  "fst (lifespan_stop p) = rev (cl_registered (pr_clients p))" "\<not> pr_purging (snd (lifespan_stop p))"
  "cl_registered (pr_clients (snd (lifespan_stop p))) = []"
  by (simp_all add: lifespan_stop_def close_all_def)


definition sample_services :: services where
  "sample_services = \<lparr>sv_synthesize = \<lambda>b t. Inr [], sv_transcribe = \<lambda>n w. Inl (DomainErr LlmProviderError ''timeout''),
     sv_complete = \<lambda>ps t. Inr ''Hi''\<rparr>"


text \<open>Two lines about an outage are half a minute apart, and the first of them too is half a minute after the clock's start: a
  limiter on a machine up for less is silent.\<close>

lemma outage_log_late: "t \<in> set (outage_log z nows) \<Longrightarrow> sorted nows \<Longrightarrow> z + FAILURE_LOG_THROTTLE_SECONDS \<le> t"
proof (induction nows arbitrary: z)
  case (Cons now nows)
  show ?case
  proof (cases "now - z < FAILURE_LOG_THROTTLE_SECONDS")
    case True
    then show ?thesis using Cons by (simp add: log_failure_throttled_def)
  next
    case False
    then consider "t = now" | "t \<in> set (outage_log now nows)" using Cons.prems(1) by (auto simp: log_failure_throttled_def)
    then show ?thesis
    proof cases
      case 1
      then show ?thesis using False by simp
    next
      case 2
      have "now + FAILURE_LOG_THROTTLE_SECONDS \<le> t" using Cons.IH [OF 2] Cons.prems(2) by simp
      moreover have "0 \<le> FAILURE_LOG_THROTTLE_SECONDS" by (simp add: FAILURE_LOG_THROTTLE_SECONDS_def)
      ultimately show ?thesis using False by simp
    qed
  qed
qed simp

lemma outage_log_spaced:
  "sorted nows \<Longrightarrow> sorted_wrt (\<lambda>a b. a + FAILURE_LOG_THROTTLE_SECONDS \<le> b) (outage_log z nows)"
  by (induction nows arbitrary: z) (auto simp: log_failure_throttled_def intro: outage_log_late)

lemma early_outage_is_silent:
  "sorted nows \<Longrightarrow> \<forall>t \<in> set nows. t < FAILURE_LOG_THROTTLE_SECONDS \<Longrightarrow> outage_log 0 nows = []"
  by (induction nows) (simp_all add: log_failure_throttled_def)

end
