(* ===== verification/Acoustic.thy ===== *)
theory Acoustic
  imports PronService
begin

text \<open>
  The acoustic model behind the scoring and the start of the pronunciation service
  (\<^verbatim>\<open>pronunciation-service/src/pronunciation/ml/model.py\<close>, \<^verbatim>\<open>main.py\<close>). The network, its processor and \<open>log_softmax\<close> are
  library code: arguments.
\<close>

section \<open>The model\<close>

text \<open>What \<open>transformers\<close> loads: the tokenizer's vocabulary, the configured padding token, and the network from samples to
  logits.\<close>

record pretrained =
  pt_vocab :: "(string \<times> nat) list"
  pt_pad_token_id :: "nat option"
  pt_logits :: "real list \<Rightarrow> real list list"

definition id_to_phoneme :: "(string \<times> nat) list \<Rightarrow> nat \<Rightarrow> string option" where
  "id_to_phoneme vocab = map_of (rev (map (\<lambda>(p, i). (i, p)) vocab))"

definition blank_id :: "nat option \<Rightarrow> nat" where
  "blank_id pad_token_id = (case pad_token_id of None \<Rightarrow> 0 | Some i \<Rightarrow> i)"

definition emission_log_probs :: "(real list \<Rightarrow> real list) \<Rightarrow> pretrained \<Rightarrow> real list \<Rightarrow> real list list" where
  "emission_log_probs log_softmax pt samples = map log_softmax (pt_logits pt samples)"

definition wav2vec2_model :: "(real list \<Rightarrow> real list) \<Rightarrow> pretrained \<Rightarrow> acoustic_model" where
  "wav2vec2_model log_softmax pt = \<lparr>am_blank_id = blank_id (pt_pad_token_id pt), am_phoneme_to_id = map_of (pt_vocab pt),
     am_id_to_phoneme = id_to_phoneme (pt_vocab pt), am_emission_log_probs = emission_log_probs log_softmax pt\<rparr>"

section \<open>Start-up\<close>

definition TARGET_SAMPLE_RATE :: nat where "TARGET_SAMPLE_RATE = 16000"

record pron_settings =
  ps_model_id :: string
  ps_device :: string
  ps_torch_num_threads :: int
  ps_max_concurrent_inferences :: int

definition default_pron_settings :: pron_settings where
  "default_pron_settings = \<lparr>ps_model_id = ''facebook/wav2vec2-xlsr-53-espeak-cv-ft'', ps_device = ''cpu'', ps_torch_num_threads = 0,
     ps_max_concurrent_inferences = 1\<rparr>"

text \<open>The serving process: its number of threads when it was set, its model and its gate.\<close>

record pron_app =
  pa_threads :: "int option"
  pa_model :: acoustic_model
  pa_gate :: gate
  pa_warm :: bool

text \<open>\<open>load\<close> reads the weights or fails; \<open>warms\<close> says whether an inference over so many samples succeeds.\<close>

definition pron_lifespan ::
  "(string \<Rightarrow> string \<Rightarrow> error + acoustic_model) \<Rightarrow> (acoustic_model \<Rightarrow> real list \<Rightarrow> bool) \<Rightarrow> pron_settings \<Rightarrow> error + pron_app" where
  "pron_lifespan load warms s = (case load (ps_model_id s) (ps_device s) of
      Inl e \<Rightarrow> Inl e
    | Inr am \<Rightarrow> let warm = list_all (\<lambda>seconds. warms am (replicate (TARGET_SAMPLE_RATE * seconds) 0)) [1, 2, 3, 4]
        in (case new_gate (ps_max_concurrent_inferences s) of
              Inl e \<Rightarrow> Inl e
            | Inr g \<Rightarrow> Inr \<lparr>pa_threads = (if ps_torch_num_threads s > 0 then Some (ps_torch_num_threads s) else None),
                pa_model = am, pa_gate = g, pa_warm = warm\<rparr>))"

section \<open>Properties\<close>

lemma id_to_phoneme_inverse:
  assumes "distinct (map snd vocab)" "map_of vocab p = Some i"
  shows "id_to_phoneme vocab i = Some p"
proof -
  have "(p, i) \<in> set vocab" using assms(2) by (rule map_of_SomeD)
  then have "(i, p) \<in> set (rev (map (\<lambda>(p, i). (i, p)) vocab))" by force
  moreover have "distinct (map fst (rev (map (\<lambda>(p, i). (i, p)) vocab)))"
    using assms(1) distinct_rev [of "map snd vocab"] by (simp add: rev_map comp_def case_prod_beta del: distinct_rev)
  ultimately show ?thesis unfolding id_to_phoneme_def by (rule map_of_is_SomeI [rotated])
qed

lemma score_span_phoneme [simp]: "pgs_phoneme (score_span lp blank p t sp) = p"
  by (simp add: score_span_def Let_def split: prod.split)

lemma length_forced_align: "length (forced_align lp ts blank) = length ts"
  by (simp add: forced_align_def Let_def)

text \<open>The service starts exactly when the weights load and the gate admits someone; a failed warm-up only leaves it cold.\<close>

lemma pron_service_starts:
  "(\<exists>app. pron_lifespan load warms s = Inr app)
     \<longleftrightarrow> (\<exists>am. load (ps_model_id s) (ps_device s) = Inr am) \<and> 1 \<le> ps_max_concurrent_inferences s"
  by (auto simp: pron_lifespan_def new_gate_def Let_def split: sum.splits if_split_asm)

lemma pron_service_gate:
  "pron_lifespan load warms s = Inr app \<Longrightarrow> gate_inv (pa_gate app) \<and> int (g_max (pa_gate app)) = ps_max_concurrent_inferences s"
  by (auto simp: pron_lifespan_def new_gate_def gate_inv_def Let_def split: sum.splits if_split_asm)

text \<open>Every phoneme is scored under its own name. With a vocabulary that gives every phoneme one identifier, whatever the network
  emits: the scores of a text are those of exactly the phonemes the model knows, in the order of the text, each under the name
  the phonemizer gave it.\<close>

theorem scores_name_the_phonemes:
  assumes "distinct (map snd (pt_vocab pt))" "phonemizer text language = Inr expected"
  shows "\<exists>scores. score_samples (wav2vec2_model log_softmax pt) phonemizer language samples text = Inr scores
    \<and> map pgs_phoneme scores = filter (\<lambda>p. p \<in> fst ` set (pt_vocab pt)) expected"
proof -
  let ?v = "pt_vocab pt"
  let ?ids = "List.map_filter (map_of ?v) expected"
  have known: "p \<in> fst ` set ?v \<longleftrightarrow> map_of ?v p \<noteq> None" for p by (simp add: map_of_eq_None_iff)
  have names: "map (\<lambda>t. case id_to_phoneme ?v t of None \<Rightarrow> ''?'' | Some p \<Rightarrow> p) (List.map_filter (map_of ?v) ps)
      = filter (\<lambda>p. p \<in> fst ` set ?v) ps" for ps
    by (induction ps)
      (auto simp: map_filter_simps id_to_phoneme_inverse [OF assms(1)] known split: option.split)
  have "map pgs_phoneme (gop_scores lp ?ids (id_to_phoneme ?v) b)
      = map (\<lambda>t. case id_to_phoneme ?v t of None \<Rightarrow> ''?'' | Some p \<Rightarrow> p) (map fst (zip ?ids (forced_align lp ?ids b)))" for lp b
    by (simp add: gop_scores_def comp_def case_prod_beta)
  then have "map pgs_phoneme (gop_scores lp ?ids (id_to_phoneme ?v) b)
      = map (\<lambda>t. case id_to_phoneme ?v t of None \<Rightarrow> ''?'' | Some p \<Rightarrow> p) ?ids" for lp b
    by (simp only: map_fst_zip length_forced_align)
  moreover have "filter (\<lambda>p. p \<in> fst ` set ?v) [] = []" "expected = [] \<Longrightarrow> ?ids = []" by (simp_all add: map_filter_simps)
  ultimately show ?thesis using assms(2) names [of expected]
    by (auto simp: score_samples_def wav2vec2_model_def Let_def)
qed

theorem scores_name_the_phonemes_witness:
  "\<exists>scores. score_samples (wav2vec2_model id \<lparr>pt_vocab = [(''h'', 1), (''ai'', 2)], pt_pad_token_id = Some 0,
      pt_logits = (\<lambda>_. [[0, -1, -2], [0, -2, -1]])\<rparr>) (\<lambda>t l. Inr [''h'', ''qq'', ''ai'']) ''en-us'' [] ''hi'' = Inr scores
    \<and> map pgs_phoneme scores = [''h'', ''ai'']"
  using scores_name_the_phonemes [of "\<lparr>pt_vocab = [(''h'', 1), (''ai'', 2)], pt_pad_token_id = Some 0,
      pt_logits = (\<lambda>_. [[0, -1, -2], [0, -2, -1]])\<rparr>" "\<lambda>t l. Inr [''h'', ''qq'', ''ai'']" "''hi''" "''en-us''" "[''h'', ''qq'', ''ai'']" id "[]"]
  by simp

end
