(* ===== verification/VoiceDump.thy ===== *)
theory VoiceDump
  imports VoiceData
begin

text \<open>
  The export that is not paged (\<^verbatim>\<open>SqlAlchemyVoiceDataSource\<close>, \<^verbatim>\<open>VoiceDataService.export\<close> of \<^verbatim>\<open>app/features/voice_data\<close>): one
  statement per category, read from a server-side cursor. Without \<open>order_by\<close> the database may return rows in any order: the
  order it scans a query's rows in is an argument.
\<close>

section \<open>Statements\<close>

record scans =
  sc_transcripts :: "(conv_session \<times> transcript) list \<Rightarrow> (conv_session \<times> transcript) list"
  sc_vocabulary :: "vocabulary_entry list \<Rightarrow> vocabulary_entry list"
  sc_debriefs :: "(conv_session \<times> debrief_row) list \<Rightarrow> (conv_session \<times> debrief_row) list"
  sc_review_items :: "review_item list \<Rightarrow> review_item list"

definition scans_ok :: "scans \<Rightarrow> bool" where
  "scans_ok sc \<longleftrightarrow> (\<forall>xs. mset (sc_transcripts sc xs) = mset xs) \<and> (\<forall>xs. mset (sc_vocabulary sc xs) = mset xs)
     \<and> (\<forall>xs. mset (sc_debriefs sc xs) = mset xs) \<and> (\<forall>xs. mset (sc_review_items sc xs) = mset xs)"

definition stream_utterances :: "scans \<Rightarrow> int \<Rightarrow> db \<Rightarrow> utterance list" where
  "stream_utterances sc uid d =
     concat (map utterances_of (sort_key (\<lambda>r. cs_started_at (fst r)) (sc_transcripts sc (session_transcripts uid d))))"

definition stream_vocabulary :: "scans \<Rightarrow> int \<Rightarrow> db \<Rightarrow> (string \<times> string \<times> string) list" where
  "stream_vocabulary sc uid d =
     map (\<lambda>e. (v_word e, v_translation e, v_example e)) (sc_vocabulary sc (filter (\<lambda>e. v_user_id e = uid) (vocabulary d)))"

definition stream_debriefs :: "scans \<Rightarrow> int \<Rightarrow> db \<Rightarrow> debrief_item list" where
  "stream_debriefs sc uid d =
     map debrief_item_of (sort_key (\<lambda>r. cs_started_at (fst r)) (sc_debriefs sc (session_debrief_rows uid d)))"

definition stream_review_items :: "scans \<Rightarrow> int \<Rightarrow> db \<Rightarrow> review_export list" where
  "stream_review_items sc uid d = map review_export_of (sc_review_items sc (filter (\<lambda>r. ri_user_id r = uid) (review_items d)))"

section \<open>The service\<close>

record voice_data_export =
  vx_raw_audio_retained :: bool
  vx_utterances :: "utterance list"
  vx_vocabulary :: "(string \<times> string \<times> string) list"
  vx_debriefs :: "debrief_item list"
  vx_review_items :: "review_export list"

text \<open>Every category is read by a statement of its own: the database is the one at that moment.\<close>

definition voice_data_export :: "scans \<Rightarrow> int \<Rightarrow> (nat \<Rightarrow> db) \<Rightarrow> voice_data_export" where
  "voice_data_export sc uid ds = \<lparr>vx_raw_audio_retained = False, vx_utterances = stream_utterances sc uid (ds 0),
     vx_vocabulary = stream_vocabulary sc uid (ds 1), vx_debriefs = stream_debriefs sc uid (ds 2),
     vx_review_items = stream_review_items sc uid (ds 3)\<rparr>"

section \<open>Agreement with the paged export\<close>

lemma mset_concat_map: "mset xs = mset ys \<Longrightarrow> mset (concat (map f xs)) = mset (concat (map f ys))"
proof -
  have "mset (concat (map f zs)) = (\<Sum>z \<in># mset zs. mset (f z))" for zs
    by (induction zs) simp_all
  then show "mset xs = mset ys \<Longrightarrow> mset (concat (map f xs)) = mset (concat (map f ys))" by simp
qed

lemma mset_map_eq: "mset xs = mset ys \<Longrightarrow> mset (map f xs) = mset (map f ys)"
  by simp

text \<open>Two sorts of the same rows by keys that distinct rows do not share agree, when the finer key refines the coarser.\<close>

lemma sort_key_refines:
  assumes "mset xs = mset ys" "inj_on f (set ys)" "\<And>x y. x \<in> set ys \<Longrightarrow> y \<in> set ys \<Longrightarrow> g x \<le> g y \<Longrightarrow> f x \<le> f y"
  shows "sort_key f xs = sort_key g ys"
proof (rule properties_for_sort_key)
  show "mset (sort_key g ys) = mset xs" using assms(1) by simp
  show "sorted (map f (sort_key g ys))"
    using sorted_sort_key [of g ys] unfolding sorted_map
    by (rule sorted_wrt_mono_rel [rotated]) (simp add: assms(3))
  fix k assume k: "k \<in> set (sort_key g ys)"
  have set: "set xs = set ys" using assms(1) by (rule mset_eq_setD)
  have one: "f k = f x \<longleftrightarrow> x = k" if "x \<in> set ys" for x
    using assms(2) k that by (auto simp: inj_on_def)
  have "filter (\<lambda>x. f k = f x) zs = filter (\<lambda>x. x = k) zs" if "set zs \<subseteq> set ys" for zs
    using that one by (intro filter_cong) auto
  moreover have "filter (\<lambda>x. x = k) zs = replicate (count (mset zs) k) k" for zs
    by (induction zs) auto
  ultimately show "filter (\<lambda>y. f k = f y) (sort_key g ys) = filter (\<lambda>x. f k = f x) xs"
    using assms(1) set by simp
qed

lemma started_refines:
  assumes "mset xs = mset rows" "unique_on started_key rows" "fst ` set rows \<subseteq> S" "inj_on cs_started_at S"
  shows "sort_key (\<lambda>r. cs_started_at (fst r)) xs = sort_key started_key rows"
proof (rule sort_key_refines [OF assms(1)])
  have u: "inj_on started_key (set rows)" using assms(2) by (simp add: unique_on_def distinct_map)
  show "inj_on (\<lambda>r. cs_started_at (fst r)) (set rows)"
  proof (rule inj_onI)
    fix x y assume xy: "x \<in> set rows" "y \<in> set rows" "cs_started_at (fst x) = cs_started_at (fst y)"
    then have "fst x = fst y" using assms(3, 4) by (meson image_subset_iff inj_onD)
    then show "x = y" using inj_onD [OF u _ xy(1, 2)] by (simp add: started_key_def)
  qed
  show "started_key x \<le> started_key y \<Longrightarrow> cs_started_at (fst x) \<le> cs_started_at (fst y)" for x y
    by (auto simp: started_key_def)
qed

lemma joined_sessions:
  "fst ` set (session_transcripts uid d) \<subseteq> {s \<in> set (sessions d). cs_user_id s = uid}"
  "fst ` set (session_debrief_rows uid d) \<subseteq> {s \<in> set (sessions d). cs_user_id s = uid}"
  by (auto simp: session_transcripts_def session_debrief_rows_def)

text \<open>Both exports say the same. On a consistent database nobody writes to, whatever order it scans its rows in, the
  one-statement export holds in each category exactly the items of the paged export, as often; and in the same order where no
  two of the learner's sessions start in the same microsecond.\<close>

theorem dump_agrees_with_pages:
  fixes uid :: int
  assumes "export_ok d" "scans_ok sc"
  defines "x \<equiv> voice_data_export sc uid (\<lambda>_. d)"
  shows "(\<exists>us. export_utterances uid (\<lambda>_. d) = Some us \<and> mset (vx_utterances x) = mset us
        \<and> (inj_on cs_started_at {s \<in> set (sessions d). cs_user_id s = uid} \<longrightarrow> vx_utterances x = us))
    \<and> (\<exists>vs. export_vocabulary uid (\<lambda>_. d) = Some vs \<and> mset (vx_vocabulary x) = mset vs)
    \<and> (\<exists>bs. export_debriefs uid (\<lambda>_. d) = Some bs \<and> mset (vx_debriefs x) = mset bs
        \<and> (inj_on cs_started_at {s \<in> set (sessions d). cs_user_id s = uid} \<longrightarrow> vx_debriefs x = bs))
    \<and> (\<exists>rs. export_review_items uid (\<lambda>_. d) = Some rs \<and> mset (vx_review_items x) = mset rs)"
proof (intro conjI)
  let ?S = "{s \<in> set (sessions d). cs_user_id s = uid}"
  note q = export_quiescent [OF assms(1), of uid] and u = export_ok_unique [OF assms(1), of uid]
  have sc: "mset (sc_transcripts sc xs) = mset xs" "mset (sc_vocabulary sc vs) = mset vs" "mset (sc_debriefs sc bs) = mset bs"
    "mset (sc_review_items sc rs) = mset rs" for xs vs bs rs using assms(2) by (simp_all add: scans_ok_def)
  have x: "vx_utterances x = stream_utterances sc uid d" "vx_vocabulary x = stream_vocabulary sc uid d"
    "vx_debriefs x = stream_debriefs sc uid d" "vx_review_items x = stream_review_items sc uid d"
    by (simp_all add: x_def voice_data_export_def)
  have us: "mset (vx_utterances x) = mset (concat (map utterances_of (sort_key started_key (session_transcripts uid d))))"
    unfolding x stream_utterances_def by (rule mset_concat_map) (simp add: sc)
  have ul: "inj_on cs_started_at ?S \<Longrightarrow> vx_utterances x = concat (map utterances_of (sort_key started_key (session_transcripts uid d)))"
    by (simp add: x stream_utterances_def started_refines [OF sc(1) u(1) joined_sessions(1)])
  show "\<exists>us. export_utterances uid (\<lambda>_. d) = Some us \<and> mset (vx_utterances x) = mset us
      \<and> (inj_on cs_started_at ?S \<longrightarrow> vx_utterances x = us)"
    using q(1) us ul by blast
  have bs: "mset (vx_debriefs x) = mset (map debrief_item_of (sort_key started_key (session_debrief_rows uid d)))"
    by (simp add: x stream_debriefs_def sc)
  have bl: "inj_on cs_started_at ?S \<Longrightarrow> vx_debriefs x = map debrief_item_of (sort_key started_key (session_debrief_rows uid d))"
    by (simp add: x stream_debriefs_def started_refines [OF sc(3) u(2) joined_sessions(2)])
  show "\<exists>bs. export_debriefs uid (\<lambda>_. d) = Some bs \<and> mset (vx_debriefs x) = mset bs
      \<and> (inj_on cs_started_at ?S \<longrightarrow> vx_debriefs x = bs)"
    using q(3) bs bl by blast
  show "\<exists>vs. export_vocabulary uid (\<lambda>_. d) = Some vs \<and> mset (vx_vocabulary x) = mset vs"
    by (simp add: q(2) x stream_vocabulary_def sc)
  show "\<exists>rs. export_review_items uid (\<lambda>_. d) = Some rs \<and> mset (vx_review_items x) = mset rs"
    by (simp add: q(4) x stream_review_items_def sc)
qed

definition backward_scans :: scans where
  "backward_scans = \<lparr>sc_transcripts = rev, sc_vocabulary = rev, sc_debriefs = rev, sc_review_items = rev\<rparr>"

theorem dump_agrees_with_pages_witness:
  "export_utterances 1 (\<lambda>_. demo_voice_db) = Some (vx_utterances (voice_data_export backward_scans 1 (\<lambda>_. demo_voice_db)))"
proof -
  have ok: "export_ok demo_voice_db"
    by (simp add: export_ok_def demo_voice_db_def demo_started_def demo_db_def empty_db_def unique_on_def)
  have sc: "scans_ok backward_scans" by (simp add: scans_ok_def backward_scans_def)
  have "inj_on cs_started_at {s \<in> set (sessions demo_voice_db). cs_user_id s = 1}"
    by (auto simp: inj_on_def demo_voice_db_def demo_started_def)
  then show ?thesis using dump_agrees_with_pages [OF ok sc, of 1] by auto
qed

text \<open>Rows of the same microsecond: the one-statement export may list them in either order, the paged one always by session.\<close>

lemma dump_order_of_ties_is_open:
  assumes "cs_started_at s = cs_started_at s'"
  shows "sort_key (\<lambda>r. cs_started_at (fst r)) [(s, x), (s', x')] = [(s, x), (s', x')]"
    and "sort_key (\<lambda>r. cs_started_at (fst r)) [(s', x'), (s, x)] = [(s', x'), (s, x)]"
  using assms by simp_all

end
