(* ===== verification/Views.thy ===== *)
theory Views
  imports Prompts AuthRoutes
begin

text \<open>
  Routes that compose components already modelled: the placement with its analyser (\<^verbatim>\<open>app/features/onboarding\<close>) and the
  administrator's summary (\<^verbatim>\<open>app/features/analytics/router.py\<close>).
\<close>

section \<open>Placement\<close>

definition placement_turns :: "string list \<Rightarrow> message list" where
  "placement_turns said = map (\<lambda>a. \<lparr>m_role = ROLE_USER, m_content = a\<rparr>) said"

text \<open>No intensity is passed: the configured number of errors is asked for, without a directive.\<close>

definition placement_estimate ::
  "(string \<Rightarrow> string \<Rightarrow> error + string) \<Rightarrow> analyzer \<Rightarrow> string \<Rightarrow> string list \<Rightarrow> string \<Rightarrow> string \<Rightarrow> error + string" where
  "placement_estimate model an nonce said native_language fallback =
     (case analyze_with model an nonce (placement_turns said) native_language fallback None of
        Inl e \<Rightarrow> Inl e | Inr res \<Rightarrow> Inr (dr_cefr_estimate res))"

definition submit_placement ::
  "error option \<Rightarrow> (string \<Rightarrow> string \<Rightarrow> error + string) \<Rightarrow> analyzer \<Rightarrow> string \<Rightarrow> user \<Rightarrow> string list \<Rightarrow> string list \<Rightarrow> string \<Rightarrow> dbtx
   \<Rightarrow> (error + placement_result) \<times> dbtx" where
  "submit_placement limited model an nonce u answers interests goal t = (case limited of
      Some e \<Rightarrow> (Inl e, t)
    | None \<Rightarrow> place (placement_estimate model an nonce) u answers interests goal t)"

section \<open>The administrator's summary\<close>

definition analytics_summary_route :: "auth_env \<Rightarrow> string option \<Rightarrow> int \<Rightarrow> instant \<Rightarrow> db \<Rightarrow> error + analytics_summary" where
  "analytics_summary_route env credentials local_offset now d = (case get_current_admin env credentials d of
      Inl e \<Rightarrow> Inl e | Inr _ \<Rightarrow> Inr (analytics_summary local_offset now d))"

section \<open>Bounds of a placement\<close>

lemma length_py_join_le:
  "(\<And>x. x \<in> set xs \<Longrightarrow> length x \<le> k) \<Longrightarrow> length (py_join [c] xs) + (if xs = [] then 0 else 1) \<le> (k + 1) * length xs"
proof (induction "[c]" xs rule: py_join.induct)
  case (3 x y ys)
  have "length (py_join [c] (y # ys)) + 1 \<le> (k + 1) * length (y # ys)" using 3 by (simp del: py_join.simps)
  moreover have "length x \<le> k" using 3(2) by simp
  ultimately show ?case by simp
qed auto

lemma last_n_length: "length (last_n n xs) \<le> length xs" "set (last_n n xs) \<subseteq> set xs"
  by (simp_all add: last_n_def set_drop_subset)

lemma placement_text_bounded: "length (learner_text m (placement_turns (clean_answers answers))) \<le> 6 * 1000 + 5"
proof -
  let ?said = "clean_answers answers"
  let ?turns = "learner_turns m (placement_turns ?said)"
  have said: "length ?said \<le> 6" "\<forall>a \<in> set ?said. length a \<le> 1000"
    by (auto simp: clean_answers_def intro: order_trans [OF length_filter_le])
  have "filter (\<lambda>x. m_role x = ROLE_USER) (placement_turns ?said) = placement_turns ?said"
    by (simp add: placement_turns_def filter_map comp_def)
  then have turns: "?turns = (if m > 0 then last_n m ?said else ?said)"
    by (simp add: learner_turns_def Let_def placement_turns_def comp_def)
  have "length ?turns \<le> 6" "\<And>a. a \<in> set ?turns \<Longrightarrow> length a \<le> 1000"
    using said last_n_length [of m ?said] unfolding turns by (auto split: if_splits)
  then show ?thesis using length_py_join_le [of ?turns 1000 "CHR 0x0A"]
    by (cases "?turns = []") (auto simp: learner_text_def)
qed

text \<open>A placement sets a level of the scale. Whatever was answered and whatever the model says: a placement that succeeds leaves
  the account with the level it reports, which is a level of the scale or the one the account had, and an analysis reads at
  most six thousand and five characters of the learner; a limited request changes nothing and never asks the model.\<close>

theorem placement_sets_a_level:
  assumes "get_user (u_id u) d = Some u" "profile_storable (profile_before (u_id u) d)"
    and "submit_placement limited model an nonce u answers interests goal (tx_begin d) = (r, t)"
  shows "(case r of
        Inr res \<Rightarrow> limited = None \<and> get_user (u_id u) (committed t) = Some (u\<lparr>u_cefr_level := pr_cefr_level res\<rparr>)
          \<and> pr_cefr_level res \<in> insert (u_cefr_level u) VALID_CEFR
      | Inl e \<Rightarrow> limited \<noteq> None \<longrightarrow> committed t = d)
    \<and> length (learner_text (an_max_learner_turns an) (placement_turns (clean_answers answers))) \<le> 6005"
proof (cases limited)
  case (Some e)
  then show ?thesis using assms(3) placement_text_bounded by (auto simp: submit_placement_def tx_begin_def)
next
  case None
  let ?an = "placement_estimate model an nonce"
  have run: "place ?an u answers interests goal (tx_begin d) = (r, t)" using assms(3) None by (simp add: submit_placement_def)
  let ?x = "if clean_answers answers \<noteq> [] then ?an (clean_answers answers) (u_native_language u) (u_cefr_level u) else Inr (u_cefr_level u)"
  show ?thesis
  proof (cases ?x)
    case (Inl e)
    then have "r = Inl e" using run by (auto simp: place_def Let_def split: if_split_asm)
    then show ?thesis using placement_text_bounded None by simp
  next
    case (Inr estimate)
    from placement_outcome [OF assms(1, 2) Inr run] show ?thesis
      using None placement_text_bounded by (auto simp: Let_def split: sum.splits if_split_asm)
  qed
qed

theorem placement_sets_a_level_witness:
  "\<exists>t. submit_placement (Some (DomainErr RateLimitedError ''slow down'')) (\<lambda>p c. Inr []) demo_analyzer ''0a'' (new_user 1 ''a@b.c'' ''h'' ''fr'')
      [''Hello''] [] [] (tx_begin demo_learner_db) = (Inl (DomainErr RateLimitedError ''slow down''), t) \<and> committed t = demo_learner_db"
proof -
  let ?u = "new_user 1 ''a@b.c'' ''h'' ''fr''" and ?e = "DomainErr RateLimitedError ''slow down''"
  obtain r t where rt: "submit_placement (Some ?e) (\<lambda>p c. Inr []) demo_analyzer ''0a'' ?u [''Hello''] [] [] (tx_begin demo_learner_db) = (r, t)" by force
  have r: "r = Inl ?e" using rt by (simp add: submit_placement_def)
  have pb: "profile_before 1 demo_learner_db = new_profile 1"
    by (simp add: profile_before_def get_profile_by_user_id_def demo_learner_db_def empty_db_def)
  have u: "get_user (u_id ?u) demo_learner_db = Some ?u"
    by (simp add: get_user_def demo_learner_db_def new_user_def)
  have s: "profile_storable (profile_before (u_id ?u) demo_learner_db)"
    using pb by (simp add: new_user_def profile_storable_def new_profile_def pg_text_ok_def)
  show ?thesis using placement_sets_a_level [OF u s rt] rt r by simp
qed

section \<open>No personal content\<close>

definition event_face :: "analytics_event \<Rightarrow> string \<times> int \<times> instant" where
  "event_face e = (ae_name e, ae_user_id e, ae_created_at e)"

lemma filter_face: "map event_face xs = map event_face ys \<Longrightarrow> map event_face (filter (\<lambda>e. q (event_face e)) xs) = map event_face (filter (\<lambda>e. q (event_face e)) ys)"
proof -
  have "map event_face (filter (\<lambda>e. q (event_face e)) zs) = filter q (map event_face zs)" for zs
    by (simp add: filter_map comp_def)
  then show "map event_face xs = map event_face ys \<Longrightarrow> ?thesis" by simp
qed

text \<open>The summary shows an administrator nothing of the events' properties, and anybody else nothing at all.\<close>

lemma summary_hides_properties:
  assumes "map event_face (analytics d) = map event_face (analytics d')" "get_current_admin env credentials d = get_current_admin env credentials d'"
  shows "analytics_summary_route env credentials local_offset now d = analytics_summary_route env credentials local_offset now d'"
    and "get_current_admin env credentials d = Inl e \<Longrightarrow> analytics_summary_route env credentials local_offset now d = Inl e"
proof -
  have len: "length (filter (\<lambda>e. q (event_face e)) (analytics d)) = length (filter (\<lambda>e. q (event_face e)) (analytics d'))" for q
    using arg_cong [OF filter_face [OF assms(1), of q], of length] by simp
  have "map (fst \<circ> snd \<circ> event_face) (filter (\<lambda>e. q (event_face e)) (analytics d))
      = map (fst \<circ> snd \<circ> event_face) (filter (\<lambda>e. q (event_face e)) (analytics d'))" for q
    using arg_cong [OF filter_face [OF assms(1), of q], of "map (fst \<circ> snd)"] by simp
  from this [of "\<lambda>f. fst f = n" for n] have "distinct_users_with_event n d = distinct_users_with_event n d'" for n
    by (simp add: distinct_users_with_event_def event_face_def comp_def)
  moreover have "count_event n d = count_event n d'" for n
    using len [of "\<lambda>f. fst f = n"] by (simp add: count_event_def event_face_def)
  moreover have "count_event_since n s d = count_event_since n s d'" for n s
    using len [of "\<lambda>f. fst f = n \<and> s \<le> snd (snd f)"] by (simp add: count_event_since_def event_face_def)
  ultimately have "analytics_summary local_offset now d = analytics_summary local_offset now d'" by (simp add: analytics_summary_def)
  then show "analytics_summary_route env credentials local_offset now d = analytics_summary_route env credentials local_offset now d'"
    by (simp add: analytics_summary_route_def assms(2) split: sum.split)
qed (simp add: analytics_summary_route_def)

end
